(* ===== verification/Ledger_Base.thy ===== *)
theory Ledger_Base
  imports Main "HOL-Library.Word"
begin

section \<open>Prelude: types, errors and list lemmas shared by every component\<close>

text \<open>
  This theory holds what every component of the ledger uses: the type names of the model
  (identifiers, time stamps), Go's error values with the wrapping of \<open>fmt.Errorf\<close>, the
  collections of rewrite rules, and generic lemmas on lists of rows.

  A \<open>string\<close> is a list of bytes, as in Go. A \<open>uuid.UUID\<close> is sixteen bytes, so a word of
  128 bits. A point in time is a number of nanoseconds.
\<close>

type_synonym uuid = "128 word"
type_synonym time = int

text \<open>
  \<open>op_defs\<close> collects the definitions that unfold an operation to the statement or the result
  it runs.
\<close>

named_theorems op_defs

subsection \<open>Errors\<close>

text \<open>
  The error values of the program: the five sentinels of \<open>internal/service/ledger.go\<close>,
  \<open>sql.ErrNoRows\<close>, a \<open>*pq.Error\<close> with its SQLSTATE and text, any other error of the
  driver or of the network, \<open>ctx.Err()\<close>, an \<open>errors.New\<close> made on the spot, and
  \<open>fmt.Errorf\<close> with one \<open>%w\<close> verb: text before, the wrapped error, text after.
\<close>

datatype go_error =
    ErrInsufficientFunds
  | ErrSameAccountTransfer
  | ErrInvalidAmount
  | ErrCurrencyMismatch
  | ErrAccountNotFound
  | ErrNoRows
  | PqError string string
  | DriverError string
  | CtxError string
  | ErrorsNew string
  | Errorf string go_error string

text \<open>The text of an error: its \<open>Error()\<close> method.\<close>

fun error_text :: "go_error \<Rightarrow> string" where
  "error_text ErrInsufficientFunds = ''insufficient funds''"
| "error_text ErrSameAccountTransfer = ''cannot transfer to the same account''"
| "error_text ErrInvalidAmount = ''amount must be positive''"
| "error_text ErrCurrencyMismatch = ''currency mismatch''"
| "error_text ErrAccountNotFound = ''account not found''"
| "error_text ErrNoRows = ''sql: no rows in result set''"
| "error_text (PqError code msg) = msg"
| "error_text (DriverError msg) = msg"
| "error_text (CtxError msg) = msg"
| "error_text (ErrorsNew msg) = msg"
| "error_text (Errorf pre e post) = pre @ error_text e @ post"

text \<open>\<open>errors.Is\<close>: the target occurs somewhere in the chain of wrapped errors.\<close>

fun errors_Is :: "go_error \<Rightarrow> go_error \<Rightarrow> bool" where
  "errors_Is (Errorf pre e post) target \<longleftrightarrow> Errorf pre e post = target \<or> errors_Is e target"
| "errors_Is e target \<longleftrightarrow> e = target"

text \<open>\<open>errors.As\<close> into a \<open>*pq.Error\<close>: the first one in the chain, as its SQLSTATE.\<close>

fun errors_As_pq :: "go_error \<Rightarrow> string option" where
  "errors_As_pq (PqError code msg) = Some code"
| "errors_As_pq (Errorf pre e post) = errors_As_pq e"
| "errors_As_pq e = None"

lemma errors_Is_refl [simp]: "errors_Is e e"
  by (cases e) auto

subsection \<open>Lists of rows\<close>

text \<open>
  A table is a list of rows with a key; an update rewrites the rows with one key. What a
  sum over the table becomes:
\<close>

lemma map_key_no_change:
  "k \<notin> key ` set xs \<Longrightarrow> map (\<lambda>y. if key y = k then h y else y) xs = xs"
  by (induction xs) auto

lemma sum_list_map_update_key:
  fixes g :: "'r \<Rightarrow> int"
  assumes "distinct (map key xs)" and "x \<in> set xs"
  shows "sum_list (map g (map (\<lambda>y. if key y = key x then h y else y) xs))
       = sum_list (map g xs) - g x + g (h x)"
  using assms
proof (induction xs)
  case Nil
  then show ?case by simp
next
  case (Cons y ys)
  show ?case
  proof (cases "y = x")
    case True
    with Cons.prems have "key x \<notin> key ` set ys" by auto
    from map_key_no_change [OF this, of h] True show ?thesis by simp
  next
    case False
    with Cons.prems have "key y \<noteq> key x" by (auto simp: rev_image_eqI)
    with False Cons show ?thesis by simp
  qed
qed

lemma map_key_update [simp]:
  "(\<And>y. key (h y) = key y) \<Longrightarrow>
   map key (map (\<lambda>y. if P y then h y else y) xs) = map key xs"
  by (induction xs) auto

lemma find_SomeD: "find P xs = Some x \<Longrightarrow> x \<in> set xs \<and> P x"
  by (auto simp: find_Some_iff)

lemma find_distinct_key:
  assumes "distinct (map key xs)" and "x \<in> set xs"
  shows "find (\<lambda>y. key y = key x) xs = Some x"
  using assms by (induction xs) (auto simp: rev_image_eqI)

lemma find_None_key: "k \<notin> key ` set xs \<Longrightarrow> find (\<lambda>y. key y = k) xs = None"
  by (induction xs) auto

lemma find_append_Some: "find P xs = Some x \<Longrightarrow> find P (xs @ ys) = Some x"
  by (induction xs) (auto split: if_splits)

lemma find_map_update:
  "(\<And>y. P (h y) = P y) \<Longrightarrow>
   find P (map (\<lambda>y. if Q y then h y else y) xs)
   = map_option (\<lambda>y. if Q y then h y else y) (find P xs)"
  by (induction xs) auto

end
