(* ===== verification/Numeric_Text.thy ===== *)
theory Numeric_Text
  imports Complex_Main Ledger_Base
begin

section \<open>Money as text: NUMERIC(19,4) columns, their text form and rounding\<close>

text \<open>
  The program never computes with floating point: an amount is a decimal string of the
  client, a decimal of the third-party decimal library, a string with four places again
  (\<open>StringFixed(4)\<close>), and in the database a \<open>NUMERIC(19,4)\<close>. Here a column value is the
  number of its ten-thousandths, an \<open>int\<close>; \<open>numeric_out\<close> is the text the driver hands to
  the program for it, \<open>numeric_parse\<close> reads the text of a parameter (optional sign, digits,
  optional fraction; the program sends no other form) as coefficient and number of places,
  and \<open>numeric_coerce\<close> stores a quotient in the column: rounding to four places, half away
  from zero, and the overflow error when more than 15 digits stand before the point.
\<close>

subsection \<open>Digits\<close>

definition digit :: "nat \<Rightarrow> char" where
  "digit d = char_of (48 + d)"

definition is_digit :: "char \<Rightarrow> bool" where
  "is_digit c \<longleftrightarrow> 48 \<le> (of_char c :: nat) \<and> (of_char c :: nat) \<le> 57"

definition digit_val :: "char \<Rightarrow> nat" where
  "digit_val c = of_char c - 48"

fun nat_text :: "nat \<Rightarrow> string" where
  "nat_text n = (if n < 10 then [digit n] else nat_text (n div 10) @ [digit (n mod 10)])"

declare nat_text.simps [simp del]

text \<open>The value of a run of digits.\<close>

definition digits_val :: "string \<Rightarrow> nat" where
  "digits_val ds = foldl (\<lambda>n c. 10 * n + digit_val c) 0 ds"

lemma of_char_digit [simp]: "d < 10 \<Longrightarrow> of_char (digit d) = 48 + d"
  by (simp add: digit_def)

lemma digit_val_digit [simp]: "d < 10 \<Longrightarrow> digit_val (digit d) = d"
  by (simp add: digit_val_def)

lemma is_digit_digit [simp]: "d < 10 \<Longrightarrow> is_digit (digit d)"
  by (simp add: is_digit_def)

lemma is_digit_neq:
  assumes "is_digit c"
  shows "c \<noteq> CHR ''-''" and "c \<noteq> CHR ''+''" and "c \<noteq> CHR ''.''"
  using assms by (auto simp: is_digit_def)

lemma not_is_digit [simp]: "\<not> is_digit CHR ''.''" "\<not> is_digit CHR ''-''" "\<not> is_digit CHR ''+''"
  by (simp_all add: is_digit_def)

lemma foldl_digits:
  "foldl (\<lambda>n c. 10 * n + digit_val c) a zs
   = a * 10 ^ length zs + foldl (\<lambda>n c. 10 * n + digit_val c) 0 zs"
proof (induction zs arbitrary: a)
  case Nil
  show ?case by simp
next
  case (Cons z zs)
  let ?f = "\<lambda>n c. 10 * n + digit_val c"
  have "foldl ?f (10 * a + digit_val z) zs
      = (10 * a + digit_val z) * 10 ^ length zs + foldl ?f 0 zs"
    by (rule Cons.IH)
  also have "\<dots> = a * 10 ^ Suc (length zs) + (digit_val z * 10 ^ length zs + foldl ?f 0 zs)"
    by (simp only: distrib_right power_Suc mult.assoc add.assoc mult.left_commute)
  also have "digit_val z * 10 ^ length zs + foldl ?f 0 zs = foldl ?f (digit_val z) zs"
    by (rule Cons.IH [symmetric])
  finally show ?case by simp
qed

lemma digits_val_append:
  "digits_val (xs @ ys) = digits_val xs * 10 ^ length ys + digits_val ys"
  unfolding digits_val_def foldl_append by (rule foldl_digits)

lemma digits_val_single [simp]: "digits_val [c] = digit_val c"
  by (simp add: digits_val_def)

lemma nat_text_digits: "\<forall>c \<in> set (nat_text n). is_digit c"
proof (induction n rule: nat_text.induct)
  case (1 n)
  then show ?case by (subst nat_text.simps) auto
qed

lemma nat_text_not_Nil [simp]: "nat_text n \<noteq> []"
  by (subst nat_text.simps) simp

lemma digits_val_nat_text [simp]: "digits_val (nat_text n) = n"
proof (induction n rule: nat_text.induct)
  case (1 n)
  show ?case
  proof (cases "n < 10")
    case True
    then show ?thesis by (subst nat_text.simps) simp
  next
    case False
    with 1 show ?thesis by (subst nat_text.simps) (simp add: digits_val_append)
  qed
qed

subsection \<open>The text of a NUMERIC(19,4)\<close>

definition pad4 :: "nat \<Rightarrow> string" where
  "pad4 m = [digit (m div 1000 mod 10), digit (m div 100 mod 10),
             digit (m div 10 mod 10), digit (m mod 10)]"

definition numeric_out :: "int \<Rightarrow> string" where
  "numeric_out n =
     (if n < 0 then ''-'' else []) @ nat_text (nat \<bar>n\<bar> div 10000) @ ''.'' @ pad4 (nat \<bar>n\<bar> mod 10000)"

definition split_sign :: "string \<Rightarrow> int \<times> string" where
  "split_sign s =
     (case s of
        [] \<Rightarrow> (1, [])
      | c # r \<Rightarrow> if c = CHR ''-'' then (-1, r) else if c = CHR ''+'' then (1, r) else (1, s))"

definition numeric_parse :: "string \<Rightarrow> (int \<times> nat) option" where
  "numeric_parse s =
     (let (sg, r) = split_sign s;
          whole = takeWhile is_digit r;
          rest = dropWhile is_digit r
      in case rest of
           [] \<Rightarrow> if whole = [] then None else Some (sg * int (digits_val whole), 0)
         | c # fr \<Rightarrow>
             if c = CHR ''.'' \<and> list_all is_digit fr \<and> whole @ fr \<noteq> []
             then Some (sg * int (digits_val (whole @ fr)), length fr)
             else None)"

lemma digits_val_pad4: "m < 10000 \<Longrightarrow> digits_val (pad4 m) = m"
proof -
  assume "m < 10000"
  have d100: "m div 100 = m div 10 div 10" and d1000: "m div 1000 = m div 100 div 10"
    by (simp_all flip: div_mult2_eq)
  have step: "m = 10 * (m div 10) + m mod 10"
      "m div 10 = 10 * (m div 100) + m div 10 mod 10"
      "m div 100 = 10 * (m div 1000) + m div 100 mod 10"
    unfolding d1000 unfolding d100 by simp_all
  have "m div 1000 mod 10 = m div 1000" using \<open>m < 10000\<close> by simp
  moreover have "digits_val (pad4 m)
      = 1000 * (m div 1000 mod 10) + 100 * (m div 100 mod 10) + 10 * (m div 10 mod 10) + m mod 10"
    by (simp add: digits_val_def pad4_def)
  ultimately show ?thesis using step by linarith
qed

lemma pad4_digits [simp]: "list_all is_digit (pad4 m)" "length (pad4 m) = 4" "pad4 m \<noteq> []"
  by (simp_all add: pad4_def)

lemma split_sign_nat_text [simp]: "split_sign (nat_text n @ r) = (1, nat_text n @ r)"
proof -
  obtain c cs where c: "nat_text n = c # cs" by (cases "nat_text n") auto
  with nat_text_digits [of n] have "is_digit c" by auto
  with c is_digit_neq [of c] show ?thesis by (simp add: split_sign_def)
qed

lemma split_sign_minus [simp]: "split_sign (CHR ''-'' # r) = (-1, r)"
  by (simp add: split_sign_def)

lemma takeWhile_nat_text [simp]:
  "takeWhile is_digit (nat_text n @ CHR ''.'' # r) = nat_text n"
  "dropWhile is_digit (nat_text n @ CHR ''.'' # r) = CHR ''.'' # r"
  using nat_text_digits [of n] by (simp_all add: takeWhile_append dropWhile_append)

text \<open>
  Reading back what a column shows gives the column: no digit is lost between the database
  and the program, for any value.
\<close>

lemma numeric_parse_out: "numeric_parse (numeric_out n) = Some (n, 4)"
proof -
  let ?m = "nat \<bar>n\<bar>"
  have val: "int (digits_val (nat_text (?m div 10000) @ pad4 (?m mod 10000))) = \<bar>n\<bar>"
    by (simp add: digits_val_append digits_val_pad4)
  show ?thesis
  proof (cases "n < 0")
    case True
    then have "numeric_parse (numeric_out n)
        = Some (- int (digits_val (nat_text (?m div 10000) @ pad4 (?m mod 10000))), 4)"
      by (simp add: numeric_parse_def numeric_out_def)
    with val True show ?thesis by simp
  next
    case False
    then have "numeric_parse (numeric_out n)
        = Some (int (digits_val (nat_text (?m div 10000) @ pad4 (?m mod 10000))), 4)"
      by (simp add: numeric_parse_def numeric_out_def)
    with val False show ?thesis by simp
  qed
qed

lemma numeric_out_inj: "numeric_out m = numeric_out n \<longleftrightarrow> m = n"
  by (metis numeric_parse_out option.inject prod.inject)

subsection \<open>Rounding to four places\<close>

text \<open>
  \<open>round_div p q\<close> is the integer next to \<open>p / q\<close>, ties away from zero, in integers only.
\<close>

definition round_div :: "int \<Rightarrow> int \<Rightarrow> int" where
  "round_div p q = (if 0 \<le> p then (2 * p + q) div (2 * q) else - ((2 * (- p) + q) div (2 * q)))"

definition numeric_limit :: int where
  "numeric_limit = 10 ^ 19"

text \<open>
  Assigning a value \<open>p / q\<close>, counted in ten-thousandths, to a \<open>NUMERIC(19,4)\<close> column, and
  the column value a text parameter gives; SQLSTATE 22003 is the overflow, 22P02 a text that
  is no number.
\<close>

definition numeric_coerce :: "int \<Rightarrow> int \<Rightarrow> go_error + int" where
  "numeric_coerce p q =
     (let n = round_div p q
      in if \<bar>n\<bar> < numeric_limit then Inr n else Inl (PqError ''22003'' ''pq: numeric field overflow''))"

definition invalid_numeric :: "string \<Rightarrow> go_error" where
  "invalid_numeric s = PqError ''22P02'' (''pq: invalid input syntax for type numeric: '' @ s)"

definition numeric_column :: "string \<Rightarrow> go_error + int" where
  "numeric_column s =
     (case numeric_parse s of
        None \<Rightarrow> Inl (invalid_numeric s)
      | Some (c, k) \<Rightarrow> numeric_coerce (c * 10000) (10 ^ k))"

text \<open>\<open>balance + $1\<close> assigned to the column \<open>balance\<close>: the sum is exact, then rounded.\<close>

definition numeric_add_column :: "int \<Rightarrow> string \<Rightarrow> go_error + int" where
  "numeric_add_column b s =
     (case numeric_parse s of
        None \<Rightarrow> Inl (invalid_numeric s)
      | Some (c, k) \<Rightarrow> numeric_coerce (b * 10 ^ k + c * 10000) (10 ^ k))"

lemma round_div_mult [simp]:
  assumes "0 < q"
  shows "round_div (n * q) q = n"
proof -
  have *: "(2 * (m * q) + q) div (2 * q) = m" for m
  proof -
    have "(2 * (m * q) + q) div (2 * q) = (q + m * (2 * q)) div (2 * q)"
      by (simp add: algebra_simps)
    also have "\<dots> = m + q div (2 * q)" using assms by simp
    also have "q div (2 * q) = 0" using assms by simp
    finally show ?thesis by simp
  qed
  show ?thesis using * [of n] * [of "- n"] by (simp add: round_div_def)
qed

lemma numeric_column_out [simp]:
  "numeric_column (numeric_out n)
   = (if \<bar>n\<bar> < numeric_limit then Inr n else Inl (PqError ''22003'' ''pq: numeric field overflow''))"
  using round_div_mult [of 10000 n]
  by (simp add: numeric_column_def numeric_parse_out numeric_coerce_def Let_def)

lemma numeric_add_column_out [simp]:
  "numeric_add_column b (numeric_out n)
   = (if \<bar>b + n\<bar> < numeric_limit then Inr (b + n)
      else Inl (PqError ''22003'' ''pq: numeric field overflow''))"
  using round_div_mult [of 10000 "b + n"]
  by (simp add: numeric_add_column_def numeric_parse_out numeric_coerce_def Let_def distrib_right)

text \<open>
  The same rounding of an exact value, a rational, to ten-thousandths: what the decimal
  library documents for \<open>StringFixed(4)\<close>.
\<close>

definition round4 :: "rat \<Rightarrow> int" where
  "round4 r = (if 0 \<le> r then \<lfloor>r * 10000 + 1 / 2\<rfloor> else - \<lfloor>- r * 10000 + 1 / 2\<rfloor>)"

lemma round4_zero [simp]: "round4 0 = 0"
  by (simp add: round4_def floor_eq_iff)

lemma round4_minus: "round4 (- r) = - round4 r"
proof (cases "r = 0")
  case True
  then show ?thesis by simp
next
  case False
  then show ?thesis by (auto simp: round4_def)
qed

lemma round4_units [simp]: "round4 (of_int n / 10000) = n"
proof -
  have *: "\<lfloor>of_int m + 1 / 2 :: rat\<rfloor> = m" for m
    by (rule floor_unique) auto
  show ?thesis using * [of n] * [of "- n"] by (simp add: round4_def)
qed

lemma round4_nonneg: "0 \<le> r \<Longrightarrow> 0 \<le> round4 r"
  by (simp add: round4_def)

lemma round4_mono: "r \<le> s \<Longrightarrow> round4 r \<le> round4 s"
proof -
  assume le: "r \<le> s"
  consider "0 \<le> r" | "s < 0" | "r < 0" "0 \<le> s" by linarith
  then show ?thesis
  proof cases
    case 1
    with le show ?thesis by (simp add: round4_def floor_mono)
  next
    case 2
    with le have "\<lfloor>- s * 10000 + 1 / 2\<rfloor> \<le> \<lfloor>- r * 10000 + 1 / 2\<rfloor>"
      by (intro floor_mono) simp
    with 2 le show ?thesis by (simp add: round4_def)
  next
    case 3
    then have "0 \<le> round4 s" and "0 \<le> round4 (- r)" by (simp_all add: round4_nonneg)
    then show ?thesis by (simp add: round4_minus)
  qed
qed

text \<open>An amount that a balance covers is still covered after rounding.\<close>

lemma round4_le_units: "r \<le> of_int n / 10000 \<Longrightarrow> round4 r \<le> n"
  using round4_mono [of r "of_int n / 10000"] by simp

lemma round4_tiny: "0 \<le> r \<Longrightarrow> r < 1 / 20000 \<Longrightarrow> round4 r = 0"
  by (simp add: round4_def floor_eq_iff)

lemma round4_pos: "1 / 20000 \<le> r \<Longrightarrow> 0 < round4 r"
  by (simp add: round4_def less_floor_iff)

lemma round4_div:
  assumes "0 < q"
  shows "round4 (of_int p / of_int q) = round_div (p * 10000) q"
proof -
  have half: "\<lfloor>(of_int m / of_int q) * 10000 + 1 / 2 :: rat\<rfloor> = (2 * (m * 10000) + q) div (2 * q)" for m
  proof -
    have "(of_int m / of_int q) * 10000 + 1 / 2
        = (of_int (2 * (m * 10000) + q) / of_int (2 * q) :: rat)"
      using assms by (simp add: field_simps)
    then show ?thesis by (simp only: floor_divide_of_int_eq)
  qed
  have sign: "(0 \<le> of_int p / (of_int q :: rat)) \<longleftrightarrow> 0 \<le> p * 10000"
    using assms by (simp add: zero_le_divide_iff zero_le_mult_iff)
  show ?thesis
    using half [of p] half [of "- p"] sign by (simp add: round4_def round_div_def)
qed

end
