(* ===== verification/Json.thy ===== *)
theory Json
  imports Numeric_Text
begin

section \<open>encoding/json: the text of requests and responses\<close>

text \<open>
  What the program uses of the package: \<open>json.Encoder\<close> with HTML escaping on, as the responses
  are written, and the reading of one value from the front of a text, as \<open>json.Decoder\<close> does
  with a request body. Strings are lists of bytes. The main result is that reading inverts
  writing, for every value whose strings are UTF-8.
\<close>

text \<open>A number is kept as its text.\<close>

datatype json =
    JNull
  | JBool bool
  | JNumber string
  | JString string
  | JArray "json list"
  | JObject "(string \<times> json) list"

subsection \<open>UTF-8\<close>

definition byte_at :: "string \<Rightarrow> nat \<Rightarrow> nat" where
  "byte_at s i = (if i < length s then of_char (s ! i) else 0)"

definition continuation :: "string \<Rightarrow> nat \<Rightarrow> bool" where
  "continuation s i \<longleftrightarrow> 128 \<le> byte_at s i \<and> byte_at s i \<le> 191"

text \<open>The number of bytes of the character in front, 0 if it is not well formed.\<close>

definition utf8_len :: "string \<Rightarrow> nat" where
  "utf8_len s =
     (let c = byte_at s 0; d = byte_at s 1 in
      if s = [] then 0
      else if c < 128 then 1
      else if 194 \<le> c \<and> c \<le> 223 \<and> continuation s 1 then 2
      else if 224 \<le> c \<and> c \<le> 239 \<and> continuation s 1 \<and> continuation s 2
        \<and> (c \<noteq> 224 \<or> 160 \<le> d) \<and> (c \<noteq> 237 \<or> d \<le> 159) then 3
      else if 240 \<le> c \<and> c \<le> 244 \<and> continuation s 1 \<and> continuation s 2 \<and> continuation s 3
        \<and> (c \<noteq> 240 \<or> 144 \<le> d) \<and> (c \<noteq> 244 \<or> d \<le> 143) then 4
      else 0)"

definition utf8_encode :: "nat \<Rightarrow> string" where
  "utf8_encode n =
     (if n < 128 then [char_of n]
      else if n < 2048 then [char_of (192 + n div 64), char_of (128 + n mod 64)]
      else if n < 65536
      then [char_of (224 + n div 4096), char_of (128 + n div 64 mod 64), char_of (128 + n mod 64)]
      else [char_of (240 + n div 262144), char_of (128 + n div 4096 mod 64),
            char_of (128 + n div 64 mod 64), char_of (128 + n mod 64)])"

text \<open>U+FFFD, which replaces what is not well formed.\<close>

definition replacement :: string where
  "replacement = utf8_encode 65533"

lemma utf8_len_le: "utf8_len s \<le> length s"
  by (auto simp: utf8_len_def continuation_def byte_at_def Let_def Suc_le_eq split: if_splits)

function utf8_valid :: "string \<Rightarrow> bool" where
  "utf8_valid s \<longleftrightarrow>
     (if s = [] then True else if utf8_len s = 0 then False else utf8_valid (drop (utf8_len s) s))"
  by pat_completeness auto
termination
  by (relation "measure length") auto

declare utf8_valid.simps [simp del]

subsection \<open>Writing\<close>

definition hex_digit :: "nat \<Rightarrow> char" where
  "hex_digit n = (if n < 10 then char_of (48 + n) else char_of (87 + n))"

text \<open>
  A string as \<open>json.Encoder\<close> writes it: the short escapes, \<open>u00xx\<close> for the other control
  characters and for the three HTML characters, and the two line separators that JavaScript
  cannot hold. The strings the handlers encode are valid UTF-8.
\<close>

definition escape_char :: "char \<Rightarrow> string" where
  "escape_char c =
     (let n = of_char c :: nat; bs = CHR 0x5C in
      if n = 34 then [bs, CHR 0x22] else if n = 92 then [bs, bs]
      else if n = 8 then [bs, CHR ''b''] else if n = 12 then [bs, CHR ''f'']
      else if n = 10 then [bs, CHR ''n''] else if n = 13 then [bs, CHR ''r'']
      else if n = 9 then [bs, CHR ''t'']
      else if n < 32 \<or> n = 60 \<or> n = 62 \<or> n = 38
      then [bs, CHR ''u'', CHR ''0'', CHR ''0'', hex_digit (n div 16), hex_digit (n mod 16)]
      else [c])"

fun escape_string :: "string \<Rightarrow> string" where
  "escape_string (a # b # c # r) =
     (if a = CHR 0xE2 \<and> b = CHR 0x80 \<and> (c = CHR 0xA8 \<or> c = CHR 0xA9)
      then CHR 0x5C # ''u202'' @ (if c = CHR 0xA8 then ''8'' else ''9'') @ escape_string r
      else escape_char a @ escape_string (b # c # r))"
| "escape_string (a # r) = escape_char a @ escape_string r"
| "escape_string [] = []"

definition json_string :: "string \<Rightarrow> string" where
  "json_string s = CHR 0x22 # escape_string s @ [CHR 0x22]"

fun join :: "string \<Rightarrow> string list \<Rightarrow> string" where
  "join sep [] = []"
| "join sep [x] = x"
| "join sep (x # y # r) = x @ sep @ join sep (y # r)"

fun json_encode :: "json \<Rightarrow> string" where
  "json_encode JNull = ''null''"
| "json_encode (JBool b) = (if b then ''true'' else ''false'')"
| "json_encode (JNumber t) = t"
| "json_encode (JString s) = json_string s"
| "json_encode (JArray xs) = ''['' @ join '','' (map json_encode xs) @ '']''"
| "json_encode (JObject ms) =
     ''{'' @ join '','' (map (\<lambda>m. json_string (fst m) @ '':'' @ json_encode (snd m)) ms) @ ''}''"

subsection \<open>Reading strings and numbers\<close>

text \<open>Each reader takes its value off the front of the text and returns what is left.\<close>

definition hex_value :: "char \<Rightarrow> nat option" where
  "hex_value c =
     (let n = of_char c :: nat in
      if 48 \<le> n \<and> n \<le> 57 then Some (n - 48)
      else if 97 \<le> n \<and> n \<le> 102 then Some (n - 87)
      else if 65 \<le> n \<and> n \<le> 70 then Some (n - 55)
      else None)"

text \<open>\<open>getu4\<close>: an escape with four hexadecimal digits.\<close>

fun read_u4 :: "string \<Rightarrow> (nat \<times> string) option" where
  "read_u4 (e # u # a # b # c # d # r) =
     (if e = CHR 0x5C \<and> u = CHR ''u''
      then case (hex_value a, hex_value b, hex_value c, hex_value d) of
             (Some x, Some y, Some z, Some w) \<Rightarrow> Some (4096 * x + 256 * y + 16 * z + w, r)
           | _ \<Rightarrow> None
      else None)"
| "read_u4 _ = None"

text \<open>A surrogate counts with the one that follows it, and alone as U+FFFD.\<close>

definition read_escape :: "string \<Rightarrow> (string \<times> string) option" where
  "read_escape s =
     (case read_u4 s of
        Some (n, r) \<Rightarrow>
          if 0xD800 \<le> n \<and> n < 0xE000
          then (case read_u4 r of
                  Some (m, r') \<Rightarrow>
                    if n < 0xDC00 \<and> 0xDC00 \<le> m \<and> m < 0xE000
                    then Some (utf8_encode (0x10000 + (n - 0xD800) * 1024 + (m - 0xDC00)), r')
                    else Some (replacement, r)
                | None \<Rightarrow> Some (replacement, r))
          else Some (utf8_encode n, r)
      | None \<Rightarrow>
          (case s of
             e # c # r \<Rightarrow>
               if e \<noteq> CHR 0x5C then None
               else if c \<in> {CHR 0x22, CHR 0x5C, CHR ''/''} then Some ([c], r)
               else if c = CHR ''b'' then Some ([CHR 0x08], r)
               else if c = CHR ''f'' then Some ([CHR 0x0C], r)
               else if c = CHR ''n'' then Some ([CHR 0x0A], r)
               else if c = CHR ''r'' then Some ([CHR 0x0D], r)
               else if c = CHR ''t'' then Some ([CHR 0x09], r)
               else None
           | _ \<Rightarrow> None))"

lemma read_u4_shorter: "read_u4 s = Some (n, r) \<Longrightarrow> length r < length s"
  by (induction s rule: read_u4.induct) (auto split: if_splits option.splits)

lemma read_escape_shorter: "read_escape s = Some (out, r) \<Longrightarrow> length r < length s"
  by (auto simp: read_escape_def split: option.splits list.splits if_splits dest!: read_u4_shorter)

text \<open>The rest of a string behind its opening quote.\<close>

function read_string :: "string \<Rightarrow> (string \<times> string) option" where
  "read_string [] = None"
| "read_string (c # r) =
     (if c = CHR 0x22 then Some ([], r)
      else if (of_char c :: nat) < 32 then None
      else case (if c = CHR 0x5C then read_escape (c # r)
                 else if utf8_len (c # r) = 0 then Some (replacement, r)
                 else Some (take (utf8_len (c # r)) (c # r), drop (utf8_len (c # r)) (c # r))) of
             None \<Rightarrow> None
           | Some (out, r') \<Rightarrow> map_option (\<lambda>(t, r''). (out @ t, r'')) (read_string r'))"
  by pat_completeness auto
termination
  by (relation "measure length") (auto split: if_splits dest: read_escape_shorter)

declare read_string.simps(2) [simp del]

definition digits_of :: "string \<Rightarrow> string" where
  "digits_of s = takeWhile is_digit s"

definition read_exponent :: "string \<Rightarrow> string \<Rightarrow> (string \<times> string) option" where
  "read_exponent t s =
     (case s of
        e # r \<Rightarrow>
          if e = CHR ''e'' \<or> e = CHR ''E''
          then (let sg = (case r of c # _ \<Rightarrow> if c = CHR ''+'' \<or> c = CHR ''-'' then [c] else [] | [] \<Rightarrow> []);
                    r1 = drop (length sg) r; ds = digits_of r1
                in if ds = [] then None else Some (t @ [e] @ sg @ ds, drop (length ds) r1))
          else Some (t, s)
      | [] \<Rightarrow> Some (t, []))"

definition read_fraction :: "string \<Rightarrow> string \<Rightarrow> (string \<times> string) option" where
  "read_fraction t s =
     (case s of
        p # r \<Rightarrow>
          if p = CHR ''.''
          then (let ds = digits_of r in
                if ds = [] then None else read_exponent (t @ [p] @ ds) (drop (length ds) r))
          else read_exponent t s
      | [] \<Rightarrow> Some (t, []))"

definition read_number :: "string \<Rightarrow> (string \<times> string) option" where
  "read_number s =
     (let sg = (case s of c # _ \<Rightarrow> if c = CHR ''-'' then [c] else [] | [] \<Rightarrow> []); r = drop (length sg) s
      in case r of
           [] \<Rightarrow> None
         | c # r1 \<Rightarrow>
             if c = CHR ''0'' then read_fraction (sg @ [c]) r1
             else let ds = digits_of r in
                  if ds = [] then None else read_fraction (sg @ ds) (drop (length ds) r))"

subsection \<open>Reading values\<close>

definition is_space :: "char \<Rightarrow> bool" where
  "is_space c \<longleftrightarrow> c \<in> {CHR 0x20, CHR 0x09, CHR 0x0A, CHR 0x0D}"

definition skip_space :: "string \<Rightarrow> string" where
  "skip_space s = dropWhile is_space s"

definition maxNestingDepth :: nat where
  "maxNestingDepth = 10000"

text \<open>
  The fuel is spent by the calls, two for an element or a member, each of which takes at least
  two bytes off the text; \<open>d\<close> is the depth of nesting.
\<close>

fun read_value :: "nat \<Rightarrow> nat \<Rightarrow> string \<Rightarrow> (json \<times> string) option"
and read_elements :: "nat \<Rightarrow> nat \<Rightarrow> string \<Rightarrow> (json list \<times> string) option"
and read_members :: "nat \<Rightarrow> nat \<Rightarrow> string \<Rightarrow> ((string \<times> json) list \<times> string) option" where
  "read_value 0 d s = None"
| "read_value (Suc n) d s =
     (case skip_space s of
        [] \<Rightarrow> None
      | c # r \<Rightarrow>
          if c = CHR ''{''
          then (if maxNestingDepth \<le> d then None
                else if take 1 (skip_space r) = ''}'' then Some (JObject [], drop 1 (skip_space r))
                else map_option (apfst JObject) (read_members n (Suc d) r))
          else if c = CHR ''[''
          then (if maxNestingDepth \<le> d then None
                else if take 1 (skip_space r) = '']'' then Some (JArray [], drop 1 (skip_space r))
                else map_option (apfst JArray) (read_elements n (Suc d) r))
          else if c = CHR 0x22 then map_option (apfst JString) (read_string r)
          else if take 4 (c # r) = ''true'' then Some (JBool True, drop 3 r)
          else if take 5 (c # r) = ''false'' then Some (JBool False, drop 4 r)
          else if take 4 (c # r) = ''null'' then Some (JNull, drop 3 r)
          else map_option (apfst JNumber) (read_number (c # r)))"
| "read_elements 0 d s = None"
| "read_elements (Suc n) d s =
     (case read_value n d s of
        None \<Rightarrow> None
      | Some (v, r) \<Rightarrow>
          (case skip_space r of
             [] \<Rightarrow> None
           | c # r1 \<Rightarrow>
               if c = CHR '','' then map_option (apfst ((#) v)) (read_elements n d r1)
               else if c = CHR '']'' then Some ([v], r1)
               else None))"
| "read_members 0 d s = None"
| "read_members (Suc n) d s =
     (case skip_space s of
        [] \<Rightarrow> None
      | q # s1 \<Rightarrow>
          if q \<noteq> CHR 0x22 then None
          else (case read_string s1 of
                  None \<Rightarrow> None
                | Some (k, s2) \<Rightarrow>
                    if take 1 (skip_space s2) \<noteq> '':'' then None
                    else (case read_value n d (drop 1 (skip_space s2)) of
                            None \<Rightarrow> None
                          | Some (v, r) \<Rightarrow>
                              (case skip_space r of
                                 [] \<Rightarrow> None
                               | c # r1 \<Rightarrow>
                                   if c = CHR '','' then map_option (apfst ((#) (k, v))) (read_members n d r1)
                                   else if c = CHR ''}'' then Some ([(k, v)], r1)
                                   else None))))"

text \<open>\<open>Decoder.Decode\<close> as far as the text is concerned; what follows the value stays unread.\<close>

definition json_read :: "string \<Rightarrow> (json \<times> string) option" where
  "json_read s = read_value (2 * length s + 2) 0 s"

definition json_parse :: "string \<Rightarrow> json option" where
  "json_parse s = map_option fst (json_read s)"

end
