(* ===== verification/Json_Roundtrip.thy ===== *)
theory Json_Roundtrip
  imports Json
begin

section \<open>Reading what was written\<close>

text \<open>
  \<open>json_read\<close> gives back every value that \<open>json_encode\<close> wrote, whatever follows it, provided its
  strings are UTF-8, its numbers are JSON numbers and it is not nested deeper than the reader
  allows. The fuel of the reader is enough for every text.
\<close>

subsection \<open>Strings\<close>

lemma hex_value_digit: "n < 16 \<Longrightarrow> hex_value (hex_digit n) = Some n"
  by (auto simp: hex_value_def hex_digit_def Let_def)

lemma utf8_encode_ascii: "n < 128 \<Longrightarrow> utf8_encode n = [char_of n]"
  by (simp add: utf8_encode_def)

abbreviation put :: "string \<Rightarrow> (string \<times> string) option \<Rightarrow> (string \<times> string) option" where
  "put out \<equiv> map_option (\<lambda>(t, r). (out @ t, r))"

lemma read_string_escape:
  "read_escape (CHR 0x5C # r) = Some (out, r') \<Longrightarrow> read_string (CHR 0x5C # r) = put out (read_string r')"
  by (subst read_string.simps(2)) simp

lemma read_string_plain:
  assumes "utf8_len (c # r) = k" and "0 < k" and "c \<noteq> CHR 0x22" and "c \<noteq> CHR 0x5C" and "32 \<le> (of_char c :: nat)"
  shows "read_string (c # r) = put (take k (c # r)) (read_string (drop k (c # r)))"
  using assms by (subst read_string.simps(2)) simp

lemma read_escape_u00:
  assumes "n < 128"
  shows "read_escape (CHR 0x5C # CHR ''u'' # CHR ''0'' # CHR ''0'' # hex_digit (n div 16) # hex_digit (n mod 16) # r)
    = Some ([char_of n], r)"
proof -
  have "hex_value CHR ''0'' = Some 0" by (simp add: hex_value_def)
  moreover have "hex_value (hex_digit (n div 16)) = Some (n div 16)" "hex_value (hex_digit (n mod 16)) = Some (n mod 16)"
    using assms by (auto intro: hex_value_digit)
  ultimately show ?thesis
    using assms by (simp add: read_escape_def utf8_encode_ascii)
qed

lemma read_u4_None: "u \<noteq> CHR ''u'' \<Longrightarrow> read_u4 (e # u # t) = None"
  by (induction "e # u # t" rule: read_u4.induct) auto

lemma read_escape_short:
  "read_escape (CHR 0x5C # CHR 0x22 # t) = Some ([CHR 0x22], t)"
  "read_escape (CHR 0x5C # CHR 0x5C # t) = Some ([CHR 0x5C], t)"
  "read_escape (CHR 0x5C # CHR ''b'' # t) = Some ([CHR 0x08], t)"
  "read_escape (CHR 0x5C # CHR ''f'' # t) = Some ([CHR 0x0C], t)"
  "read_escape (CHR 0x5C # CHR ''n'' # t) = Some ([CHR 0x0A], t)"
  "read_escape (CHR 0x5C # CHR ''r'' # t) = Some ([CHR 0x0D], t)"
  "read_escape (CHR 0x5C # CHR ''t'' # t) = Some ([CHR 0x09], t)"
  by (simp_all add: read_escape_def read_u4_None)

text \<open>The characters with a short escape.\<close>

lemma escape_char_short:
  "escape_char CHR 0x22 = [CHR 0x5C, CHR 0x22]" "escape_char CHR 0x5C = [CHR 0x5C, CHR 0x5C]"
  "escape_char CHR 0x08 = [CHR 0x5C, CHR ''b'']" "escape_char CHR 0x0C = [CHR 0x5C, CHR ''f'']"
  "escape_char CHR 0x0A = [CHR 0x5C, CHR ''n'']" "escape_char CHR 0x0D = [CHR 0x5C, CHR ''r'']"
  "escape_char CHR 0x09 = [CHR 0x5C, CHR ''t'']"
  by (simp_all add: escape_char_def Let_def)

lemma short_chars:
  "char_of (34 :: nat) = CHR 0x22" "char_of (92 :: nat) = CHR 0x5C" "char_of (8 :: nat) = CHR 0x08"
  "char_of (12 :: nat) = CHR 0x0C" "char_of (10 :: nat) = CHR 0x0A" "char_of (13 :: nat) = CHR 0x0D"
  "char_of (9 :: nat) = CHR 0x09"
  by (simp_all add: char_of_def bit_iff_odd)

lemma read_escape_char:
  assumes "(of_char c :: nat) < 128"
  shows "read_string (escape_char c @ t) = put [c] (read_string t)"
proof -
  define n where "n = (of_char c :: nat)"
  then have c: "c = char_of n" by simp
  consider (short) "n \<in> {34, 92, 8, 12, 10, 13, 9}"
    | (long) "n \<notin> {34, 92, 8, 12, 10, 13, 9}" "n < 32 \<or> n = 60 \<or> n = 62 \<or> n = 38"
    | (plain) "n \<noteq> 34" "n \<noteq> 92" "32 \<le> n" "\<not> (n < 32 \<or> n = 60 \<or> n = 62 \<or> n = 38)" by force
  then show ?thesis
  proof cases
    case short
    then have "c \<in> {CHR 0x22, CHR 0x5C, CHR 0x08, CHR 0x0C, CHR 0x0A, CHR 0x0D, CHR 0x09}"
      unfolding c by (elim insertE emptyE) (simp_all add: short_chars)
    then show ?thesis by (auto simp: escape_char_short read_string_escape [OF read_escape_short(1)]
        read_string_escape [OF read_escape_short(2)] read_string_escape [OF read_escape_short(3)]
        read_string_escape [OF read_escape_short(4)] read_string_escape [OF read_escape_short(5)]
        read_string_escape [OF read_escape_short(6)] read_string_escape [OF read_escape_short(7)])
  next
    case long
    then have "escape_char c = [CHR 0x5C, CHR ''u'', CHR ''0'', CHR ''0'', hex_digit (n div 16), hex_digit (n mod 16)]"
      using n_def by (simp add: escape_char_def Let_def)
    with read_escape_u00 [of n t] assms n_def show ?thesis by (simp add: read_string_escape)
  next
    case plain
    have "escape_char c = [c]" "c \<noteq> CHR 0x22" "c \<noteq> CHR 0x5C" using plain n_def by (auto simp: escape_char_def Let_def)
    moreover have "utf8_len (c # t) = 1" using assms by (simp add: utf8_len_def byte_at_def)
    ultimately show ?thesis using read_string_plain [of c t 1] plain(3) n_def by simp
  qed
qed

text \<open>The characters of more than one byte.\<close>

lemma byte_at_take: "i < k \<Longrightarrow> k \<le> length s \<Longrightarrow> byte_at (take k s @ t) i = byte_at s i"
  by (simp add: byte_at_def nth_append)

lemma utf8_len_prefix:
  assumes "utf8_len s = k" and "0 < k"
  shows "utf8_len (take k s @ t) = k"
proof -
  note len = utf8_len_le [of s, unfolded assms(1)]
  note same = byte_at_take [OF _ len, of _ t]
  from assms have "s \<noteq> []" by (auto simp: utf8_len_def)
  then have ne: "take k s @ t \<noteq> []" using assms(2) by simp
  from assms have "k \<in> {1, 2, 3, 4}" by (auto simp: utf8_len_def Let_def split: if_splits)
  then show ?thesis
    using assms ne same [of 0] same [of 1] same [of 2] same [of 3]
    by (auto simp: utf8_len_def continuation_def Let_def split: if_splits)
qed

lemma escape_char_high: "128 \<le> (of_char c :: nat) \<Longrightarrow> escape_char c = [c]"
  by (simp add: escape_char_def Let_def)

lemma escape_step: "a \<noteq> CHR 0xE2 \<Longrightarrow> escape_string (a # s) = escape_char a @ escape_string s"
  by (induction "a # s" rule: escape_string.induct) auto

lemma escape_high: "128 \<le> (of_char a :: nat) \<Longrightarrow> a \<noteq> CHR 0xE2 \<Longrightarrow> escape_string (a # s) = a # escape_string s"
  by (simp add: escape_step escape_char_high)

lemma continuation_byte:
  assumes "continuation s i" and "i < length s"
  shows "128 \<le> (of_char (s ! i) :: nat)" and "s ! i \<noteq> CHR 0xE2"
  using assms by (auto simp: continuation_def byte_at_def)

text \<open>A character of several bytes is copied, unless it is one of the two separators.\<close>

lemma escape_multibyte:
  assumes "utf8_len (a # s) = Suc k" and "0 < k"
    and "\<not> (a = CHR 0xE2 \<and> take 2 s \<in> {[CHR 0x80, CHR 0xA8], [CHR 0x80, CHR 0xA9]})"
  shows "escape_string (a # s) = a # take k s @ escape_string (drop k s)"
proof -
  from utf8_len_le [of "a # s"] assms(1) have len: "k \<le> length s" by simp
  from assms(1,2) have high: "128 \<le> (of_char a :: nat)"
    by (auto simp: utf8_len_def byte_at_def Let_def split: if_splits)
  have cont: "continuation (a # s) i" if "0 < i" "i \<le> k" for i
    using assms(1) that by (auto simp: utf8_len_def Let_def le_Suc_eq numeral_2_eq_2 numeral_3_eq_3 split: if_splits)
  have rest: "escape_string (drop i s) = take (k - i) (drop i s) @ escape_string (drop k s)" if "i \<le> k" for i
    using that
  proof (induction "k - i" arbitrary: i)
    case 0
    then show ?case by simp
  next
    case (Suc j)
    then have i: "i < k" "i < length s" using len by simp_all
    from continuation_byte [OF cont [of "Suc i"]] i have "128 \<le> (of_char (s ! i) :: nat)" "s ! i \<noteq> CHR 0xE2" by simp_all
    then have "escape_string (drop i s) = s ! i # escape_string (drop (Suc i) s)"
      using i(2) by (simp add: Cons_nth_drop_Suc [symmetric] escape_high)
    also have "escape_string (drop (Suc i) s) = take (k - Suc i) (drop (Suc i) s) @ escape_string (drop k s)"
      using Suc i by simp
    finally show ?case
      using i by (simp add: Cons_nth_drop_Suc [symmetric] Suc_diff_Suc [symmetric])
  qed
  have "escape_string (a # s) = a # escape_string s"
  proof (cases "a = CHR 0xE2")
    case False
    with high show ?thesis by (rule escape_high)
  next
    case True
    with assms(3) show ?thesis
      by (induction "a # s" rule: escape_string.induct) (auto simp: escape_char_high high numeral_2_eq_2)
  qed
  with rest [of 0] show ?thesis by simp
qed

lemma read_separators:
  "read_string (CHR 0x5C # ''u2028'' @ t) = put [CHR 0xE2, CHR 0x80, CHR 0xA8] (read_string t)"
  "read_string (CHR 0x5C # ''u2029'' @ t) = put [CHR 0xE2, CHR 0x80, CHR 0xA9] (read_string t)"
proof -
  have "utf8_encode 8232 = [CHR 0xE2, CHR 0x80, CHR 0xA8]" "utf8_encode 8233 = [CHR 0xE2, CHR 0x80, CHR 0xA9]"
    by (simp_all add: utf8_encode_def char_of_def bit_iff_odd)
  then have "read_escape (CHR 0x5C # ''u2028'' @ t) = Some ([CHR 0xE2, CHR 0x80, CHR 0xA8], t)"
    "read_escape (CHR 0x5C # ''u2029'' @ t) = Some ([CHR 0xE2, CHR 0x80, CHR 0xA9], t)"
    by (simp_all add: read_escape_def hex_value_def)
  from this [THEN read_string_escape] show
    "read_string (CHR 0x5C # ''u2028'' @ t) = put [CHR 0xE2, CHR 0x80, CHR 0xA8] (read_string t)"
    "read_string (CHR 0x5C # ''u2029'' @ t) = put [CHR 0xE2, CHR 0x80, CHR 0xA9] (read_string t)" .
qed

theorem read_string_escaped:
  "utf8_valid s \<Longrightarrow> read_string (escape_string s @ CHR 0x22 # t) = Some (s, t)"
proof (induction s rule: utf8_valid.induct)
  case (1 s)
  show ?case
  proof (cases s)
    case Nil
    then show ?thesis by (simp add: read_string.simps(2))
  next
    case (Cons a s')
    then have pos: "utf8_len s \<noteq> 0" and "utf8_valid (drop (utf8_len s) s)"
      using "1.prems" [unfolded utf8_valid.simps [of s]] by (auto split: if_splits)
    with Cons "1.IH" have IH: "read_string (escape_string (drop (utf8_len s) s) @ CHR 0x22 # t) = Some (drop (utf8_len s) s, t)"
      by simp
    then have put: "put (take (utf8_len s) s) (read_string (escape_string (drop (utf8_len s) s) @ CHR 0x22 # t)) = Some (s, t)"
      by simp
    consider (ascii) "utf8_len s = 1"
      | (sep) c where "a = CHR 0xE2" "take 2 s' = [CHR 0x80, c]" "c \<in> {CHR 0xA8, CHR 0xA9}"
      | (multi) k where "utf8_len s = Suc k" "0 < k"
          "\<not> (a = CHR 0xE2 \<and> take 2 s' \<in> {[CHR 0x80, CHR 0xA8], [CHR 0x80, CHR 0xA9]})"
      using pos by (cases "utf8_len s") force+
    then show ?thesis
    proof cases
      case ascii
      then have "(of_char a :: nat) < 128" using Cons
        by (auto simp: utf8_len_def byte_at_def Let_def split: if_splits)
      then have "a \<noteq> CHR 0xE2" "read_string (escape_char a @ escape_string s' @ CHR 0x22 # t)
        = put [a] (read_string (escape_string s' @ CHR 0x22 # t))" by (auto simp: read_escape_char)
      with put ascii Cons show ?thesis by (simp add: escape_step)
    next
      case sep
      then obtain r where s': "s' = CHR 0x80 # c # r"
        by (metis append_Cons append_Nil append_take_drop_id)
      then have "utf8_len s = 3" using sep Cons pos
        by (auto simp: utf8_len_def byte_at_def continuation_def Let_def)
      with put sep s' Cons read_separators show ?thesis by (auto simp: eval_nat_numeral)
    next
      case multi
      have esc: "escape_string s = take (Suc k) s @ escape_string (drop (Suc k) s)"
        using escape_multibyte [of a s' k] multi Cons by simp
      have "utf8_len (take (Suc k) s @ escape_string (drop (Suc k) s) @ CHR 0x22 # t) = Suc k"
        by (rule utf8_len_prefix) (simp_all add: multi)
      moreover have "128 \<le> (of_char a :: nat)" using multi(1,2) Cons
        by (auto simp: utf8_len_def byte_at_def Let_def split: if_splits)
      then have "a \<noteq> CHR 0x22" "a \<noteq> CHR 0x5C" "32 \<le> (of_char a :: nat)" by auto
      moreover have "Suc k \<le> length s" using utf8_len_le [of s] multi(1) by simp
      ultimately have "read_string (escape_string s @ CHR 0x22 # t)
        = put (take (Suc k) s) (read_string (escape_string (drop (Suc k) s) @ CHR 0x22 # t))"
        using read_string_plain [of a "take k s' @ escape_string (drop k s') @ CHR 0x22 # t" "Suc k"] Cons esc by simp
      with put multi(1) show ?thesis by simp
    qed
  qed
qed

lemma utf8_ascii: "list_all (\<lambda>c. (of_char c :: nat) < 128) s \<Longrightarrow> utf8_valid s"
proof (induction s)
  case (Cons c s)
  then have "utf8_len (c # s) = 1" by (simp add: utf8_len_def byte_at_def)
  with Cons show ?case by (subst utf8_valid.simps) simp
qed (simp add: utf8_valid.simps)

subsection \<open>Numbers\<close>

definition json_number :: "string \<Rightarrow> bool" where
  "json_number t \<longleftrightarrow> read_number t = Some (t, [])"

text \<open>What may stand behind a value.\<close>

definition stops :: "string \<Rightarrow> bool" where
  "stops rest \<longleftrightarrow> rest = [] \<or> hd rest \<in> {CHR '','', CHR '']'', CHR ''}'', CHR 0x0A}"

lemma stops_digits: "stops rest \<Longrightarrow> digits_of (s @ rest) = digits_of s"
  by (cases rest) (auto simp: stops_def digits_of_def is_digit_def takeWhile_tail)

lemma digits_of_le [simp]: "length (digits_of s) \<le> length s"
  by (simp add: digits_of_def length_takeWhile_le)

lemma stops_digit_run:
  assumes "stops rest"
  shows "digits_of (s @ rest) = digits_of s"
    and "drop (length (digits_of s)) (s @ rest) = drop (length (digits_of s)) s @ rest"
  using stops_digits [OF assms] digits_of_le [of s] by simp_all

lemmas stops_digit_runs = stops_digit_run stops_digit_run [where s = "c # r" for c r, unfolded append_Cons]

lemma read_exponent_append:
  assumes "read_exponent t s = Some (t', r)" and "stops rest"
  shows "read_exponent t (s @ rest) = Some (t', r @ rest)"
proof (cases s)
  case Nil
  with assms show ?thesis by (auto simp: read_exponent_def stops_def split: list.splits)
next
  case (Cons e s1)
  show ?thesis
  proof (cases "e = CHR ''e'' \<or> e = CHR ''E''")
    case False
    with assms(1) Cons show ?thesis by (auto simp: read_exponent_def)
  next
    case True
    have "s1 \<noteq> []" using assms(1) Cons True by (auto simp: read_exponent_def digits_of_def)
    then obtain c s2 where "s1 = c # s2" by (cases s1) auto
    with assms Cons True show ?thesis
      by (auto simp: read_exponent_def Let_def stops_digit_runs [OF assms(2)] split: if_splits)
  qed
qed

lemma read_fraction_append:
  assumes "read_fraction t s = Some (t', r)" and "stops rest"
  shows "read_fraction t (s @ rest) = Some (t', r @ rest)"
proof (cases s)
  case Nil
  with assms show ?thesis by (auto simp: read_fraction_def read_exponent_def stops_def split: list.splits)
next
  case (Cons p s1)
  with assms digits_of_le [of s1] read_exponent_append [OF _ assms(2), of _ _ t' r]
    read_exponent_append [OF _ assms(2), of t "p # s1" t' r] show ?thesis
    by (auto simp: read_fraction_def Let_def stops_digits split: if_splits)
qed

lemma read_number_append:
  assumes "read_number s = Some (t, r)" and "stops rest"
  shows "read_number (s @ rest) = Some (t, r @ rest)"
proof -
  define sg where "sg = (case s of c # _ \<Rightarrow> if c = CHR ''-'' then [c] else [] | [] \<Rightarrow> [])"
  define s1 where "s1 = drop (length sg) s"
  have "s \<noteq> []" using assms(1) by (auto simp: read_number_def)
  then have sg: "sg = (case s @ rest of c # _ \<Rightarrow> if c = CHR ''-'' then [c] else [] | [] \<Rightarrow> [])"
    "drop (length sg) (s @ rest) = s1 @ rest" by (auto simp: sg_def s1_def split: list.splits)
  have run: "(case s1 of [] \<Rightarrow> None | c # r1 \<Rightarrow> if c = CHR ''0'' then read_fraction (sg @ [c]) r1
      else let ds = digits_of s1 in if ds = [] then None else read_fraction (sg @ ds) (drop (length ds) s1)) = Some (t, r)"
    using assms(1) unfolding read_number_def Let_def sg_def s1_def by simp
  then obtain c r1 where s1: "s1 = c # r1" by (cases s1) auto
  from run read_fraction_append [OF _ assms(2), of _ _ t r] show ?thesis
    unfolding read_number_def sg(1) [symmetric] sg(2) Let_def
    by (auto simp: s1 stops_digit_runs [OF assms(2)] split: if_splits)
qed

lemma number_head:
  assumes "json_number t"
  obtains c r where "t = c # r" and "is_digit c \<or> c = CHR ''-''"
proof -
  from assms have "read_number t \<noteq> None" by (simp add: json_number_def)
  then obtain c r where "t = c # r" "is_digit c \<or> c = CHR ''-''"
    by (auto simp: read_number_def digits_of_def is_digit_def Let_def split: list.splits if_splits)
  with that show ?thesis by blast
qed

subsection \<open>Values\<close>

text \<open>The values that can be written: the strings are UTF-8 and the numbers are numbers.\<close>

fun json_ok :: "json \<Rightarrow> bool" where
  "json_ok (JNumber t) \<longleftrightarrow> json_number t"
| "json_ok (JString s) \<longleftrightarrow> utf8_valid s"
| "json_ok (JArray vs) \<longleftrightarrow> (\<forall>v \<in> set vs. json_ok v)"
| "json_ok (JObject ms) \<longleftrightarrow> (\<forall>m \<in> set ms. utf8_valid (fst m) \<and> json_ok (snd m))"
| "json_ok _ \<longleftrightarrow> True"

fun json_depth :: "json \<Rightarrow> nat" where
  "json_depth (JArray vs) = Suc (Max (set (0 # map json_depth vs)))"
| "json_depth (JObject ms) = Suc (Max (set (0 # map (json_depth \<circ> snd) ms)))"
| "json_depth _ = 0"

lemma depth_member:
  "v \<in> set vs \<Longrightarrow> json_depth v < json_depth (JArray vs)"
  "m \<in> set ms \<Longrightarrow> json_depth (snd m) < json_depth (JObject ms)"
  by (auto simp: less_Suc_eq_le intro!: Max_ge)

lemma skip_space_plain [simp]: "\<not> is_space c \<Longrightarrow> skip_space (c # s) = c # s"
  by (simp add: skip_space_def)

lemma not_space [simp]:
  "\<not> is_space CHR ''{''" "\<not> is_space CHR ''}''" "\<not> is_space CHR ''[''" "\<not> is_space CHR '']''"
  "\<not> is_space CHR '',''" "\<not> is_space CHR '':''" "\<not> is_space CHR 0x22" "\<not> is_space CHR ''t''"
  "\<not> is_space CHR ''f''" "\<not> is_space CHR ''n''" "\<not> is_space CHR ''-''" "is_digit c \<Longrightarrow> \<not> is_space c"
  by (auto simp: is_space_def is_digit_def)

lemma number_start:
  assumes "is_digit c \<or> c = CHR ''-''"
  shows "c \<noteq> CHR ''{''" "c \<noteq> CHR ''}''" "c \<noteq> CHR ''[''" "c \<noteq> CHR '']''" "c \<noteq> CHR '',''" "c \<noteq> CHR 0x22"
    "c \<noteq> CHR ''t''" "c \<noteq> CHR ''f''" "c \<noteq> CHR ''n''" "\<not> is_space c"
  using assms by (auto simp: is_digit_def is_space_def)

text \<open>A written value begins with a byte that is neither a space nor the end of something.\<close>

lemma encode_head:
  assumes "json_ok v"
  obtains c r where "json_encode v = c # r" and "\<not> is_space c" and "c \<notin> {CHR '']'', CHR ''}'', CHR '',''}"
proof (cases v)
  case (JBool b)
  with that show ?thesis by (cases b) simp_all
next
  case (JNumber t)
  with assms have "json_number t" by simp
  then obtain c r where "t = c # r" "is_digit c \<or> c = CHR ''-''" by (rule number_head)
  with that JNumber number_start [of c] show ?thesis by simp
qed (use that in \<open>simp_all add: json_string_def\<close>)

lemma read_plain_values:
  assumes "stops rest"
  shows "read_value (Suc n) d (json_encode JNull @ rest) = Some (JNull, rest)"
    and "read_value (Suc n) d (json_encode (JBool b) @ rest) = Some (JBool b, rest)"
    and "utf8_valid s \<Longrightarrow> read_value (Suc n) d (json_encode (JString s) @ rest) = Some (JString s, rest)"
    and "json_number t \<Longrightarrow> read_value (Suc n) d (json_encode (JNumber t) @ rest) = Some (JNumber t, rest)"
proof -
  show "read_value (Suc n) d (json_encode JNull @ rest) = Some (JNull, rest)" by simp
  show "read_value (Suc n) d (json_encode (JBool b) @ rest) = Some (JBool b, rest)" by (cases b) simp_all
  show "read_value (Suc n) d (json_encode (JString s) @ rest) = Some (JString s, rest)" if "utf8_valid s"
    using read_string_escaped [OF that] by (simp add: json_string_def)
  assume t: "json_number t"
  then obtain c r where c: "t = c # r" "is_digit c \<or> c = CHR ''-''" by (rule number_head)
  from t have "read_number (t @ rest) = Some (t, rest)"
    using read_number_append [OF _ assms, of t t "[]"] by (simp add: json_number_def)
  with c(1) number_start [OF c(2)] show "read_value (Suc n) d (json_encode (JNumber t) @ rest) = Some (JNumber t, rest)"
    by simp
qed

lemma read_array:
  assumes vs: "\<And>v n d rest. v \<in> set vs \<Longrightarrow> 2 * length (json_encode v @ rest) + 1 \<le> n \<Longrightarrow> d + json_depth v \<le> maxNestingDepth
      \<Longrightarrow> stops rest \<Longrightarrow> read_value n d (json_encode v @ rest) = Some (v, rest)"
    and "vs \<noteq> []" and "2 * length (join '','' (map json_encode vs) @ '']'' @ rest) + 2 \<le> n"
    and "\<forall>v \<in> set vs. d + json_depth v \<le> maxNestingDepth"
  shows "read_elements n d (join '','' (map json_encode vs) @ '']'' @ rest) = Some (vs, rest)"
  using assms
proof (induction vs arbitrary: n)
  case (Cons v vs)
  then obtain n' where n: "n = Suc n'" by (cases n) auto
  have stop: "stops ('']'' @ rest)" "stops ('','' @ r)" for r by (simp_all add: stops_def)
  show ?case
  proof (cases vs)
    case Nil
    with Cons.prems n stop Cons.prems(1) [of v "'']'' @ rest" n' d] show ?thesis by simp
  next
    case (Cons w ws)
    let ?tail = "join '','' (map json_encode vs) @ '']'' @ rest"
    have "read_value n' d (json_encode v @ '','' @ ?tail) = Some (v, '','' @ ?tail)"
      using Cons.prems Cons n stop by (intro Cons.prems(1)) auto
    moreover have "read_elements n' d ?tail = Some (vs, rest)"
      using Cons.prems Cons n by (intro Cons.IH) auto
    ultimately show ?thesis using Cons n by simp
  qed
qed simp

lemma read_object:
  assumes ms: "\<And>m n d rest. m \<in> set ms \<Longrightarrow> 2 * length (json_encode (snd m) @ rest) + 1 \<le> n
      \<Longrightarrow> d + json_depth (snd m) \<le> maxNestingDepth
      \<Longrightarrow> stops rest \<Longrightarrow> read_value n d (json_encode (snd m) @ rest) = Some (snd m, rest)"
    and "ms \<noteq> []" and "\<forall>m \<in> set ms. utf8_valid (fst m)"
    and "2 * length (join '','' (map (\<lambda>m. json_string (fst m) @ '':'' @ json_encode (snd m)) ms) @ ''}'' @ rest) + 2 \<le> n"
    and "\<forall>m \<in> set ms. d + json_depth (snd m) \<le> maxNestingDepth"
  shows "read_members n d (join '','' (map (\<lambda>m. json_string (fst m) @ '':'' @ json_encode (snd m)) ms) @ ''}'' @ rest)
    = Some (ms, rest)"
  using assms
proof (induction ms arbitrary: n)
  case (Cons m ms)
  then obtain n' where n: "n = Suc n'" by (cases n) auto
  have stop: "stops (''}'' @ rest)" "stops ('','' @ r)" for r by (simp_all add: stops_def)
  have key: "read_string (escape_string (fst m) @ CHR 0x22 # t) = Some (fst m, t)" for t
    using Cons.prems(3) by (simp add: read_string_escaped)
  show ?case
  proof (cases ms)
    case Nil
    with Cons.prems(2-) n stop key Cons.prems(1) [of m "''}'' @ rest" n' d] show ?thesis by (simp add: json_string_def)
  next
    case (Cons w ws)
    let ?tail = "join '','' (map (\<lambda>m. json_string (fst m) @ '':'' @ json_encode (snd m)) ms) @ ''}'' @ rest"
    have "read_value n' d (json_encode (snd m) @ '','' @ ?tail) = Some (snd m, '','' @ ?tail)"
      using Cons.prems Cons n stop by (intro Cons.prems(1)) auto
    moreover have "read_members n' d ?tail = Some (ms, rest)"
      using Cons.prems Cons n by (intro Cons.IH) auto
    ultimately show ?thesis using Cons n key by (simp add: json_string_def)
  qed
qed simp

theorem read_value_encoded:
  "json_ok v \<Longrightarrow> 2 * length (json_encode v @ rest) + 1 \<le> n \<Longrightarrow> d + json_depth v \<le> maxNestingDepth \<Longrightarrow>
    stops rest \<Longrightarrow> read_value n d (json_encode v @ rest) = Some (v, rest)"
proof (induction v arbitrary: n d rest)
  case (JArray vs)
  then obtain n' where n: "n = Suc n'" by (cases n) auto
  show ?case
  proof (cases vs)
    case Nil
    with n JArray.prems show ?thesis by simp
  next
    case (Cons w ws)
    have "read_elements n' (Suc d) (join '','' (map json_encode vs) @ '']'' @ rest) = Some (vs, rest)"
      using JArray.prems n Cons depth_member(1) [where vs = vs] by (intro read_array JArray.IH) (auto, fastforce+)
    moreover have "json_ok w" using JArray.prems(1) Cons by simp
    then obtain c r where "json_encode w = c # r" "\<not> is_space c" "c \<noteq> CHR '']''" by (rule encode_head) simp
    then have "\<exists>r. join '','' (map json_encode vs) = c # r" using Cons by (cases ws) simp_all
    then obtain r' where "join '','' (map json_encode vs) = c # r'" by blast
    note this \<open>\<not> is_space c\<close> \<open>c \<noteq> CHR '']''\<close>
    ultimately show ?thesis using n JArray.prems(3) by simp
  qed
next
  case (JObject ms)
  then obtain n' where n: "n = Suc n'" by (cases n) auto
  let ?text = "join '','' (map (\<lambda>m. json_string (fst m) @ '':'' @ json_encode (snd m)) ms)"
  show ?case
  proof (cases ms)
    case Nil
    with n JObject.prems show ?thesis by simp
  next
    case (Cons w ws)
    have ok: "\<forall>m \<in> set ms. utf8_valid (fst m) \<and> json_ok (snd m)" using JObject.prems(1) by simp
    have "read_value n d (json_encode (snd m) @ rest) = Some (snd m, rest)"
      if "m \<in> set ms" "2 * length (json_encode (snd m) @ rest) + 1 \<le> n"
        "d + json_depth (snd m) \<le> maxNestingDepth" "stops rest" for m n d rest
      using JObject.IH [of m "snd m"] that ok by (cases m) force
    moreover have "\<forall>m \<in> set ms. Suc d + json_depth (snd m) \<le> maxNestingDepth"
      using depth_member(2) [where ms = ms] JObject.prems(3) by fastforce
    moreover have "2 * length (?text @ ''}'' @ rest) + 2 \<le> n'" using JObject.prems(2) n by simp
    ultimately have "read_members n' (Suc d) (?text @ ''}'' @ rest) = Some (ms, rest)"
      using Cons ok by (intro read_object) auto
    moreover have "\<exists>r. ?text = CHR 0x22 # r" using Cons by (cases ws) (simp_all add: json_string_def)
    then obtain r where "?text = CHR 0x22 # r" by blast
    ultimately show ?thesis using n JObject.prems(3) by simp
  qed
next
  case (JNumber t)
  then obtain n' where "n = Suc n'" by (cases n) auto
  with JNumber show ?case by (simp only: read_plain_values(4) json_ok.simps)
next
  case (JString t)
  then obtain n' where "n = Suc n'" by (cases n) auto
  with JString show ?case by (simp only: read_plain_values(3) json_ok.simps)
next
  case (JBool b)
  then obtain n' where "n = Suc n'" by (cases n) auto
  with JBool show ?case by (simp only: read_plain_values(2))
next
  case JNull
  then obtain n' where "n = Suc n'" by (cases n) auto
  with JNull show ?case by (simp only: read_plain_values(1))
qed

corollary json_read_encoded:
  assumes "json_ok v" and "json_depth v \<le> maxNestingDepth" and "stops rest"
  shows "json_read (json_encode v @ rest) = Some (v, rest)"
  unfolding json_read_def by (rule read_value_encoded) (use assms in simp_all)

corollary json_parse_encoded:
  "json_ok v \<Longrightarrow> json_depth v \<le> maxNestingDepth \<Longrightarrow> stops rest \<Longrightarrow> json_parse (json_encode v @ rest) = Some v"
  by (simp add: json_parse_def json_read_encoded)

subsection \<open>Enough fuel\<close>

lemma read_string_shorter: "read_string s = Some (t, r) \<Longrightarrow> length r < length s"
proof (induction s arbitrary: t r rule: read_string.induct)
  case (2 c s)
  show ?case
  proof (cases "c = CHR 0x22 \<or> (of_char c :: nat) < 32")
    case True
    with "2.prems" show ?thesis by (auto simp: read_string.simps(2) split: if_splits)
  next
    case False
    let ?first = "if c = CHR 0x5C then read_escape (c # s)
                 else if utf8_len (c # s) = 0 then Some (replacement, s)
                 else Some (take (utf8_len (c # s)) (c # s), drop (utf8_len (c # s)) (c # s))"
    from False "2.prems" obtain out r' t' where one: "?first = Some (out, r')" "read_string r' = Some (t', r)"
      by (auto simp: read_string.simps(2) split: option.splits)
    then have "length r' < length (c # s)" by (auto split: if_splits dest: read_escape_shorter)
    moreover have "length r < length r'" using "2.IH" False one by (auto split: if_splits)
    ultimately show ?thesis by simp
  qed
qed simp

lemma read_exponent_le: "read_exponent t s = Some (t', r) \<Longrightarrow> length r \<le> length s"
  by (auto simp: read_exponent_def Let_def split: list.splits if_splits)

lemma read_fraction_le: "read_fraction t s = Some (t', r) \<Longrightarrow> length r \<le> length s"
  by (auto simp: read_fraction_def Let_def split: list.splits if_splits dest!: read_exponent_le)

lemma read_number_shorter: "read_number s = Some (t, r) \<Longrightarrow> length r < length s"
  by (auto simp: read_number_def Let_def digits_of_def split: list.splits if_splits dest!: read_fraction_le)

lemma skip_space_le: "length (skip_space s) \<le> length s"
  by (simp add: skip_space_def length_dropWhile_le)

lemma skip_space_Cons: "skip_space s = c # t \<Longrightarrow> length t < length s"
  using skip_space_le [of s] by simp

lemma read_value_step:
  assumes "read_value (Suc n) d s = Some (v, r)"
  obtains c t where "skip_space s = c # t" and
    "length r \<le> length t \<or> (\<exists>ms. read_members n (Suc d) t = Some (ms, r)) \<or> (\<exists>vs. read_elements n (Suc d) t = Some (vs, r))"
proof -
  from assms obtain c t where s: "skip_space s = c # t" by (auto split: list.splits)
  have le: "length (drop 1 (skip_space t)) \<le> length t" "length (drop 3 t) \<le> length t" "length (drop 4 t) \<le> length t"
    using skip_space_le [of t] by simp_all
  consider (object) "c = CHR ''{''" | (array) "c = CHR ''[''" | (quote) "c = CHR 0x22"
    | (plain) "c \<noteq> CHR ''{''" "c \<noteq> CHR ''[''" "c \<noteq> CHR 0x22" by blast
  then show thesis
  proof cases
    case object
    with assms s have "r = drop 1 (skip_space t) \<or> (\<exists>ms. read_members n (Suc d) t = Some (ms, r))"
      by (auto split: if_splits)
    with le(1) show thesis by (intro that [OF s]) auto
  next
    case array
    with assms s have "r = drop 1 (skip_space t) \<or> (\<exists>vs. read_elements n (Suc d) t = Some (vs, r))"
      by (auto split: if_splits)
    with le(1) show thesis by (intro that [OF s]) auto
  next
    case quote
    with assms s show thesis by (intro that [OF s]) (auto dest: read_string_shorter)
  next
    case plain
    with assms s have "r \<in> {drop 3 t, drop 4 t} \<or> (\<exists>x. read_number (c # t) = Some (x, r))"
      by (auto split: if_splits)
    with le(2,3) show thesis by (intro that [OF s]) (auto dest!: read_number_shorter)
  qed
qed

lemma read_elements_step:
  assumes "read_elements (Suc n) d s = Some (vs, r)"
  obtains v t c u where "read_value n d s = Some (v, t)" and "skip_space t = c # u"
    and "r = u \<or> (\<exists>ws. read_elements n d u = Some (ws, r))"
proof -
  from assms obtain v t where v: "read_value n d s = Some (v, t)" by (auto split: option.splits)
  with assms obtain c u where u: "skip_space t = c # u" by (auto split: list.splits)
  from v u assms have "r = u \<or> (\<exists>ws. read_elements n d u = Some (ws, r))" by (auto split: if_splits)
  with v u that show thesis by blast
qed

lemma read_members_step:
  assumes "read_members (Suc n) d s = Some (ms, r)"
  obtains q s1 k s2 v t c u where "skip_space s = q # s1" and "read_string s1 = Some (k, s2)"
    and "read_value n d (drop 1 (skip_space s2)) = Some (v, t)" and "skip_space t = c # u"
    and "r = u \<or> (\<exists>ws. read_members n d u = Some (ws, r))"
proof -
  from assms obtain q s1 where s1: "skip_space s = q # s1" by (auto split: list.splits)
  with assms obtain k s2 where s2: "read_string s1 = Some (k, s2)" by (auto split: option.splits if_splits)
  with s1 assms obtain v t where v: "read_value n d (drop 1 (skip_space s2)) = Some (v, t)"
    by (auto split: option.splits if_splits)
  with s1 s2 assms obtain c u where u: "skip_space t = c # u" by (auto split: list.splits if_splits)
  from s1 s2 v u assms have "r = u \<or> (\<exists>ws. read_members n d u = Some (ws, r))" by (auto split: if_splits)
  with s1 s2 v u that show thesis by blast
qed

lemma read_shorter:
  "(\<forall>d s v r. read_value n d s = Some (v, r) \<longrightarrow> length r < length s)
   \<and> (\<forall>d s vs r. read_elements n d s = Some (vs, r) \<longrightarrow> length r < length s)
   \<and> (\<forall>d s ms r. read_members n d s = Some (ms, r) \<longrightarrow> length r < length s)"
proof (induction n)
  case (Suc n)
  have "length r < length s" if run: "read_value (Suc n) d s = Some (v, r)" for d s v r
    using run by (rule read_value_step) (use Suc skip_space_Cons in fastforce)
  moreover have "length r < length s" if run: "read_elements (Suc n) d s = Some (vs, r)" for d s vs r
    using run by (rule read_elements_step) (use Suc skip_space_Cons in fastforce)
  moreover have "length r < length s" if run: "read_members (Suc n) d s = Some (ms, r)" for d s ms r
    using run
  proof (rule read_members_step)
    fix q s1 k s2 v t c u
    assume a: "skip_space s = q # s1" "read_string s1 = Some (k, s2)"
      "read_value n d (drop 1 (skip_space s2)) = Some (v, t)" "skip_space t = c # u"
      "r = u \<or> (\<exists>ws. read_members n d u = Some (ws, r))"
    have "length s1 < length s" "length s2 < length s1" "length u < length t" "length t < length (drop 1 (skip_space s2))"
      using skip_space_Cons [OF a(1)] read_string_shorter [OF a(2)] skip_space_Cons [OF a(4)] Suc a(3) by blast+
    with skip_space_le [of s2] a(5) Suc show ?thesis by fastforce
  qed
  ultimately show ?case by blast
qed simp

text \<open>Fuel beyond two units for a byte makes no difference: \<open>json_read\<close> never runs out of it.\<close>

lemma fuel_value:
  assumes "\<And>s d. 2 * length s + 2 \<le> n \<Longrightarrow> read_elements n d s = read_elements m d s"
    and "\<And>s d. 2 * length s + 2 \<le> n \<Longrightarrow> read_members n d s = read_members m d s"
    and "2 * length s \<le> n"
  shows "read_value (Suc n) d s = read_value (Suc m) d s"
proof (cases "skip_space s")
  case (Cons c r)
  then have "2 * length r + 2 \<le> n" using skip_space_Cons [OF Cons] assms(3) by linarith
  with assms(1,2) have "read_elements n (Suc d) r = read_elements m (Suc d) r"
    "read_members n (Suc d) r = read_members m (Suc d) r" by blast+
  with Cons show ?thesis by simp
qed simp

lemma fuel_elements:
  assumes "read_value n d s = read_value m d s" and "2 * length s + 1 \<le> n"
    and "\<And>s. 2 * length s + 2 \<le> n \<Longrightarrow> read_elements n d s = read_elements m d s"
  shows "read_elements (Suc n) d s = read_elements (Suc m) d s"
proof (cases "read_value n d s")
  case (Some p)
  obtain v t where p: "p = (v, t)" by force
  with Some read_shorter [of n] have "length t < length s" by blast
  then have "read_elements n d u = read_elements m d u" if "skip_space t = c # u" for c u
    using skip_space_Cons [OF that] assms(2) by (intro assms(3)) linarith
  with Some p assms(1) show ?thesis by (auto split: list.split)
qed (use assms in simp)

lemma fuel_members:
  assumes "\<And>s. 2 * length s + 1 \<le> n \<Longrightarrow> read_value n d s = read_value m d s" and "2 * length s + 1 \<le> n"
    and "\<And>s. 2 * length s + 2 \<le> n \<Longrightarrow> read_members n d s = read_members m d s"
  shows "read_members (Suc n) d s = read_members (Suc m) d s"
proof (cases "skip_space s")
  case (Cons q s1)
  show ?thesis
  proof (cases "read_string s1")
    case (Some p)
    obtain k s2 where p: "p = (k, s2)" by force
    let ?s3 = "drop 1 (skip_space s2)"
    have "length s2 < length s" using skip_space_Cons [OF Cons] read_string_shorter [of s1 k s2] Some p by simp
    then have len: "length ?s3 < length s" using skip_space_le [of s2] by simp
    then have eq: "read_value n d ?s3 = read_value m d ?s3" using assms(2) by (intro assms(1)) linarith
    have "read_members n d u = read_members m d u" if "read_value n d ?s3 = Some (v, t)" "skip_space t = c # u" for v t c u
      using skip_space_Cons [OF that(2)] read_shorter [of n] that(1) len assms(2) by (intro assms(3)) fastforce
    then show ?thesis using Cons Some p eq [symmetric] by (auto split: list.split option.split)
  qed (use Cons in simp)
qed simp

lemma fuel_enough:
  "n \<le> m \<Longrightarrow> (\<forall>d s. 2 * length s + 1 \<le> n \<longrightarrow> read_value n d s = read_value m d s)
   \<and> (\<forall>d s. 2 * length s + 2 \<le> n \<longrightarrow> read_elements n d s = read_elements m d s)
   \<and> (\<forall>d s. 2 * length s + 2 \<le> n \<longrightarrow> read_members n d s = read_members m d s)"
proof (induction n arbitrary: m)
  case (Suc n)
  then obtain m' where m: "m = Suc m'" "n \<le> m'" by (cases m) auto
  note IH = Suc.IH [OF m(2)]
  have "read_value (Suc n) d s = read_value m d s" if "2 * length s + 1 \<le> Suc n" for d s
    unfolding m(1) using that IH by (intro fuel_value) auto
  moreover have "read_elements (Suc n) d s = read_elements m d s" if "2 * length s + 2 \<le> Suc n" for d s
    unfolding m(1) using that IH by (intro fuel_elements) auto
  moreover have "read_members (Suc n) d s = read_members m d s" if "2 * length s + 2 \<le> Suc n" for d s
    unfolding m(1) using that IH by (intro fuel_members) auto
  ultimately show ?case by blast
qed simp

theorem json_read_fuel: "2 * length s + 1 \<le> n \<Longrightarrow> read_value n 0 s = json_read s"
  using fuel_enough [of "2 * length s + 1" n] fuel_enough [of "2 * length s + 1" "2 * length s + 2"]
  by (simp add: json_read_def)

end
