(* ===== verification/Externals.thy ===== *)
theory Externals
  imports Numeric_Text Json
begin

section \<open>Code outside the repository: parameters of the model and their documented laws\<close>

text \<open>
  The program calls third-party packages (the decimal, uuid, bcrypt and JWT libraries) and
  standard routines that format floats and times. They are fields of the record \<open>deps\<close>, an argument of the definitions
  that call them. What a theorem needs of them is a locale, stated over that record; its
  predicate is then a premise of the theorem. \<open>ref_deps\<close> is one concrete instance, exact
  decimals as coefficient and number of places: it shows that the laws can hold together and
  lets the witnesses evaluate.
\<close>

record 'd deps =
  NewFromString :: "string \<Rightarrow> 'd option"
  NewFromString_error :: "string \<Rightarrow> go_error"
  LessThan :: "'d \<Rightarrow> 'd \<Rightarrow> bool"
  LessThanOrEqual :: "'d \<Rightarrow> 'd \<Rightarrow> bool"
  DecEqual :: "'d \<Rightarrow> 'd \<Rightarrow> bool"
  Neg :: "'d \<Rightarrow> 'd"
  StringFixed :: "'d \<Rightarrow> nat \<Rightarrow> string"
  DecZero :: 'd
  uuid_Parse :: "string \<Rightarrow> uuid option"
  uuid_String :: "uuid \<Rightarrow> string"
  bcrypt_Generate :: "nat \<Rightarrow> string \<Rightarrow> string option"
  bcrypt_Compare :: "string \<Rightarrow> string \<Rightarrow> bool"
  jwt_Encode :: "string \<Rightarrow> (string \<times> json) list \<Rightarrow> string option"
  FormatFloat :: "64 word \<Rightarrow> string"
  FormatTime :: "time \<Rightarrow> string"

subsection \<open>The decimal library\<close>

text \<open>
  \<open>num d\<close> is the exact number a decimal stands for. The laws are the documented behaviour of
  the operations the ledger calls: comparisons compare the numbers, \<open>Neg\<close> negates,
  \<open>StringFixed(4)\<close> shows the number rounded to four places, and \<open>NewFromString\<close> reads a
  plain decimal with four places exactly.
\<close>

locale decimal_library =
  fixes X :: "'d deps" and num :: "'d \<Rightarrow> rat"
  assumes less: "LessThan X a b \<longleftrightarrow> num a < num b"
    and less_eq: "LessThanOrEqual X a b \<longleftrightarrow> num a \<le> num b"
    and equal: "DecEqual X a b \<longleftrightarrow> num a = num b"
    and neg: "num (Neg X a) = - num a"
    and zero: "num (DecZero X) = 0"
    and fixed: "StringFixed X a 4 = numeric_out (round4 (num a))"
    and parse: "\<exists>d. NewFromString X (numeric_out n) = Some d \<and> num d = of_int n / 10000"
begin

lemma fixed_zero: "StringFixed X (DecZero X) 4 = numeric_out 0"
  by (simp add: fixed zero)

lemma fixed_neg: "StringFixed X (Neg X a) 4 = numeric_out (- round4 (num a))"
  by (simp add: fixed neg round4_minus)

lemma parse_cases:
  obtains d where "NewFromString X (numeric_out n) = Some d" and "num d = of_int n / 10000"
  using parse by blast

lemmas decimal_laws = less less_eq equal neg zero fixed fixed_zero fixed_neg

end

subsection \<open>Identifiers\<close>

text \<open>\<open>uuid.Parse\<close> reads what \<open>UUID.String\<close> writes.\<close>

locale uuid_library =
  fixes X :: "'d deps"
  assumes parse_string: "uuid_Parse X (uuid_String X u) = Some u"
begin

lemma string_inj: "uuid_String X u = uuid_String X v \<longleftrightarrow> u = v"
  by (metis parse_string option.inject)

end

subsection \<open>One instance of the laws\<close>

type_synonym ref_decimal = "int \<times> nat"

definition ref_num :: "ref_decimal \<Rightarrow> rat" where
  "ref_num d = of_int (fst d) / of_int (10 ^ snd d)"

definition ref_deps :: "ref_decimal deps" where
  "ref_deps =
     \<lparr>NewFromString = numeric_parse,
      NewFromString_error = (\<lambda>s. ErrorsNew (''not a decimal: '' @ s)),
      LessThan = (\<lambda>(c, k) (c', k'). c * 10 ^ k' < c' * 10 ^ k),
      LessThanOrEqual = (\<lambda>(c, k) (c', k'). c * 10 ^ k' \<le> c' * 10 ^ k),
      DecEqual = (\<lambda>(c, k) (c', k'). c * 10 ^ k' = c' * 10 ^ k),
      Neg = (\<lambda>(c, k). (- c, k)),
      StringFixed = (\<lambda>(c, k) p. numeric_out (round_div (c * 10000) (10 ^ k))),
      DecZero = (0, 0),
      uuid_Parse = (\<lambda>s. if s \<noteq> [] \<and> list_all is_digit s then Some (of_nat (digits_val s)) else None),
      uuid_String = (\<lambda>u. nat_text (unat u)),
      bcrypt_Generate = (\<lambda>salt pw. if length pw \<le> 72 then Some (''$2a$'' @ pw) else None),
      bcrypt_Compare = (\<lambda>h pw. h = ''$2a$'' @ pw),
      jwt_Encode = (\<lambda>secret claims. Some (''jwt:'' @ secret)),
      FormatFloat = (\<lambda>w. nat_text (unat w)),
      FormatTime = (\<lambda>t. nat_text (nat t))\<rparr>"

lemma ref_num_compare:
  "ref_num (c, k) < ref_num (c', k') \<longleftrightarrow> c * 10 ^ k' < c' * 10 ^ k"
  "ref_num (c, k) \<le> ref_num (c', k') \<longleftrightarrow> c * 10 ^ k' \<le> c' * 10 ^ k"
  "ref_num (c, k) = ref_num (c', k') \<longleftrightarrow> c * 10 ^ k' = c' * 10 ^ k"
proof -
  have eq: "ref_num (c, k) = of_int (c * 10 ^ k') / of_int (10 ^ k * 10 ^ k')"
    "ref_num (c', k') = of_int (c' * 10 ^ k) / of_int (10 ^ k * 10 ^ k')"
    by (simp_all add: ref_num_def)
  have pos: "0 < (of_int (10 ^ k * 10 ^ k') :: rat)" by simp
  then have nneg: "\<not> (of_int (10 ^ k * 10 ^ k') :: rat) < 0" "(of_int (10 ^ k * 10 ^ k') :: rat) \<noteq> 0"
    by linarith+
  show "ref_num (c, k) < ref_num (c', k') \<longleftrightarrow> c * 10 ^ k' < c' * 10 ^ k"
    unfolding eq divide_less_cancel using pos nneg by (simp only: of_int_less_iff) simp
  show "ref_num (c, k) \<le> ref_num (c', k') \<longleftrightarrow> c * 10 ^ k' \<le> c' * 10 ^ k"
    unfolding eq divide_le_cancel using pos nneg by (simp only: of_int_le_iff) simp
  show "ref_num (c, k) = ref_num (c', k') \<longleftrightarrow> c * 10 ^ k' = c' * 10 ^ k"
    unfolding eq divide_cancel_right using nneg by (simp only: of_int_eq_iff) simp
qed

interpretation ref_dec: decimal_library ref_deps ref_num
proof
  fix a b :: ref_decimal
  obtain c k c' k' where ab: "a = (c, k)" "b = (c', k')" by (cases a, cases b)
  show "LessThan ref_deps a b \<longleftrightarrow> ref_num a < ref_num b"
    and "LessThanOrEqual ref_deps a b \<longleftrightarrow> ref_num a \<le> ref_num b"
    and "DecEqual ref_deps a b \<longleftrightarrow> ref_num a = ref_num b"
    by (simp_all add: ref_deps_def ab ref_num_compare)
  show "ref_num (Neg ref_deps a) = - ref_num a"
    by (simp add: ref_deps_def ab ref_num_def)
  show "ref_num (DecZero ref_deps) = 0"
    by (simp add: ref_deps_def ref_num_def)
  have "round4 (ref_num (c, k)) = round_div (c * 10000) (10 ^ k)"
    unfolding ref_num_def fst_conv snd_conv by (rule round4_div) simp
  then show "StringFixed ref_deps a 4 = numeric_out (round4 (ref_num a))"
    by (simp add: ref_deps_def ab)
  show "\<exists>d. NewFromString ref_deps (numeric_out n) = Some d \<and> ref_num d = of_int n / 10000" for n
    by (simp add: ref_deps_def numeric_parse_out ref_num_def)
qed

interpretation ref_uuid: uuid_library ref_deps
proof
  fix u :: uuid
  have "list_all is_digit (nat_text (unat u))"
    using nat_text_digits by (simp add: list_all_iff)
  then show "uuid_Parse ref_deps (uuid_String ref_deps u) = Some u"
    by (simp add: ref_deps_def)
qed

end
