(* ===== verification/Database.thy ===== *)
theory Database
  imports Externals
begin

section \<open>The database: tables and SQL statements\<close>

text \<open>
  The schema of \<open>db/migrations/\<close> and the queries of \<open>db/queries/\<close>, as they stand in the
  generated \<open>db/sqlc/*.sql.go\<close>. A table is the list of its rows in insertion order. A statement
  (\<open>getAccount\<close>, \<open>createEntry\<close>, named as the SQL constants of \<open>db/sqlc/*.sql.go\<close>) maps the
  committed or transaction-private tables to an error or to its result and the new tables;
  the constraints of the schema are its error branches, with PostgreSQL's SQLSTATE. The
  generated methods (\<open>GetAccount\<close>, \<open>CreateEntry\<close>) run a statement on a connection, where it
  can also fail for reasons outside the tables; they are in \<open>Queries\<close>.
\<close>

subsection \<open>Rows and tables\<close>

text \<open>
  \<open>'n\<close> is the type of a NUMERIC: an \<open>int\<close> of ten-thousandths in a table, a \<open>string\<close> in the
  structs of \<open>db/sqlc/models.go\<close>. A \<open>uuid.NullUUID\<close>, \<open>sql.NullString\<close> or \<open>sql.NullTime\<close> is an option.
\<close>

record 'n Account =
  acc_ID :: uuid
  acc_OwnerID :: "uuid option"
  acc_Name :: string
  acc_Balance :: 'n
  acc_Currency :: string
  acc_IsSystem :: bool
  acc_CreatedAt :: "time option"

record 'n Entry =
  ent_ID :: uuid
  ent_AccountID :: uuid
  ent_Debit :: 'n
  ent_Credit :: 'n
  ent_TransactionID :: uuid
  ent_OperationType :: string
  ent_Description :: "string option"
  ent_CreatedAt :: "time option"

record User =
  usr_ID :: uuid
  usr_Email :: string
  usr_HashedPassword :: string
  usr_CreatedAt :: "time option"

record IdempotencyKey =
  idk_ID :: string
  idk_UserID :: uuid
  idk_ResponseCode :: "32 word"
  idk_ResponseBody :: string
  idk_CreatedAt :: time

record database =
  users :: "User list"
  accounts :: "int Account list"
  entries :: "int Entry list"
  idempotency_keys :: "IdempotencyKey list"

text \<open>What \<open>Scan\<close> makes of a row: the NUMERIC columns arrive as text.\<close>

definition scan_account :: "int Account \<Rightarrow> string Account" where
  "scan_account a =
     \<lparr>acc_ID = acc_ID a, acc_OwnerID = acc_OwnerID a, acc_Name = acc_Name a,
      acc_Balance = numeric_out (acc_Balance a), acc_Currency = acc_Currency a,
      acc_IsSystem = acc_IsSystem a, acc_CreatedAt = acc_CreatedAt a\<rparr>"

definition scan_entry :: "int Entry \<Rightarrow> string Entry" where
  "scan_entry e =
     \<lparr>ent_ID = ent_ID e, ent_AccountID = ent_AccountID e,
      ent_Debit = numeric_out (ent_Debit e), ent_Credit = numeric_out (ent_Credit e),
      ent_TransactionID = ent_TransactionID e, ent_OperationType = ent_OperationType e,
      ent_Description = ent_Description e, ent_CreatedAt = ent_CreatedAt e\<rparr>"

lemma scan_account_simps [simp]:
  "acc_ID (scan_account a) = acc_ID a" "acc_OwnerID (scan_account a) = acc_OwnerID a"
  "acc_Name (scan_account a) = acc_Name a" "acc_Balance (scan_account a) = numeric_out (acc_Balance a)"
  "acc_Currency (scan_account a) = acc_Currency a" "acc_IsSystem (scan_account a) = acc_IsSystem a"
  "acc_CreatedAt (scan_account a) = acc_CreatedAt a"
  by (simp_all add: scan_account_def)

lemma scan_entry_simps [simp]:
  "ent_ID (scan_entry e) = ent_ID e" "ent_AccountID (scan_entry e) = ent_AccountID e"
  "ent_Debit (scan_entry e) = numeric_out (ent_Debit e)"
  "ent_Credit (scan_entry e) = numeric_out (ent_Credit e)"
  "ent_TransactionID (scan_entry e) = ent_TransactionID e"
  "ent_OperationType (scan_entry e) = ent_OperationType e"
  "ent_Description (scan_entry e) = ent_Description e"
  "ent_CreatedAt (scan_entry e) = ent_CreatedAt e"
  by (simp_all add: scan_entry_def)

subsection \<open>The errors of the schema's constraints\<close>

definition unique_violation :: go_error where
  "unique_violation = PqError ''23505'' ''pq: duplicate key value violates unique constraint''"

definition foreign_key_violation :: go_error where
  "foreign_key_violation = PqError ''23503'' ''pq: insert or update violates foreign key constraint''"

definition check_violation :: go_error where
  "check_violation = PqError ''23514'' ''pq: new row for relation entries violates check constraint''"

definition not_null_violation :: go_error where
  "not_null_violation = PqError ''23502'' ''pq: null value violates not-null constraint''"

definition invalid_enum :: go_error where
  "invalid_enum = PqError ''22P02'' ''pq: invalid input value for enum operation_type''"

definition value_too_long :: go_error where
  "value_too_long = PqError ''22001'' ''pq: value too long for type character varying(255)''"

definition untranslatable :: go_error where
  "untranslatable = PqError ''22021'' ''pq: invalid byte sequence for encoding UTF8: 0x00''"

definition negative_limit :: go_error where
  "negative_limit = PqError ''2201W'' ''pq: LIMIT must not be negative''"

definition negative_offset :: go_error where
  "negative_offset = PqError ''2201X'' ''pq: OFFSET must not be negative''"

subsection \<open>ORDER BY created\_at\<close>

text \<open>
  Ascending with NULLs last, descending with NULLs first. PostgreSQL leaves the order of
  equal keys open; the model keeps the insertion order, so what is said of a page of rows holds up to
  the order among rows of the same time.
\<close>

definition order_by_asc :: "('r \<Rightarrow> time option) \<Rightarrow> 'r list \<Rightarrow> 'r list" where
  "order_by_asc key rows =
     sort_key (\<lambda>r. the (key r)) (filter (\<lambda>r. key r \<noteq> None) rows) @ filter (\<lambda>r. key r = None) rows"

definition order_by_desc :: "('r \<Rightarrow> time option) \<Rightarrow> 'r list \<Rightarrow> 'r list" where
  "order_by_desc key rows =
     filter (\<lambda>r. key r = None) rows @ sort_key (\<lambda>r. - the (key r)) (filter (\<lambda>r. key r \<noteq> None) rows)"

lemma set_order_by [simp]:
  "set (order_by_asc key rows) = set rows" "set (order_by_desc key rows) = set rows"
  by (auto simp: order_by_asc_def order_by_desc_def)

lemma length_order_by [simp]:
  "length (order_by_asc key rows) = length rows" "length (order_by_desc key rows) = length rows"
  using sum_length_filter_compl [of "\<lambda>r. key r = None" rows]
  by (simp_all add: order_by_asc_def order_by_desc_def)

subsection \<open>The statements\<close>

text \<open>
  A statement gets the value of \<open>gen_random_uuid()\<close> and of \<open>CURRENT_TIMESTAMP\<close> for its row.
\<close>

type_synonym 'r stmt = "uuid \<Rightarrow> time \<Rightarrow> database \<Rightarrow> go_error + ('r \<times> database)"

text \<open>
  A TEXT value cannot hold the zero byte. The strings the program sends are otherwise valid
  UTF-8: the JSON reader replaces what is not.
\<close>

definition zero_byte :: "string \<Rightarrow> bool" where
  "zero_byte t \<longleftrightarrow> CHR 0x00 \<in> set t"

record CreateUserParams =
  cup_Email :: string
  cup_HashedPassword :: string

record CreateUserRow =
  cur_ID :: uuid
  cur_Email :: string
  cur_CreatedAt :: "time option"

definition createUser :: "CreateUserParams \<Rightarrow> CreateUserRow stmt" where
  "createUser p u t d =
     (if zero_byte (cup_Email p) \<or> zero_byte (cup_HashedPassword p) then Inl untranslatable
      else if u \<in> set (map usr_ID (users d)) then Inl unique_violation
      else if cup_Email p \<in> set (map usr_Email (users d)) then Inl unique_violation
      else Inr (\<lparr>cur_ID = u, cur_Email = cup_Email p, cur_CreatedAt = Some t\<rparr>,
                d\<lparr>users := users d @ [\<lparr>usr_ID = u, usr_Email = cup_Email p,
                     usr_HashedPassword = cup_HashedPassword p, usr_CreatedAt = Some t\<rparr>]\<rparr>))"

definition getUserByEmail :: "string \<Rightarrow> User stmt" where
  "getUserByEmail email u t d =
     (if zero_byte email then Inl untranslatable
      else
        (case find (\<lambda>r. usr_Email r = email) (users d) of
           None \<Rightarrow> Inl ErrNoRows
         | Some r \<Rightarrow> Inr (r, d)))"

record CreateAccountParams =
  cap_OwnerID :: "uuid option"
  cap_Name :: string
  cap_Currency :: string
  cap_IsSystem :: bool

definition createAccount :: "CreateAccountParams \<Rightarrow> (string Account) stmt" where
  "createAccount p u t d =
     (let row = \<lparr>acc_ID = u, acc_OwnerID = cap_OwnerID p, acc_Name = cap_Name p,
                 acc_Balance = 0, acc_Currency = cap_Currency p,
                 acc_IsSystem = cap_IsSystem p, acc_CreatedAt = Some t\<rparr>
      in if zero_byte (cap_Name p) then Inl untranslatable
         else if u \<in> set (map acc_ID (accounts d)) then Inl unique_violation
         else if (case cap_OwnerID p of None \<Rightarrow> False | Some ow \<Rightarrow> ow \<notin> set (map usr_ID (users d)))
         then Inl foreign_key_violation
         else Inr (scan_account row, d\<lparr>accounts := accounts d @ [row]\<rparr>))"

definition getAccount :: "uuid \<Rightarrow> (string Account) stmt" where
  "getAccount ident u t d =
     (case find (\<lambda>a. acc_ID a = ident) (accounts d) of
        None \<Rightarrow> Inl ErrNoRows
      | Some a \<Rightarrow> Inr (scan_account a, d))"

text \<open>\<open>FOR UPDATE\<close> locks the row; under serializable isolation it returns what the plain select does.\<close>

definition getAccountForUpdate :: "uuid \<Rightarrow> (string Account) stmt" where
  "getAccountForUpdate ident u t d =
     (case find (\<lambda>a. acc_ID a = ident) (accounts d) of
        None \<Rightarrow> Inl ErrNoRows
      | Some a \<Rightarrow> Inr (scan_account a, d))"

definition is_settlement :: "'n Account \<Rightarrow> bool" where
  "is_settlement a \<longleftrightarrow> acc_IsSystem a \<and> acc_Name a = ''Settlement Account''"

definition getSettlementAccount :: "(string Account) stmt" where
  "getSettlementAccount u t d =
     (case find is_settlement (accounts d) of
        None \<Rightarrow> Inl ErrNoRows
      | Some a \<Rightarrow> Inr (scan_account a, d))"

definition getSettlementAccountForUpdate :: "(string Account) stmt" where
  "getSettlementAccountForUpdate u t d =
     (case find is_settlement (accounts d) of
        None \<Rightarrow> Inl ErrNoRows
      | Some a \<Rightarrow> Inr (scan_account a, d))"

definition listAccountsByOwner :: "uuid option \<Rightarrow> (string Account list) stmt" where
  "listAccountsByOwner owner u t d =
     Inr (map scan_account (order_by_desc acc_CreatedAt
            (filter (\<lambda>a. owner \<noteq> None \<and> acc_OwnerID a = owner) (accounts d))), d)"

record UpdateAccountBalanceParams =
  uab_Balance :: string
  uab_ID :: uuid

definition updateAccountBalance :: "UpdateAccountBalanceParams \<Rightarrow> unit stmt" where
  "updateAccountBalance p u t d =
     (case numeric_parse (uab_Balance p) of
        None \<Rightarrow> Inl (invalid_numeric (uab_Balance p))
      | Some _ \<Rightarrow>
          (case find (\<lambda>a. acc_ID a = uab_ID p) (accounts d) of
             None \<Rightarrow> Inr ((), d)
           | Some a \<Rightarrow>
               (case numeric_add_column (acc_Balance a) (uab_Balance p) of
                  Inl e \<Rightarrow> Inl e
                | Inr b \<Rightarrow>
                    Inr ((), d\<lparr>accounts := map (\<lambda>r. if acc_ID r = uab_ID p then r\<lparr>acc_Balance := b\<rparr> else r)
                                              (accounts d)\<rparr>))))"

text \<open>\<open>SUM(credit) - SUM(debit)\<close> of one account, cast to \<open>NUMERIC(19,4)\<close>.\<close>

definition entry_sum :: "uuid \<Rightarrow> int Entry list \<Rightarrow> int" where
  "entry_sum ident es =
     (\<Sum>e\<leftarrow>filter (\<lambda>e. ent_AccountID e = ident) es. ent_Credit e)
     - (\<Sum>e\<leftarrow>filter (\<lambda>e. ent_AccountID e = ident) es. ent_Debit e)"

definition getAccountBalance :: "uuid \<Rightarrow> string stmt" where
  "getAccountBalance ident u t d =
     (case numeric_coerce (entry_sum ident (entries d)) 1 of
        Inl e \<Rightarrow> Inl e
      | Inr n \<Rightarrow> Inr (numeric_out n, d))"

record CreateEntryParams =
  cep_AccountID :: uuid
  cep_Debit :: string
  cep_Credit :: string
  cep_TransactionID :: uuid
  cep_OperationType :: string
  cep_Description :: "string option"

definition single_sided :: "int \<Rightarrow> int \<Rightarrow> bool" where
  "single_sided dr cr \<longleftrightarrow> (0 < dr \<and> cr = 0) \<or> (dr = 0 \<and> 0 < cr)"

definition createEntry :: "CreateEntryParams \<Rightarrow> (string Entry) stmt" where
  "createEntry p u t d =
     (case numeric_column (cep_Debit p) of
        Inl e \<Rightarrow> Inl e
      | Inr dr \<Rightarrow>
     (case numeric_column (cep_Credit p) of
        Inl e \<Rightarrow> Inl e
      | Inr cr \<Rightarrow>
        (let row = \<lparr>ent_ID = u, ent_AccountID = cep_AccountID p, ent_Debit = dr, ent_Credit = cr,
                    ent_TransactionID = cep_TransactionID p, ent_OperationType = cep_OperationType p,
                    ent_Description = cep_Description p, ent_CreatedAt = Some t\<rparr>
         in if cep_OperationType p \<notin> set [''deposit'', ''withdrawal'', ''transfer''] then Inl invalid_enum
            else if \<not> (0 \<le> dr \<and> 0 \<le> cr \<and> single_sided dr cr) then Inl check_violation
            else if u \<in> set (map ent_ID (entries d)) then Inl unique_violation
            else if cep_AccountID p \<notin> set (map acc_ID (accounts d)) then Inl foreign_key_violation
            else Inr (scan_entry row, d\<lparr>entries := entries d @ [row]\<rparr>))))"

record ListEntriesByAccountParams =
  lea_AccountID :: uuid
  lea_Limit :: "32 word"
  lea_Offset :: "32 word"

definition listEntriesByAccount :: "ListEntriesByAccountParams \<Rightarrow> (string Entry list) stmt" where
  "listEntriesByAccount p u t d =
     (if sint (lea_Limit p) < 0 then Inl negative_limit
      else if sint (lea_Offset p) < 0 then Inl negative_offset
      else Inr (map scan_entry (take (nat (sint (lea_Limit p))) (drop (nat (sint (lea_Offset p)))
             (order_by_desc ent_CreatedAt
                (filter (\<lambda>e. ent_AccountID e = lea_AccountID p) (entries d))))), d))"

definition listEntriesByTransaction :: "uuid \<Rightarrow> (string Entry list) stmt" where
  "listEntriesByTransaction txid u t d =
     Inr (map scan_entry (order_by_asc ent_CreatedAt
            (filter (\<lambda>e. ent_TransactionID e = txid) (entries d))), d)"

text \<open>
  A \<open>[]byte\<close> parameter is an option: the nil slice is sent as NULL, which the column refuses.
\<close>

record CreateIdempotencyKeyParams =
  cik_ID :: string
  cik_UserID :: uuid
  cik_ResponseCode :: "32 word"
  cik_ResponseBody :: "string option"

definition createIdempotencyKey :: "CreateIdempotencyKeyParams \<Rightarrow> IdempotencyKey stmt" where
  "createIdempotencyKey p u t d =
     (if 255 < length (cik_ID p) then Inl value_too_long
      else
        (case cik_ResponseBody p of
           None \<Rightarrow> Inl not_null_violation
         | Some body \<Rightarrow>
             (let row = \<lparr>idk_ID = cik_ID p, idk_UserID = cik_UserID p,
                         idk_ResponseCode = cik_ResponseCode p, idk_ResponseBody = body,
                         idk_CreatedAt = t\<rparr>
              in if cik_ID p \<in> set (map idk_ID (idempotency_keys d)) then Inl unique_violation
                 else Inr (row, d\<lparr>idempotency_keys := idempotency_keys d @ [row]\<rparr>))))"

record GetIdempotencyKeyParams =
  gik_ID :: string
  gik_UserID :: uuid

definition getIdempotencyKey :: "GetIdempotencyKeyParams \<Rightarrow> IdempotencyKey stmt" where
  "getIdempotencyKey p u t d =
     (case find (\<lambda>k. idk_ID k = gik_ID p \<and> idk_UserID k = gik_UserID p) (idempotency_keys d) of
        None \<Rightarrow> Inl ErrNoRows
      | Some k \<Rightarrow> Inr (k, d))"

end
