(* ===== verification/Queries.thy ===== *)
theory Queries
  imports Database
begin

section \<open>Connections: running the statements of db/sqlc\<close>

text \<open>
  \<open>db/sqlc/db.go\<close> and the query methods. A run of the program talks to a database that other
  clients use as well and that can fail; the record \<open>world\<close> is everything the program does
  not control, indexed by a counter \<open>tick\<close> that every call to the outside advances:
  what the driver reports for the call (\<open>fault\<close>), the next random identifier (\<open>fresh\<close>), the
  clock (\<open>now\<close>), what other clients committed just before the call (\<open>interfere\<close>), and whether
  the request's context was cancelled during a wait (\<open>cancelled\<close>). Theorems hold for every
  \<open>world\<close> unless they say otherwise.

  A \<open>LostReply\<close> is a call that the database executed but whose answer did not arrive: the
  program sees an error, the tables have the effect.
\<close>

datatype fault = NoFault | Fail go_error | LostReply go_error

record world =
  fault :: "nat \<Rightarrow> fault"
  fresh :: "nat \<Rightarrow> uuid"
  now :: "nat \<Rightarrow> time"
  interfere :: "nat \<Rightarrow> database \<Rightarrow> database"
  cancelled :: "nat \<Rightarrow> go_error option"

text \<open>
  The state a run threads: the tables as this run sees them, the call counter, the start of
  the open transaction if there is one, and the nanoseconds spent waiting between attempts.
\<close>

record session =
  sdb :: database
  tick :: nat
  tx_time :: "time option"
  slept :: int

text \<open>
  A run on some state gives an error or a value, and the state after it; an operation is a run
  on sessions. The sequencing below works on every kind of state.
\<close>

type_synonym ('s, 'a) run = "'s \<Rightarrow> (go_error + 'a) \<times> 's"
type_synonym 'a op = "(session, 'a) run"

subsection \<open>Sequencing\<close>

text \<open>\<open>x, err := m(); if err != nil { return err }\<close>, then the rest.\<close>

definition and_then :: "('s, 'a) run \<Rightarrow> ('a \<Rightarrow> ('s, 'b) run) \<Rightarrow> ('s, 'b) run" where
  "and_then m f s =
     (case m s of
        (Inl e, s1) \<Rightarrow> (Inl e, s1)
      | (Inr x, s1) \<Rightarrow> f x s1)"

definition return_ok :: "'a \<Rightarrow> ('s, 'a) run" where
  "return_ok x s = (Inr x, s)"

definition return_err :: "go_error \<Rightarrow> ('s, 'a) run" where
  "return_err e s = (Inl e, s)"

text \<open>\<open>if err != nil { return fmt.Errorf("text: %w", err) }\<close>\<close>

definition wrap_err :: "string \<Rightarrow> ('s, 'a) run \<Rightarrow> ('s, 'a) run" where
  "wrap_err pre m s =
     (case m s of
        (Inl e, s1) \<Rightarrow> (Inl (Errorf pre e []), s1)
      | (Inr x, s1) \<Rightarrow> (Inr x, s1))"

declare return_ok_def [op_defs] return_err_def [op_defs]

lemma and_then_Inr:
  "and_then m f s = (Inr y, s2) \<longleftrightarrow> (\<exists>x s1. m s = (Inr x, s1) \<and> f x s1 = (Inr y, s2))"
  by (auto simp: and_then_def split: prod.splits sum.splits)

lemma and_then_Inl:
  "and_then m f s = (Inl e, s2) \<longleftrightarrow>
     m s = (Inl e, s2) \<or> (\<exists>x s1. m s = (Inr x, s1) \<and> f x s1 = (Inl e, s2))"
  by (auto simp: and_then_def split: prod.splits sum.splits)

lemma wrap_err_Inr: "wrap_err pre m s = (Inr y, s2) \<longleftrightarrow> m s = (Inr y, s2)"
  by (auto simp: wrap_err_def split: prod.splits sum.splits)

lemma wrap_err_Inl:
  "wrap_err pre m s = (Inl e, s2) \<longleftrightarrow> (\<exists>e'. e = Errorf pre e' [] \<and> m s = (Inl e', s2))"
  by (auto simp: wrap_err_def split: prod.splits sum.splits)

lemma return_simps:
  "return_ok x s = (r, s2) \<longleftrightarrow> r = Inr x \<and> s2 = s"
  "return_err e s = (r, s2) \<longleftrightarrow> r = Inl e \<and> s2 = s"
  by (auto simp: return_ok_def return_err_def)

lemmas op_inversion = and_then_Inr wrap_err_Inr return_simps

lemma and_then_run [simp]:
  "m s = (Inr x, s1) \<Longrightarrow> and_then m f s = f x s1"
  "m s = (Inl e, s1) \<Longrightarrow> and_then m f s = (Inl e, s1)"
  by (simp_all add: and_then_def)

lemma wrap_err_run [simp]:
  "m s = (Inr x, s1) \<Longrightarrow> wrap_err pre m s = (Inr x, s1)"
  "m s = (Inl e, s1) \<Longrightarrow> wrap_err pre m s = (Inl (Errorf pre e []), s1)"
  by (simp_all add: wrap_err_def)

subsection \<open>Relations between the sessions before and after\<close>

text \<open>
  Many properties of an operation say that the session it ends in is related to the one it
  began in: it waited no longer, it drew no other identifiers. If the relation is reflexive and
  transitive, a sequence has the property because its parts do.
\<close>

definition stays :: "(session \<Rightarrow> session \<Rightarrow> bool) \<Rightarrow> 'a op \<Rightarrow> bool" where
  "stays R m \<longleftrightarrow> (\<forall>s. R s (snd (m s)))"

lemma staysI: "(\<And>s r s'. m s = (r, s') \<Longrightarrow> R s s') \<Longrightarrow> stays R m"
  unfolding stays_def by (metis prod.collapse)

lemma staysD: "stays R m \<Longrightarrow> m s = (r, s') \<Longrightarrow> R s s'"
  by (metis stays_def snd_conv)

locale session_rel =
  fixes R :: "session \<Rightarrow> session \<Rightarrow> bool"
  assumes refl: "R s s" and trans: "R s s1 \<Longrightarrow> R s1 s2 \<Longrightarrow> R s s2"
begin

lemma stays_and_then:
  assumes "stays R m" and "\<And>x. stays R (f x)"
  shows "stays R (and_then m f)"
proof (rule staysI)
  fix s r s'
  assume "and_then m f s = (r, s')"
  then show "R s s'"
    using assms trans by (auto simp: and_then_def split: prod.splits sum.splits dest!: staysD)
qed

lemma stays_wrap_err: "stays R m \<Longrightarrow> stays R (wrap_err pre m)"
  by (rule staysI) (auto simp: wrap_err_def split: prod.splits sum.splits dest: staysD)

lemma stays_return: "stays R (return_ok x)" "stays R (return_err e)"
  by (auto simp: stays_def op_defs refl)

lemma stays_if: "stays R m \<Longrightarrow> stays R n \<Longrightarrow> stays R (if b then m else n)"
  by simp

lemma stays_option:
  "stays R m \<Longrightarrow> (\<And>x. stays R (f x)) \<Longrightarrow> stays R (case v of None \<Rightarrow> m | Some x \<Rightarrow> f x)"
  by (cases v) simp_all

lemmas stays_intros = stays_and_then stays_wrap_err stays_return stays_if stays_option

end

subsection \<open>Running one statement\<close>

text \<open>
  The two kinds of \<open>DBTX\<close> a \<open>Queries\<close> value is bound to: the connection pool, where each
  statement is its own transaction and sees what others committed, or an open transaction.
\<close>

datatype DBTX = Pool | InTx

definition view :: "world \<Rightarrow> DBTX \<Rightarrow> session \<Rightarrow> database" where
  "view W q s = (case q of Pool \<Rightarrow> interfere W (tick s) (sdb s) | InTx \<Rightarrow> sdb s)"

definition stmt_time :: "world \<Rightarrow> session \<Rightarrow> time" where
  "stmt_time W s = (case tx_time s of None \<Rightarrow> now W (tick s) | Some t \<Rightarrow> t)"

definition run_stmt :: "world \<Rightarrow> DBTX \<Rightarrow> 'r stmt \<Rightarrow> 'r op" where
  "run_stmt W q st s =
     (let d0 = view W q s; s1 = s\<lparr>sdb := d0, tick := Suc (tick s)\<rparr>
      in case st (fresh W (tick s)) (stmt_time W s) d0 of
           Inl e \<Rightarrow>
             (case fault W (tick s) of
                NoFault \<Rightarrow> (Inl e, s1)
              | Fail e' \<Rightarrow> (Inl e', s1)
              | LostReply e' \<Rightarrow> (Inl e', s1))
         | Inr (r, d1) \<Rightarrow>
             (case fault W (tick s) of
                NoFault \<Rightarrow> (Inr r, s1\<lparr>sdb := d1\<rparr>)
              | Fail e' \<Rightarrow> (Inl e', s1)
              | LostReply e' \<Rightarrow> (Inl e', s1\<lparr>sdb := d1\<rparr>)))"

text \<open>\<open>uuid.New()\<close> takes the next random identifier.\<close>

definition uuid_New :: "world \<Rightarrow> uuid op" where
  "uuid_New W s = (Inr (fresh W (tick s)), s\<lparr>tick := Suc (tick s)\<rparr>)"

lemma view_simps [simp]:
  "view W Pool s = interfere W (tick s) (sdb s)" "view W InTx s = sdb s"
  by (simp_all add: view_def)

lemma run_stmt_Inr:
  "run_stmt W q st s = (Inr r, s') \<longleftrightarrow>
     fault W (tick s) = NoFault \<and>
     (\<exists>d1. st (fresh W (tick s)) (stmt_time W s) (view W q s) = Inr (r, d1)
        \<and> s' = s\<lparr>sdb := d1, tick := Suc (tick s)\<rparr>)"
  by (auto simp: run_stmt_def Let_def split: sum.splits fault.splits prod.splits)

lemma run_stmt_Inl:
  assumes "run_stmt W q st s = (Inl e, s')"
  shows "s' = s\<lparr>sdb := sdb s', tick := Suc (tick s)\<rparr>"
    and "sdb s' = view W q s
         \<or> (\<exists>r. st (fresh W (tick s)) (stmt_time W s) (view W q s) = Inr (r, sdb s')
               \<and> fault W (tick s) = LostReply e)"
    and "fault W (tick s) = NoFault \<Longrightarrow> st (fresh W (tick s)) (stmt_time W s) (view W q s) = Inl e"
  using assms by (auto simp: run_stmt_def Let_def split: sum.splits fault.splits prod.splits)

lemma uuid_New_Inr:
  "uuid_New W s = (r, s') \<longleftrightarrow> r = Inr (fresh W (tick s)) \<and> s' = s\<lparr>tick := Suc (tick s)\<rparr>"
  by (auto simp: uuid_New_def)

subsection \<open>The query methods\<close>

definition CreateUser :: "world \<Rightarrow> DBTX \<Rightarrow> CreateUserParams \<Rightarrow> CreateUserRow op" where
  "CreateUser W q p = run_stmt W q (createUser p)"

definition GetUserByEmail :: "world \<Rightarrow> DBTX \<Rightarrow> string \<Rightarrow> User op" where
  "GetUserByEmail W q email = run_stmt W q (getUserByEmail email)"

definition CreateAccount :: "world \<Rightarrow> DBTX \<Rightarrow> CreateAccountParams \<Rightarrow> (string Account) op" where
  "CreateAccount W q p = run_stmt W q (createAccount p)"

definition GetAccount :: "world \<Rightarrow> DBTX \<Rightarrow> uuid \<Rightarrow> (string Account) op" where
  "GetAccount W q ident = run_stmt W q (getAccount ident)"

definition GetAccountBalance :: "world \<Rightarrow> DBTX \<Rightarrow> uuid \<Rightarrow> string op" where
  "GetAccountBalance W q ident = run_stmt W q (getAccountBalance ident)"

definition GetAccountForUpdate :: "world \<Rightarrow> DBTX \<Rightarrow> uuid \<Rightarrow> (string Account) op" where
  "GetAccountForUpdate W q ident = run_stmt W q (getAccountForUpdate ident)"

definition GetSettlementAccount :: "world \<Rightarrow> DBTX \<Rightarrow> (string Account) op" where
  "GetSettlementAccount W q = run_stmt W q getSettlementAccount"

definition GetSettlementAccountForUpdate :: "world \<Rightarrow> DBTX \<Rightarrow> (string Account) op" where
  "GetSettlementAccountForUpdate W q = run_stmt W q getSettlementAccountForUpdate"

definition ListAccountsByOwner :: "world \<Rightarrow> DBTX \<Rightarrow> uuid option \<Rightarrow> (string Account list) op" where
  "ListAccountsByOwner W q owner = run_stmt W q (listAccountsByOwner owner)"

definition UpdateAccountBalance :: "world \<Rightarrow> DBTX \<Rightarrow> UpdateAccountBalanceParams \<Rightarrow> unit op" where
  "UpdateAccountBalance W q p = run_stmt W q (updateAccountBalance p)"

definition CreateEntry :: "world \<Rightarrow> DBTX \<Rightarrow> CreateEntryParams \<Rightarrow> (string Entry) op" where
  "CreateEntry W q p = run_stmt W q (createEntry p)"

definition ListEntriesByAccount ::
  "world \<Rightarrow> DBTX \<Rightarrow> ListEntriesByAccountParams \<Rightarrow> (string Entry list) op" where
  "ListEntriesByAccount W q p = run_stmt W q (listEntriesByAccount p)"

definition ListEntriesByTransaction :: "world \<Rightarrow> DBTX \<Rightarrow> uuid \<Rightarrow> (string Entry list) op" where
  "ListEntriesByTransaction W q txid = run_stmt W q (listEntriesByTransaction txid)"

definition CreateIdempotencyKey ::
  "world \<Rightarrow> DBTX \<Rightarrow> CreateIdempotencyKeyParams \<Rightarrow> IdempotencyKey op" where
  "CreateIdempotencyKey W q p = run_stmt W q (createIdempotencyKey p)"

definition GetIdempotencyKey ::
  "world \<Rightarrow> DBTX \<Rightarrow> GetIdempotencyKeyParams \<Rightarrow> IdempotencyKey op" where
  "GetIdempotencyKey W q p = run_stmt W q (getIdempotencyKey p)"

lemmas query_defs [op_defs] =
  CreateUser_def GetUserByEmail_def CreateAccount_def GetAccount_def GetAccountBalance_def
  GetAccountForUpdate_def GetSettlementAccount_def GetSettlementAccountForUpdate_def
  ListAccountsByOwner_def UpdateAccountBalance_def CreateEntry_def ListEntriesByAccount_def
  ListEntriesByTransaction_def CreateIdempotencyKey_def GetIdempotencyKey_def

subsection \<open>What a successful statement did\<close>

text \<open>
  One inversion lemma per statement the ledger uses: the row it returned and the tables after it.
\<close>

lemma getAccount_Inr:
  "getAccount ident u t d = Inr (r, d1) \<longleftrightarrow>
     d1 = d \<and> (\<exists>a. find (\<lambda>a. acc_ID a = ident) (accounts d) = Some a \<and> r = scan_account a)"
  by (auto simp: getAccount_def split: option.splits)

lemma getAccountForUpdate_Inr:
  "getAccountForUpdate ident u t d = Inr (r, d1) \<longleftrightarrow>
     d1 = d \<and> (\<exists>a. find (\<lambda>a. acc_ID a = ident) (accounts d) = Some a \<and> r = scan_account a)"
  by (auto simp: getAccountForUpdate_def split: option.splits)

lemma getSettlementAccountForUpdate_Inr:
  "getSettlementAccountForUpdate u t d = Inr (r, d1) \<longleftrightarrow>
     d1 = d \<and> (\<exists>a. find is_settlement (accounts d) = Some a \<and> r = scan_account a)"
  by (auto simp: getSettlementAccountForUpdate_def split: option.splits)

text \<open>The row an \<open>INSERT INTO entries\<close> makes of amounts already in ten-thousandths.\<close>

definition entry_row :: "CreateEntryParams \<Rightarrow> int \<Rightarrow> int \<Rightarrow> uuid \<Rightarrow> time \<Rightarrow> int Entry" where
  "entry_row p dr cr u t =
     \<lparr>ent_ID = u, ent_AccountID = cep_AccountID p, ent_Debit = dr, ent_Credit = cr,
      ent_TransactionID = cep_TransactionID p, ent_OperationType = cep_OperationType p,
      ent_Description = cep_Description p, ent_CreatedAt = Some t\<rparr>"

lemma entry_row_simps [simp]:
  "ent_ID (entry_row p dr cr u t) = u" "ent_AccountID (entry_row p dr cr u t) = cep_AccountID p"
  "ent_Debit (entry_row p dr cr u t) = dr" "ent_Credit (entry_row p dr cr u t) = cr"
  "ent_TransactionID (entry_row p dr cr u t) = cep_TransactionID p"
  "ent_OperationType (entry_row p dr cr u t) = cep_OperationType p"
  "ent_Description (entry_row p dr cr u t) = cep_Description p"
  "ent_CreatedAt (entry_row p dr cr u t) = Some t"
  by (simp_all add: entry_row_def)

lemma createEntry_Inr:
  assumes "numeric_column (cep_Debit p) = Inr dr" and "numeric_column (cep_Credit p) = Inr cr"
  shows "createEntry p u t d = Inr (r, d1) \<longleftrightarrow>
     r = scan_entry (entry_row p dr cr u t)
     \<and> d1 = d\<lparr>entries := entries d @ [entry_row p dr cr u t]\<rparr>
     \<and> cep_OperationType p \<in> {''deposit'', ''withdrawal'', ''transfer''}
     \<and> single_sided dr cr
     \<and> u \<notin> ent_ID ` set (entries d)
     \<and> cep_AccountID p \<in> acc_ID ` set (accounts d)"
  using assms
  by (auto simp: createEntry_def Let_def entry_row_def single_sided_def split: if_splits)

lemma createEntry_Inr_numeric:
  assumes "createEntry p u t d = Inr (r, d1)"
  obtains dr cr where "numeric_column (cep_Debit p) = Inr dr"
    and "numeric_column (cep_Credit p) = Inr cr"
  using assms by (auto simp: createEntry_def split: sum.splits)

lemma updateAccountBalance_Inr:
  assumes "uab_Balance p = numeric_out n"
    and "find (\<lambda>a. acc_ID a = uab_ID p) (accounts d) = Some a"
  shows "updateAccountBalance p u t d = Inr (r, d1) \<longleftrightarrow>
     \<bar>acc_Balance a + n\<bar> < numeric_limit
     \<and> d1 = d\<lparr>accounts := map (\<lambda>r. if acc_ID r = uab_ID p then r\<lparr>acc_Balance := acc_Balance a + n\<rparr> else r)
                              (accounts d)\<rparr>"
  using assms by (auto simp: updateAccountBalance_def numeric_parse_out split: if_splits)

lemma getAccountBalance_Inr:
  "getAccountBalance ident u t d = Inr (r, d1) \<longleftrightarrow>
     d1 = d \<and> r = numeric_out (entry_sum ident (entries d))
     \<and> \<bar>entry_sum ident (entries d)\<bar> < numeric_limit"
  using round_div_mult [of 1 "entry_sum ident (entries d)"]
  by (auto simp: getAccountBalance_def numeric_coerce_def Let_def split: sum.splits if_splits)

end
