(* ===== verification/Http.thy ===== *)
theory Http
  imports Queries
begin

section \<open>Requests, responses and JSON: amount.go, dto.go, mapper.go, response.go\<close>

text \<open>
  What the handlers share. A request is what they read of \<open>*http.Request\<close>; a response is the
  list of calls they make on the \<open>http.ResponseWriter\<close>, so that a middleware can wrap the
  writer as the code does. JSON bodies are values of the type \<open>json\<close>; their text
  form is in \<open>Json\<close>, decoding into a Go struct is written out here.
\<close>

text \<open>The dynamic types an \<open>interface{}\<close> has in this program.\<close>

datatype iface = INil | IString string | IBytes string | INumber string | IFloat64 "64 word" | IOther

text \<open>
  \<open>Claims\<close> is what \<open>jwtauth.FromContext\<close> returns, \<open>ContextUserID\<close> the value of the context key
  \<open>user_id\<close>, \<open>Body\<close> the bytes that can be read.
\<close>

record request =
  Method :: string
  Path :: string
  Header :: "string \<Rightarrow> string"
  Query :: "string \<Rightarrow> string"
  URLParam :: "string \<Rightarrow> string"
  Body :: string
  Claims :: "go_error + (string \<Rightarrow> json option)"
  RemoteAddr :: string
  ContextUserID :: iface

subsection \<open>The response writer\<close>

datatype wr_call = SetHeader string string | WriteHeader int | WriteBody string

text \<open>
  A connection: the header map the handler still fills, the status line with the headers as
  sent, the body bytes. A second \<open>WriteHeader\<close> is ignored, \<open>Write\<close> before it sends status
  200, and headers set after the status line are not sent.
\<close>

record writer =
  pending :: "(string \<times> string) list"
  sent :: "(int \<times> (string \<times> string) list) option"
  written :: string

definition new_writer :: writer where
  "new_writer = \<lparr>pending = [], sent = None, written = []\<rparr>"

fun wr_step :: "writer \<Rightarrow> wr_call \<Rightarrow> writer" where
  "wr_step w (SetHeader k v) = w\<lparr>pending := (k, v) # filter (\<lambda>(k', _). k' \<noteq> k) (pending w)\<rparr>"
| "wr_step w (WriteHeader code) =
     (case sent w of None \<Rightarrow> w\<lparr>sent := Some (code, pending w)\<rparr> | Some _ \<Rightarrow> w)"
| "wr_step w (WriteBody b) =
     (let w1 = (case sent w of None \<Rightarrow> w\<lparr>sent := Some (200, pending w)\<rparr> | Some _ \<Rightarrow> w)
      in w1\<lparr>written := written w1 @ b\<rparr>)"

definition wr_run :: "writer \<Rightarrow> wr_call list \<Rightarrow> writer" where
  "wr_run w calls = foldl wr_step w calls"

text \<open>What the client gets once the handler has returned: status 200 if nothing was written.\<close>

definition client_status :: "wr_call list \<Rightarrow> int" where
  "client_status calls = (case sent (wr_run new_writer calls) of None \<Rightarrow> 200 | Some (code, _) \<Rightarrow> code)"

definition client_body :: "wr_call list \<Rightarrow> string" where
  "client_body calls = written (wr_run new_writer calls)"

definition client_headers :: "wr_call list \<Rightarrow> (string \<times> string) list" where
  "client_headers calls =
     (let w = wr_run new_writer calls in case sent w of None \<Rightarrow> pending w | Some (_, hs) \<Rightarrow> hs)"

text \<open>The status the client gets is decided by the first call that is not a header.\<close>

lemma sent_once: "sent w = Some x \<Longrightarrow> sent (wr_run w calls) = Some x"
  unfolding wr_run_def
proof (induction calls arbitrary: w)
  case (Cons c cs)
  then show ?case by (cases c) (auto simp: Let_def)
qed simp

fun first_status :: "wr_call list \<Rightarrow> int" where
  "first_status [] = 200"
| "first_status (SetHeader k v # calls) = first_status calls"
| "first_status (WriteHeader code # calls) = code"
| "first_status (WriteBody b # calls) = 200"

lemma sent_first_status:
  "sent w = None \<Longrightarrow> (case sent (wr_run w calls) of None \<Rightarrow> 200 | Some (code, hs) \<Rightarrow> code) = first_status calls"
proof (induction calls arbitrary: w)
  case (Cons c cs)
  have step: "wr_run w (c # cs) = wr_run (wr_step w c) cs" for c by (simp add: wr_run_def)
  show ?case
  proof (cases c)
    case (SetHeader k v)
    then have "sent (wr_step w c) = None" using Cons.prems by simp
    from Cons.IH [OF this] SetHeader show ?thesis by (simp only: step first_status.simps)
  next
    case (WriteHeader code)
    with Cons.prems sent_once [of "wr_step w c" _ cs] show ?thesis by (simp add: step)
  next
    case (WriteBody b)
    with Cons.prems sent_once [of "wr_step w c" _ cs] show ?thesis by (simp add: step Let_def)
  qed
qed (simp add: wr_run_def)

lemma client_status_first: "client_status calls = first_status calls"
  using sent_first_status [of new_writer calls] by (simp add: client_status_def new_writer_def split: option.split)

subsection \<open>response.go\<close>

definition respondJSON :: "int \<Rightarrow> json \<Rightarrow> wr_call list" where
  "respondJSON status data =
     [SetHeader ''Content-Type'' ''application/json'', WriteHeader status,
      WriteBody (json_encode data @ [CHR 0x0A])]"

definition respondError :: "int \<Rightarrow> string \<Rightarrow> wr_call list" where
  "respondError status msg = respondJSON status (JObject [(''error'', JString msg)])"

subsection \<open>dto.go and mapper.go\<close>

record AccountResponse =
  ar_ID :: string
  ar_Name :: string
  ar_Balance :: string
  ar_Currency :: string
  ar_OwnerID :: "string option"
  ar_CreatedAt :: time
  ar_IsSystem :: bool

record EntryResponse =
  er_CreatedAt :: time
  er_ID :: string
  er_AccountID :: string
  er_Debit :: string
  er_Credit :: string
  er_TransactionID :: string
  er_OperationType :: string
  er_Description :: string

text \<open>Go's zero \<open>time.Time\<close>, January 1 of year 1, the \<open>Time\<close> of an invalid \<open>sql.NullTime\<close>.\<close>

definition zero_time :: time where
  "zero_time = - 62135596800 * 1000000000"

definition null_time :: "time option \<Rightarrow> time" where
  "null_time t = (case t of None \<Rightarrow> zero_time | Some x \<Rightarrow> x)"

definition operationTypeToString :: "iface \<Rightarrow> string" where
  "operationTypeToString v =
     (case v of INil \<Rightarrow> [] | IString t \<Rightarrow> t | IBytes t \<Rightarrow> t | _ \<Rightarrow> [])"

definition toAccountResponse :: "'d deps \<Rightarrow> string Account \<Rightarrow> AccountResponse" where
  "toAccountResponse X acc =
     \<lparr>ar_ID = uuid_String X (acc_ID acc), ar_Name = acc_Name acc, ar_Balance = acc_Balance acc,
      ar_Currency = acc_Currency acc, ar_OwnerID = map_option (uuid_String X) (acc_OwnerID acc),
      ar_CreatedAt = null_time (acc_CreatedAt acc), ar_IsSystem = acc_IsSystem acc\<rparr>"

definition toEntryResponse :: "'d deps \<Rightarrow> string Entry \<Rightarrow> EntryResponse" where
  "toEntryResponse X entry =
     \<lparr>er_CreatedAt = null_time (ent_CreatedAt entry), er_ID = uuid_String X (ent_ID entry),
      er_AccountID = uuid_String X (ent_AccountID entry), er_Debit = ent_Debit entry,
      er_Credit = ent_Credit entry, er_TransactionID = uuid_String X (ent_TransactionID entry),
      er_OperationType = operationTypeToString (IString (ent_OperationType entry)),
      er_Description = (case ent_Description entry of None \<Rightarrow> [] | Some t \<Rightarrow> t)\<rparr>"

text \<open>The structs as the encoder sees them: fields in order, \<open>omitempty\<close> fields left out.\<close>

definition account_json :: "'d deps \<Rightarrow> AccountResponse \<Rightarrow> json" where
  "account_json X a =
     JObject ([(''id'', JString (ar_ID a)), (''name'', JString (ar_Name a)),
               (''balance'', JString (ar_Balance a)), (''currency'', JString (ar_Currency a))]
              @ (case ar_OwnerID a of None \<Rightarrow> [] | Some ow \<Rightarrow> [(''owner_id'', JString ow)])
              @ [(''created_at'', JString (FormatTime X (ar_CreatedAt a))),
                 (''is_system'', JBool (ar_IsSystem a))])"

definition entry_json :: "'d deps \<Rightarrow> EntryResponse \<Rightarrow> json" where
  "entry_json X e =
     JObject ([(''created_at'', JString (FormatTime X (er_CreatedAt e))), (''id'', JString (er_ID e)),
               (''account_id'', JString (er_AccountID e)), (''debit'', JString (er_Debit e)),
               (''credit'', JString (er_Credit e)), (''transaction_id'', JString (er_TransactionID e)),
               (''operation_type'', JString (er_OperationType e))]
              @ (if er_Description e = [] then [] else [(''description'', JString (er_Description e))]))"

definition message_json :: "string \<Rightarrow> json" where
  "message_json msg = JObject [(''message'', JString msg)]"

definition token_json :: "string \<Rightarrow> json" where
  "token_json token = JObject [(''token'', JString token)]"

definition register_json :: "string \<Rightarrow> string \<Rightarrow> string \<Rightarrow> json" where
  "register_json userID email token =
     JObject [(''user_id'', JString userID), (''email'', JString email), (''token'', JString token)]"

definition reconcile_json :: "string \<Rightarrow> bool \<Rightarrow> json" where
  "reconcile_json msg matched = JObject [(''message'', JString msg), (''matched'', JBool matched)]"

subsection \<open>strings.TrimSpace\<close>

text \<open>The UTF-8 forms of the white space characters of Unicode.\<close>

definition spaces :: "string list" where
  "spaces =
     [[CHR 0x09], [CHR 0x0A], [CHR 0x0B], [CHR 0x0C], [CHR 0x0D], [CHR 0x20],
      [CHR 0xC2, CHR 0x85], [CHR 0xC2, CHR 0xA0], [CHR 0xE1, CHR 0x9A, CHR 0x80],
      [CHR 0xE2, CHR 0x80, CHR 0x80], [CHR 0xE2, CHR 0x80, CHR 0x81], [CHR 0xE2, CHR 0x80, CHR 0x82],
      [CHR 0xE2, CHR 0x80, CHR 0x83], [CHR 0xE2, CHR 0x80, CHR 0x84], [CHR 0xE2, CHR 0x80, CHR 0x85],
      [CHR 0xE2, CHR 0x80, CHR 0x86], [CHR 0xE2, CHR 0x80, CHR 0x87], [CHR 0xE2, CHR 0x80, CHR 0x88],
      [CHR 0xE2, CHR 0x80, CHR 0x89], [CHR 0xE2, CHR 0x80, CHR 0x8A], [CHR 0xE2, CHR 0x80, CHR 0xA8],
      [CHR 0xE2, CHR 0x80, CHR 0xA9], [CHR 0xE2, CHR 0x80, CHR 0xAF], [CHR 0xE2, CHR 0x81, CHR 0x9F],
      [CHR 0xE3, CHR 0x80, CHR 0x80]]"

definition strip_one :: "string list \<Rightarrow> string \<Rightarrow> string option" where
  "strip_one pats s =
     map_option (\<lambda>p. drop (length p) s) (find (\<lambda>p. p \<noteq> [] \<and> take (length p) s = p) pats)"

lemma strip_one_shorter: "strip_one pats s = Some r \<Longrightarrow> length r < length s"
  by (cases s) (auto simp: strip_one_def dest!: find_SomeD)

function trim_left :: "string list \<Rightarrow> string \<Rightarrow> string" where
  "trim_left pats s = (case strip_one pats s of None \<Rightarrow> s | Some r \<Rightarrow> trim_left pats r)"
  by pat_completeness auto
termination
  by (relation "measure (\<lambda>(pats, s). length s)") (auto dest: strip_one_shorter)

declare trim_left.simps [simp del]

definition TrimSpace :: "string \<Rightarrow> string" where
  "TrimSpace s = rev (trim_left (map rev spaces) (rev (trim_left spaces s)))"

lemma TrimSpace_Nil [simp]: "TrimSpace [] = []"
  by (simp add: TrimSpace_def trim_left.simps strip_one_def spaces_def)

subsection \<open>amount.go and decoding into structs\<close>

definition normalizeAmountInput :: "'d deps \<Rightarrow> iface \<Rightarrow> go_error + string" where
  "normalizeAmountInput X value =
     (case value of
        IString v \<Rightarrow>
          (let amount = TrimSpace v in if amount = [] then Inl (ErrorsNew ''amount required'') else Inr amount)
      | INumber v \<Rightarrow>
          (let amount = TrimSpace v in if amount = [] then Inl (ErrorsNew ''amount required'') else Inr amount)
      | IFloat64 v \<Rightarrow> Inr (FormatFloat X v)
      | _ \<Rightarrow> Inl (ErrorsNew ''amount must be a number or string''))"

text \<open>
  \<open>encoding/json\<close> matches a member name with a field name up to case folding, which also maps
  the long s and the Kelvin sign to their ASCII letters.
\<close>

fun fold_name :: "string \<Rightarrow> string" where
  "fold_name (c # r) =
     (if take 2 (c # r) = [CHR 0xC5, CHR 0xBF] then CHR ''s'' # fold_name (drop 1 r)
      else if take 3 (c # r) = [CHR 0xE2, CHR 0x84, CHR 0xAA] then CHR ''k'' # fold_name (drop 2 r)
      else if 65 \<le> (of_char c :: nat) \<and> (of_char c :: nat) \<le> 90
      then char_of (of_char c + 32 :: nat) # fold_name r
      else c # fold_name r)"
| "fold_name [] = []"

text \<open>
  Decoding one value into a field: success and the field's new value. \<open>null\<close> leaves a string
  as it is; another type is an error, but the other members are still stored.
\<close>

definition decode_string :: "json \<Rightarrow> string \<Rightarrow> bool \<times> string" where
  "decode_string v old = (case v of JString s \<Rightarrow> (True, s) | JNull \<Rightarrow> (True, old) | _ \<Rightarrow> (False, old))"

text \<open>An \<open>interface{}\<close> field under \<open>UseNumber\<close>.\<close>

definition decode_iface :: "json \<Rightarrow> iface" where
  "decode_iface v =
     (case v of JNull \<Rightarrow> INil | JString s \<Rightarrow> IString s | JNumber n \<Rightarrow> INumber n | _ \<Rightarrow> IOther)"

definition decode_struct :: "(string \<Rightarrow> json \<Rightarrow> 'r \<Rightarrow> bool \<times> 'r) \<Rightarrow> 'r \<Rightarrow> json option \<Rightarrow> bool \<times> 'r" where
  "decode_struct set_field init doc =
     (case doc of
        Some (JObject ms) \<Rightarrow>
          foldl (\<lambda>(ok, r) (k, v). case set_field (fold_name k) v r of (ok', r') \<Rightarrow> (ok \<and> ok', r'))
            (True, init) ms
      | Some JNull \<Rightarrow> (True, init)
      | _ \<Rightarrow> (False, init))"

definition set_amount :: "string \<Rightarrow> json \<Rightarrow> iface \<Rightarrow> bool \<times> iface" where
  "set_amount k v r = (if k = ''amount'' then (True, decode_iface v) else (True, r))"

definition decode_error :: go_error where
  "decode_error = ErrorsNew ''json: cannot decode''"

definition decodeAmountFromBody :: "'d deps \<Rightarrow> request \<Rightarrow> go_error + string" where
  "decodeAmountFromBody X r =
     (case decode_struct set_amount INil (json_parse (Body r)) of
        (ok, amount) \<Rightarrow> if ok then normalizeAmountInput X amount else Inl decode_error)"

end
