(* ===== verification/Store.thy ===== *)
theory Store
  imports Queries
begin

section \<open>internal/db/store.go: serializable transactions with retry\<close>

text \<open>
  \<open>ExecTx\<close> runs a function inside a serializable transaction, rolls back when it fails and
  retries up to ten times, with a growing wait, while the failure is a serialization
  conflict (SQLSTATE 40001). Serializable isolation is PostgreSQL's documented guarantee that
  the committed transactions are equivalent to some serial order; accordingly what other
  clients commit is seen at the start of an attempt (\<open>interfere\<close>) and the function then runs
  on tables of its own, published by the commit.
\<close>

subsection \<open>The code\<close>

text \<open>Durations in nanoseconds.\<close>

definition millisecond :: int where "millisecond = 1000000"
definition second :: int where "second = 1000 * millisecond"

definition isSerializationError :: "go_error \<Rightarrow> bool" where
  "isSerializationError err \<longleftrightarrow> errors_As_pq err = Some ''40001''"

text \<open>The loop \<open>for i := 0; i < attempt; i++\<close> of \<open>retryWait\<close>, by the iterations left.\<close>

fun retryWait_loop :: "nat \<Rightarrow> int \<Rightarrow> int" where
  "retryWait_loop 0 base = base"
| "retryWait_loop (Suc k) base =
     (let base' = base * 2 in if second \<le> base' then second else retryWait_loop k base')"

definition retryWait :: "nat \<Rightarrow> int" where
  "retryWait attempt = retryWait_loop attempt (50 * millisecond)"

text \<open>
  The \<open>select\<close> between the context's end and the timer; which one wins is the world's choice. A
  wait that was cut short took the time that passed on the clock.
\<close>

definition sleepWithContext :: "world \<Rightarrow> int \<Rightarrow> unit op" where
  "sleepWithContext W d s =
     (case cancelled W (tick s) of
        Some err \<Rightarrow>
          (Inl err, s\<lparr>tick := Suc (tick s), slept := slept s + min d (max 0 (now W (Suc (tick s)) - now W (tick s)))\<rparr>)
      | None \<Rightarrow> (Inr (), s\<lparr>tick := Suc (tick s), slept := slept s + d\<rparr>))"

definition execTxOnce :: "world \<Rightarrow> unit op \<Rightarrow> unit op" where
  "execTxOnce W fn s =
     (let d0 = interfere W (tick s) (sdb s);
          s1 = s\<lparr>sdb := d0, tick := Suc (tick s), tx_time := Some (now W (tick s))\<rparr>;
          done = (\<lambda>d s2. s2\<lparr>sdb := d, tick := Suc (tick s2), tx_time := None\<rparr>)
      in case fault W (tick s) of
           Fail err \<Rightarrow> (Inl err, s1\<lparr>tx_time := None\<rparr>)
         | LostReply err \<Rightarrow> (Inl err, s1\<lparr>tx_time := None\<rparr>)
         | NoFault \<Rightarrow>
             (case fn s1 of
                (Inl err, s2) \<Rightarrow>
                  (case fault W (tick s2) of
                     NoFault \<Rightarrow> (Inl err, done d0 s2)
                   | Fail rbErr \<Rightarrow>
                       (Inl (Errorf ''tx failed: '' err ('', rollback failed: '' @ error_text rbErr)), done d0 s2)
                   | LostReply rbErr \<Rightarrow>
                       (Inl (Errorf ''tx failed: '' err ('', rollback failed: '' @ error_text rbErr)), done d0 s2))
              | (Inr _, s2) \<Rightarrow>
                  (case fault W (tick s2) of
                     NoFault \<Rightarrow> (Inr (), done (sdb s2) s2)
                   | Fail err \<Rightarrow> (Inl (Errorf ''commit failed: '' err []), done d0 s2)
                   | LostReply err \<Rightarrow> (Inl (Errorf ''commit failed: '' err []), done (sdb s2) s2))))"

definition maxAttempts :: nat where "maxAttempts = 10"

definition attempts_exhausted :: "go_error option \<Rightarrow> go_error" where
  "attempts_exhausted lastErr =
     (let pre = ''transaction failed after '' @ nat_text maxAttempts
                @ '' attempts due to serialization conflicts: ''
      in case lastErr of
           Some e \<Rightarrow> Errorf pre e []
         | None \<Rightarrow> ErrorsNew (pre @ ''%!w(<nil>)''))"

text \<open>The loop of \<open>ExecTx\<close>, with \<open>attempt\<close> and \<open>lastErr\<close> as it keeps them.\<close>

function exec_attempts :: "world \<Rightarrow> unit op \<Rightarrow> nat \<Rightarrow> go_error option \<Rightarrow> unit op" where
  "exec_attempts W fn attempt lastErr s =
     (if attempt < maxAttempts then
        (case execTxOnce W fn s of
           (Inr _, s1) \<Rightarrow> (Inr (), s1)
         | (Inl err, s1) \<Rightarrow>
             if \<not> isSerializationError err then (Inl err, s1)
             else if attempt < maxAttempts - 1 then
               (case sleepWithContext W (retryWait attempt) s1 of
                  (Inl waitErr, s2) \<Rightarrow> (Inl waitErr, s2)
                | (Inr _, s2) \<Rightarrow> exec_attempts W fn (attempt + 1) (Some err) s2)
             else exec_attempts W fn (attempt + 1) (Some err) s1)
      else (Inl (attempts_exhausted lastErr), s))"
  by pat_completeness auto
termination
  by (relation "measure (\<lambda>(W, fn, attempt, lastErr, s). maxAttempts - attempt)") auto

declare exec_attempts.simps [simp del]

definition ExecTx :: "world \<Rightarrow> unit op \<Rightarrow> unit op" where
  "ExecTx W fn = exec_attempts W fn 0 None"

subsection \<open>Waiting\<close>

lemma retryWait_loop_eq:
  "0 < base \<Longrightarrow> base < second \<Longrightarrow> retryWait_loop k base = min second (base * 2 ^ k)"
proof (induction k arbitrary: base)
  case 0
  then show ?case by simp
next
  case (Suc k)
  show ?case
  proof (cases "second \<le> base * 2")
    case True
    have "base * 2 * 1 \<le> base * 2 * 2 ^ k"
      using Suc.prems by (intro mult_left_mono) auto
    with True show ?thesis by (simp add: Let_def mult.assoc)
  next
    case False
    with Suc.IH [of "base * 2"] Suc.prems show ?thesis by (simp add: Let_def mult.assoc)
  qed
qed

lemma retryWait_eq: "retryWait n = min second (50 * millisecond * 2 ^ n)"
  unfolding retryWait_def by (rule retryWait_loop_eq) (simp_all add: second_def millisecond_def)

lemma retryWait_nonneg: "0 \<le> retryWait n"
  by (simp add: retryWait_eq second_def millisecond_def)

text \<open>The waits of the attempts \<open>a, \<dots>, 8\<close>: what a loop at attempt \<open>a\<close> can still wait.\<close>

definition wait_budget :: "nat \<Rightarrow> int" where
  "wait_budget a = (\<Sum>i = a..<maxAttempts - 1. retryWait i)"

lemma wait_budget_step: "a < maxAttempts - 1 \<Longrightarrow> wait_budget a = retryWait a + wait_budget (Suc a)"
  by (simp add: wait_budget_def sum.atLeast_Suc_lessThan)

lemma wait_budget_nonneg: "0 \<le> wait_budget a"
  by (simp add: wait_budget_def retryWait_nonneg sum_nonneg)

lemma wait_budget_0: "wait_budget 0 = 5550 * millisecond"
  by (simp add: wait_budget_def maxAttempts_def retryWait_eq second_def millisecond_def
      eval_nat_numeral sum.atLeast0_lessThan_Suc)

subsection \<open>One attempt\<close>

text \<open>
  What other clients do between two points of a run: any number of the world's commits.
\<close>

inductive others :: "world \<Rightarrow> database \<Rightarrow> database \<Rightarrow> bool" for W where
  others_refl: "others W d d"
| others_step: "others W d d' \<Longrightarrow> others W d (interfere W t d')"

lemma others_trans: "others W d' d'' \<Longrightarrow> others W d d' \<Longrightarrow> others W d d''"
  by (induction rule: others.induct) (auto intro: others.intros)

text \<open>
  The documented meaning of a reported serialization failure: PostgreSQL rolled the
  transaction back, so it never comes with an effect.
\<close>

definition commit_reports :: "world \<Rightarrow> bool" where
  "commit_reports W \<longleftrightarrow> (\<forall>t e. fault W t = LostReply e \<longrightarrow> \<not> isSerializationError e)"

lemma isSerializationError_wrap [simp]:
  "isSerializationError (Errorf pre e post) \<longleftrightarrow> isSerializationError e"
  by (simp add: isSerializationError_def)

text \<open>\<open>fn\<close> ran once, to its end, in a transaction on \<open>d0\<close>, and left \<open>d1\<close>.\<close>

definition ran_once :: "unit op \<Rightarrow> database \<Rightarrow> database \<Rightarrow> bool" where
  "ran_once fn d0 d1 \<longleftrightarrow>
     (\<exists>s1 s2 t. sdb s1 = d0 \<and> tx_time s1 = Some t \<and> fn s1 = (Inr (), s2) \<and> d1 = sdb s2)"

lemma ran_onceI:
  "fn s1 = (Inr (), s2) \<Longrightarrow> sdb s1 = d0 \<Longrightarrow> tx_time s1 = Some t \<Longrightarrow> sdb s2 = d1 \<Longrightarrow> ran_once fn d0 d1"
  unfolding ran_once_def by blast

lemma execTxOnce_Inr:
  assumes "execTxOnce W fn s = (Inr u, s')"
  shows "ran_once fn (interfere W (tick s) (sdb s)) (sdb s')"
  using assms
  by (auto simp: execTxOnce_def Let_def split: fault.splits sum.splits prod.splits
      elim: ran_onceI)

lemma execTxOnce_Inl:
  assumes "execTxOnce W fn s = (Inl e, s')"
  shows "sdb s' = interfere W (tick s) (sdb s)
     \<or> ran_once fn (interfere W (tick s) (sdb s)) (sdb s')
        \<and> (\<exists>t e'. fault W t = LostReply e' \<and> e = Errorf ''commit failed: '' e' [])"
  using assms
  by (auto simp: execTxOnce_def Let_def split: fault.splits sum.splits prod.splits
      elim: ran_onceI)

lemma sleepWithContext_sdb: "sleepWithContext W d s = (r, s') \<Longrightarrow> sdb s' = sdb s"
  by (auto simp: sleepWithContext_def split: option.splits)

subsection \<open>All attempts\<close>

text \<open>
  Whatever the faults, the waits and the other clients: the tables end either as the others
  left them or after exactly one complete run of \<open>fn\<close> on tables the others left, and the
  latter is certain when \<open>ExecTx\<close> reports success. No attempt that failed leaves a trace.
\<close>

definition exec_outcome :: "world \<Rightarrow> unit op \<Rightarrow> database \<Rightarrow> go_error + unit \<Rightarrow> database \<Rightarrow> bool" where
  "exec_outcome W fn d r d' \<longleftrightarrow>
     (\<exists>d0. others W d d0
        \<and> (case r of
              Inr _ \<Rightarrow> ran_once fn d0 d'
            | Inl e \<Rightarrow> d' = d0 \<or> (ran_once fn d0 d'
                  \<and> (\<exists>t e'. fault W t = LostReply e' \<and> e = Errorf ''commit failed: '' e' []))))"

lemma exec_outcome_others: "others W d d1 \<Longrightarrow> exec_outcome W fn d1 r d' \<Longrightarrow> exec_outcome W fn d r d'"
  unfolding exec_outcome_def using others_trans by fast

text \<open>
  The runs of the loop as a relation, one rule per way an iteration goes on: the proofs about
  \<open>ExecTx\<close> are inductions over such runs.
\<close>

inductive retry_run ::
  "world \<Rightarrow> unit op \<Rightarrow> nat \<Rightarrow> go_error option \<Rightarrow> session \<Rightarrow> go_error + unit \<Rightarrow> session \<Rightarrow> bool"
  for W fn where
  run_exhausted: "\<not> a < maxAttempts \<Longrightarrow> retry_run W fn a le s (Inl (attempts_exhausted le)) s"
| run_committed: "a < maxAttempts \<Longrightarrow> execTxOnce W fn s = (Inr u, s1) \<Longrightarrow> retry_run W fn a le s (Inr ()) s1"
| run_failed: "a < maxAttempts \<Longrightarrow> execTxOnce W fn s = (Inl e, s1) \<Longrightarrow> \<not> isSerializationError e \<Longrightarrow>
    retry_run W fn a le s (Inl e) s1"
| run_cancelled: "a < maxAttempts - 1 \<Longrightarrow> execTxOnce W fn s = (Inl e, s1) \<Longrightarrow> isSerializationError e \<Longrightarrow>
    sleepWithContext W (retryWait a) s1 = (Inl we, s2) \<Longrightarrow> retry_run W fn a le s (Inl we) s2"
| run_retry: "a < maxAttempts - 1 \<Longrightarrow> execTxOnce W fn s = (Inl e, s1) \<Longrightarrow> isSerializationError e \<Longrightarrow>
    sleepWithContext W (retryWait a) s1 = (Inr u, s2) \<Longrightarrow> retry_run W fn (a + 1) (Some e) s2 r s' \<Longrightarrow>
    retry_run W fn a le s r s'"
| run_last: "a = maxAttempts - 1 \<Longrightarrow> execTxOnce W fn s = (Inl e, s1) \<Longrightarrow> isSerializationError e \<Longrightarrow>
    retry_run W fn (a + 1) (Some e) s1 r s' \<Longrightarrow> retry_run W fn a le s r s'"

lemma maxAttempts_pred: "a < maxAttempts - 1 \<Longrightarrow> a < maxAttempts"
  by simp

lemma retry_run_exec: "retry_run W fn a le s r s' \<Longrightarrow> exec_attempts W fn a le s = (r, s')"
proof (induction rule: retry_run.induct)
  case (run_last a s e s1 r s' le)
  then have "a < maxAttempts" and "\<not> a < maxAttempts - 1" by (simp_all add: maxAttempts_def)
  with run_last.hyps(2,3) run_last.IH show ?case
    by (simp add: exec_attempts.simps [of W fn a le s])
qed (simp_all add: exec_attempts.simps [of W fn _ _ _] maxAttempts_pred)

lemma exec_retry_run: "exec_attempts W fn a le s = (r, s') \<Longrightarrow> retry_run W fn a le s r s'"
proof (induction W fn a le s arbitrary: r s' rule: exec_attempts.induct)
  case (1 W fn a le s)
  note eq = "1.prems" [unfolded exec_attempts.simps [of W fn a le s]]
  obtain r1 s1 where once: "execTxOnce W fn s = (r1, s1)" by force
  consider "\<not> a < maxAttempts" | (ok) "a < maxAttempts" "r1 = Inr ()"
    | (err) e where "a < maxAttempts" "r1 = Inl e" "\<not> isSerializationError e"
    | (retry) e where "a < maxAttempts - 1" "r1 = Inl e" "isSerializationError e"
    | (last) e where "a = maxAttempts - 1" "a < maxAttempts" "r1 = Inl e" "isSerializationError e"
    by (cases r1) force+
  then show ?case
  proof cases
    case retry
    obtain r2 s2 where "sleepWithContext W (retryWait a) s1 = (r2, s2)" by force
    with retry once eq "1.IH"(1) [OF _ once [symmetric] retry(2)] show ?thesis
      by (cases r2) (auto simp: maxAttempts_pred intro: retry_run.intros)
  qed (use once eq "1.IH"(2) [OF _ once [symmetric]] in \<open>auto intro: retry_run.intros\<close>)
qed

lemma exec_attempts_outcome:
  assumes "commit_reports W" and "retry_run W fn a le s r s'"
  shows "exec_outcome W fn (sdb s) r (sdb s')"
  using assms(2)
proof (induction rule: retry_run.induct)
  case (run_exhausted a le s)
  show ?case unfolding exec_outcome_def by (auto intro: others_refl)
next
  case (run_committed a s u s1 le)
  then show ?case unfolding exec_outcome_def by (auto dest!: execTxOnce_Inr intro: others.intros)
next
  case (run_failed a s e s1 le)
  then show ?case unfolding exec_outcome_def by (auto dest!: execTxOnce_Inl intro: others.intros)
next
  case (run_cancelled a s e s1 we s2 le)
  with assms(1) have "sdb s2 = interfere W (tick s) (sdb s)"
    by (auto dest!: execTxOnce_Inl sleepWithContext_sdb simp: commit_reports_def)
  then show ?case unfolding exec_outcome_def by (auto intro: others.intros)
next
  case (run_retry a s e s1 u s2 r s' le)
  with assms(1) have "sdb s2 = interfere W (tick s) (sdb s)"
    by (auto dest!: execTxOnce_Inl sleepWithContext_sdb simp: commit_reports_def)
  with run_retry.IH show ?case by (auto intro: exec_outcome_others others.intros)
next
  case (run_last a s e s1 r s' le)
  with assms(1) have "sdb s1 = interfere W (tick s) (sdb s)"
    by (auto dest!: execTxOnce_Inl simp: commit_reports_def)
  with run_last.IH show ?case by (auto intro: exec_outcome_others others.intros)
qed

lemma ExecTx_run: "ExecTx W fn s = (r, s') \<longleftrightarrow> retry_run W fn 0 None s r s'"
  unfolding ExecTx_def using retry_run_exec exec_retry_run by blast

lemma ExecTx_outcome:
  "commit_reports W \<Longrightarrow> ExecTx W fn s = (r, s') \<Longrightarrow> exec_outcome W fn (sdb s) r (sdb s')"
  unfolding ExecTx_run by (rule exec_attempts_outcome)

subsection \<open>How long, and how often\<close>

abbreviation keeps_slept :: "'a op \<Rightarrow> bool" where
  "keeps_slept \<equiv> stays (\<lambda>s s'. slept s' = slept s)"

interpretation waiting: session_rel "\<lambda>s s'. slept s' = slept s"
  by unfold_locales simp_all

lemma execTxOnce_slept:
  "keeps_slept fn \<Longrightarrow> execTxOnce W fn s = (r, s') \<Longrightarrow> slept s' = slept s"
  by (fastforce dest: staysD simp: execTxOnce_def Let_def split: fault.splits sum.splits prod.splits)

lemma retry_run_slept:
  assumes "keeps_slept fn" and "retry_run W fn a le s r s'"
  shows "slept s \<le> slept s' \<and> slept s' \<le> slept s + wait_budget a"
  using assms(2)
proof (induction rule: retry_run.induct)
  case (run_retry a s e s1 u s2 r s' le)
  have "slept s2 = slept s + retryWait a"
    using execTxOnce_slept [OF assms(1) run_retry.hyps(2)] run_retry.hyps(4)
    by (auto simp: sleepWithContext_def split: option.splits)
  with run_retry.IH wait_budget_step [OF run_retry.hyps(1)] retryWait_nonneg [of a] show ?case
    by simp
next
  case (run_last a s e s1 r s' le)
  with execTxOnce_slept [OF assms(1) run_last.hyps(2)] show ?case
    by (simp add: wait_budget_def maxAttempts_def)
next
  case (run_cancelled a s e s1 we s2 le)
  with execTxOnce_slept [OF assms(1) run_cancelled.hyps(2)] wait_budget_step [OF run_cancelled.hyps(1)]
    wait_budget_nonneg [of "Suc a"] retryWait_nonneg [of a] show ?case
    by (auto simp: sleepWithContext_def split: option.splits)
qed (use execTxOnce_slept [OF assms(1)] wait_budget_nonneg in \<open>auto\<close>)

text \<open>
  \<open>conflicts W fn n s s'\<close>: starting in \<open>s\<close>, the first \<open>n\<close> attempts end in serialization
  conflicts, each followed by its wait, and the next attempt starts in \<open>s'\<close>.
\<close>

inductive conflicts :: "world \<Rightarrow> unit op \<Rightarrow> nat \<Rightarrow> session \<Rightarrow> session \<Rightarrow> bool" for W fn where
  conflicts_0: "conflicts W fn 0 s s"
| conflicts_Suc: "conflicts W fn n s s0 \<Longrightarrow> execTxOnce W fn s0 = (Inl e, s1) \<Longrightarrow>
    isSerializationError e \<Longrightarrow> sleepWithContext W (retryWait n) s1 = (Inr u, s2) \<Longrightarrow>
    conflicts W fn (Suc n) s s2"

lemma conflicts_run:
  assumes "conflicts W fn n s s0" and "n \<le> maxAttempts - 1"
  shows "\<exists>le'. (\<forall>r s'. retry_run W fn n le' s0 r s' \<longrightarrow> retry_run W fn 0 None s r s')"
  using assms
proof (induction rule: conflicts.induct)
  case (conflicts_0 s)
  then show ?case by blast
next
  case (conflicts_Suc n s s0 e s1 u s2)
  then obtain le' where "\<And>r s'. retry_run W fn n le' s0 r s' \<Longrightarrow> retry_run W fn 0 None s r s'"
    by auto
  moreover have "retry_run W fn n le' s0 r s'" if "retry_run W fn (Suc n) (Some e) s2 r s'" for r s'
    using conflicts_Suc.hyps conflicts_Suc.prems that by (intro run_retry [of n]) auto
  ultimately show ?case by blast
qed

lemma ExecTx_live:
  assumes "conflicts W fn n s s0" and "n < maxAttempts" and "execTxOnce W fn s0 = (Inr u, s1)"
  shows "ExecTx W fn s = (Inr (), s1)"
proof -
  from assms(2) have "n \<le> maxAttempts - 1" by simp
  from conflicts_run [OF assms(1) this] obtain le'
    where "\<And>r s'. retry_run W fn n le' s0 r s' \<Longrightarrow> retry_run W fn 0 None s r s'" by blast
  from this [OF run_committed [OF assms(2,3)]] show ?thesis by (simp add: ExecTx_run)
qed

lemma ExecTx_exhausted:
  assumes "conflicts W fn (maxAttempts - 1) s s0" and "execTxOnce W fn s0 = (Inl e, s1)"
    and "isSerializationError e"
  shows "ExecTx W fn s = (Inl (attempts_exhausted (Some e)), s1)"
proof -
  from conflicts_run [OF assms(1)] obtain le'
    where "\<And>r s'. retry_run W fn (maxAttempts - 1) le' s0 r s' \<Longrightarrow> retry_run W fn 0 None s r s'" by auto
  moreover have "retry_run W fn (maxAttempts - 1) le' s0 (Inl (attempts_exhausted (Some e))) s1"
    by (rule run_last [OF refl assms(2,3)], rule run_exhausted) (simp add: maxAttempts_def)
  ultimately show ?thesis by (simp add: ExecTx_run)
qed

lemma ExecTx_failed:
  assumes "conflicts W fn n s s0" and "n < maxAttempts" and "execTxOnce W fn s0 = (Inl e, s1)"
    and "\<not> isSerializationError e"
  shows "ExecTx W fn s = (Inl e, s1)"
proof -
  from assms(2) have "n \<le> maxAttempts - 1" by simp
  from conflicts_run [OF assms(1) this] obtain le'
    where "\<And>r s'. retry_run W fn n le' s0 r s' \<Longrightarrow> retry_run W fn 0 None s r s'" by blast
  from this [OF run_failed [OF assms(2-4)]] show ?thesis by (simp add: ExecTx_run)
qed

lemma ExecTx_slept:
  assumes "keeps_slept fn" and "ExecTx W fn s = (r, s')"
  shows "slept s \<le> slept s' \<and> slept s' \<le> slept s + 5550 * millisecond"
  using retry_run_slept [OF assms(1) assms(2) [unfolded ExecTx_run]] by (simp add: wait_budget_0)

text \<open>No statement waits, so a callback made of statements keeps the waiting time.\<close>

lemma statements_keep_slept: "keeps_slept (run_stmt W q st)" "keeps_slept (uuid_New W)"
  by (rule staysI, auto simp: run_stmt_def uuid_New_def Let_def split: sum.splits fault.splits prod.splits)+

lemmas keeps_slept_intros = waiting.stays_intros statements_keep_slept

end
