(* ===== verification/Ledger_Service.thy ===== *)
theory Ledger_Service
  imports Store
begin

section \<open>internal/service/ledger.go: deposits, withdrawals, transfers, reconciliation\<close>

text \<open>
  Each operation validates the amount, then runs one function inside \<open>ExecTx\<close>: it reads the
  accounts, checks them, writes the two entries of the double-entry posting under one
  transaction identifier and adds the signed amount to both cached balances. The functions
  below are these callbacks (\<open>deposit_tx\<close>, \<open>withdraw_tx\<close>, \<open>transfer_tx\<close>) and the operations
  around them; log lines are left out.
\<close>

definition validatePositiveAmount :: "'d deps \<Rightarrow> string \<Rightarrow> go_error + 'd" where
  "validatePositiveAmount X amountStr =
     (case NewFromString X amountStr of
        None \<Rightarrow> Inl ErrInvalidAmount
      | Some amt \<Rightarrow> if LessThanOrEqual X amt (DecZero X) then Inl ErrInvalidAmount else Inr amt)"

subsection \<open>What a callback is given\<close>

text \<open>
  The queries bound to the transaction, the argument \<open>q\<close> of the callbacks, and \<open>uuid.New\<close>. The
  state they run on is left open: \<open>in_tx\<close> is the transaction of a session, and \<open>Locks\<close> runs the same
  callbacks on one that also records which rows they lock.
\<close>

record 's tx_queries =
  tx_GetAccountForUpdate :: "uuid \<Rightarrow> ('s, string Account) run"
  tx_GetSettlementAccountForUpdate :: "('s, string Account) run"
  tx_CreateEntry :: "CreateEntryParams \<Rightarrow> ('s, string Entry) run"
  tx_UpdateAccountBalance :: "UpdateAccountBalanceParams \<Rightarrow> ('s, unit) run"
  tx_uuid_New :: "('s, uuid) run"

definition in_tx :: "world \<Rightarrow> session tx_queries" where
  "in_tx W =
     \<lparr>tx_GetAccountForUpdate = GetAccountForUpdate W InTx,
      tx_GetSettlementAccountForUpdate = GetSettlementAccountForUpdate W InTx,
      tx_CreateEntry = CreateEntry W InTx,
      tx_UpdateAccountBalance = UpdateAccountBalance W InTx,
      tx_uuid_New = uuid_New W\<rparr>"

lemma in_tx_simps:
  "tx_GetAccountForUpdate (in_tx W) = GetAccountForUpdate W InTx"
  "tx_GetSettlementAccountForUpdate (in_tx W) = GetSettlementAccountForUpdate W InTx"
  "tx_CreateEntry (in_tx W) = CreateEntry W InTx"
  "tx_UpdateAccountBalance (in_tx W) = UpdateAccountBalance W InTx"
  "tx_uuid_New (in_tx W) = uuid_New W"
  by (simp_all add: in_tx_def)

subsection \<open>Deposit\<close>

definition deposit_tx :: "'d deps \<Rightarrow> 's tx_queries \<Rightarrow> uuid \<Rightarrow> 'd \<Rightarrow> ('s, unit) run" where
  "deposit_tx X q accountID amount =
     and_then (wrap_err ''settlement account not found: '' (tx_GetSettlementAccountForUpdate q)) (\<lambda>settlement.
     and_then (wrap_err ''account not found: '' (tx_GetAccountForUpdate q accountID)) (\<lambda>account.
     if acc_Currency account \<noteq> acc_Currency settlement then return_err ErrCurrencyMismatch
     else
     and_then (tx_uuid_New q) (\<lambda>txID.
     and_then (tx_CreateEntry q
       \<lparr>cep_AccountID = accountID,
        cep_Debit = StringFixed X (DecZero X) 4,
        cep_Credit = StringFixed X amount 4,
        cep_TransactionID = txID,
        cep_OperationType = ''deposit'',
        cep_Description = Some ''External deposit''\<rparr>) (\<lambda>_.
     and_then (tx_CreateEntry q
       \<lparr>cep_AccountID = acc_ID settlement,
        cep_Debit = StringFixed X amount 4,
        cep_Credit = StringFixed X (DecZero X) 4,
        cep_TransactionID = txID,
        cep_OperationType = ''deposit'',
        cep_Description = Some (''Deposit to account '' @ uuid_String X accountID)\<rparr>) (\<lambda>_.
     and_then (tx_UpdateAccountBalance q
       \<lparr>uab_Balance = StringFixed X amount 4, uab_ID = accountID\<rparr>) (\<lambda>_.
     and_then (tx_UpdateAccountBalance q
       \<lparr>uab_Balance = StringFixed X (Neg X amount) 4, uab_ID = acc_ID settlement\<rparr>) (\<lambda>_.
     return_ok ())))))))"

definition Deposit :: "'d deps \<Rightarrow> world \<Rightarrow> uuid \<Rightarrow> string \<Rightarrow> unit op" where
  "Deposit X W accountID amountStr =
     (case validatePositiveAmount X amountStr of
        Inl err \<Rightarrow> return_err err
      | Inr amount \<Rightarrow> ExecTx W (deposit_tx X (in_tx W) accountID amount))"

subsection \<open>Withdraw\<close>

definition withdraw_tx :: "'d deps \<Rightarrow> 's tx_queries \<Rightarrow> uuid \<Rightarrow> 'd \<Rightarrow> ('s, unit) run" where
  "withdraw_tx X q accountID amount =
     and_then (wrap_err ''settlement account not found: '' (tx_GetSettlementAccountForUpdate q)) (\<lambda>settlement.
     and_then (wrap_err ''account not found: '' (tx_GetAccountForUpdate q accountID)) (\<lambda>account.
     if acc_Currency account \<noteq> acc_Currency settlement then return_err ErrCurrencyMismatch
     else
     (case NewFromString X (acc_Balance account) of
        None \<Rightarrow> return_err (ErrorsNew ''invalid balance'')
      | Some balanceDec \<Rightarrow>
     if LessThan X balanceDec amount then return_err ErrInsufficientFunds
     else
     and_then (tx_uuid_New q) (\<lambda>txID.
     and_then (tx_CreateEntry q
       \<lparr>cep_AccountID = accountID,
        cep_Debit = StringFixed X amount 4,
        cep_Credit = StringFixed X (DecZero X) 4,
        cep_TransactionID = txID,
        cep_OperationType = ''withdrawal'',
        cep_Description = Some ''External withdrawal''\<rparr>) (\<lambda>_.
     and_then (tx_CreateEntry q
       \<lparr>cep_AccountID = acc_ID settlement,
        cep_Debit = StringFixed X (DecZero X) 4,
        cep_Credit = StringFixed X amount 4,
        cep_TransactionID = txID,
        cep_OperationType = ''withdrawal'',
        cep_Description = Some (''Withdrawal from '' @ uuid_String X accountID)\<rparr>) (\<lambda>_.
     and_then (tx_UpdateAccountBalance q
       \<lparr>uab_Balance = StringFixed X (Neg X amount) 4, uab_ID = accountID\<rparr>) (\<lambda>_.
     and_then (tx_UpdateAccountBalance q
       \<lparr>uab_Balance = StringFixed X amount 4, uab_ID = acc_ID settlement\<rparr>) (\<lambda>_.
     return_ok ()))))))))"

definition Withdraw :: "'d deps \<Rightarrow> world \<Rightarrow> uuid \<Rightarrow> string \<Rightarrow> unit op" where
  "Withdraw X W accountID amountStr =
     (case validatePositiveAmount X amountStr of
        Inl err \<Rightarrow> return_err err
      | Inr amount \<Rightarrow> ExecTx W (withdraw_tx X (in_tx W) accountID amount))"

subsection \<open>Transfer\<close>

definition transfer_tx :: "'d deps \<Rightarrow> 's tx_queries \<Rightarrow> uuid \<Rightarrow> uuid \<Rightarrow> 'd \<Rightarrow> ('s, unit) run" where
  "transfer_tx X q fromID toID amount =
     and_then (tx_GetAccountForUpdate q fromID) (\<lambda>fromAcc.
     and_then (tx_GetAccountForUpdate q toID) (\<lambda>toAcc.
     if acc_Currency fromAcc \<noteq> acc_Currency toAcc then return_err ErrCurrencyMismatch
     else
     (case NewFromString X (acc_Balance fromAcc) of
        None \<Rightarrow> return_err (ErrorsNew ''invalid from balance'')
      | Some fromBalance \<Rightarrow>
     if LessThan X fromBalance amount then return_err ErrInsufficientFunds
     else
     and_then (tx_uuid_New q) (\<lambda>txID.
     and_then (tx_CreateEntry q
       \<lparr>cep_AccountID = fromID,
        cep_Debit = StringFixed X amount 4,
        cep_Credit = StringFixed X (DecZero X) 4,
        cep_TransactionID = txID,
        cep_OperationType = ''transfer'',
        cep_Description = Some (''Transfer to '' @ uuid_String X toID)\<rparr>) (\<lambda>_.
     and_then (tx_CreateEntry q
       \<lparr>cep_AccountID = toID,
        cep_Debit = StringFixed X (DecZero X) 4,
        cep_Credit = StringFixed X amount 4,
        cep_TransactionID = txID,
        cep_OperationType = ''transfer'',
        cep_Description = Some (''Transfer from '' @ uuid_String X fromID)\<rparr>) (\<lambda>_.
     and_then (tx_UpdateAccountBalance q
       \<lparr>uab_Balance = StringFixed X (Neg X amount) 4, uab_ID = fromID\<rparr>) (\<lambda>_.
     and_then (tx_UpdateAccountBalance q
       \<lparr>uab_Balance = StringFixed X amount 4, uab_ID = toID\<rparr>) (\<lambda>_.
     return_ok ()))))))))"

definition Transfer :: "'d deps \<Rightarrow> world \<Rightarrow> uuid \<Rightarrow> uuid \<Rightarrow> string \<Rightarrow> unit op" where
  "Transfer X W fromID toID amountStr =
     (case validatePositiveAmount X amountStr of
        Inl err \<Rightarrow> return_err err
      | Inr amount \<Rightarrow>
          if fromID = toID then return_err ErrSameAccountTransfer
          else ExecTx W (transfer_tx X (in_tx W) fromID toID amount))"

subsection \<open>ReconcileAccount\<close>

definition ReconcileAccount :: "'d deps \<Rightarrow> world \<Rightarrow> uuid \<Rightarrow> bool op" where
  "ReconcileAccount X W accountID =
     and_then (wrap_err ''account not found: '' (GetAccount W Pool accountID)) (\<lambda>account.
     and_then (wrap_err ''failed to calculate balance: '' (GetAccountBalance W Pool accountID)) (\<lambda>calculatedStr.
     (case NewFromString X calculatedStr of
        None \<Rightarrow> return_err (Errorf ''invalid calculated balance: '' (NewFromString_error X calculatedStr) [])
      | Some calculated \<Rightarrow>
     (case NewFromString X (acc_Balance account) of
        None \<Rightarrow> return_err (Errorf ''invalid stored balance: '' (NewFromString_error X (acc_Balance account)) [])
      | Some stored \<Rightarrow>
     if \<not> DecEqual X stored calculated
     then return_err (ErrorsNew (''balance mismatch: stored '' @ acc_Balance account
                                 @ '', calculated '' @ StringFixed X calculated 4))
     else return_ok True))))"

text \<open>The callbacks on the transaction of a session.\<close>

lemmas deposit_tx_run = deposit_tx_def [where q = "in_tx W" for W, unfolded in_tx_simps]
lemmas withdraw_tx_run = withdraw_tx_def [where q = "in_tx W" for W, unfolded in_tx_simps]
lemmas transfer_tx_run = transfer_tx_def [where q = "in_tx W" for W, unfolded in_tx_simps]

subsection \<open>Waiting\<close>

text \<open>Only the retries of \<open>ExecTx\<close> wait, so an operation waits at most 5.55 seconds.\<close>

lemma callbacks_keep_slept:
  "keeps_slept (deposit_tx X (in_tx W) accountID amount)"
  "keeps_slept (withdraw_tx X (in_tx W) accountID amount)"
  "keeps_slept (transfer_tx X (in_tx W) fromID toID amount)"
  unfolding deposit_tx_run withdraw_tx_run transfer_tx_run query_defs
  by (intro keeps_slept_intros)+

lemma operations_slept:
  "Deposit X W accountID amountStr s = (r, s') \<Longrightarrow> slept s' \<le> slept s + 5550 * millisecond"
  "Withdraw X W accountID amountStr s = (r, s') \<Longrightarrow> slept s' \<le> slept s + 5550 * millisecond"
  "Transfer X W fromID toID amountStr s = (r, s') \<Longrightarrow> slept s' \<le> slept s + 5550 * millisecond"
  by (auto simp: Deposit_def Withdraw_def Transfer_def return_simps millisecond_def
      split: sum.splits if_splits dest!: ExecTx_slept [OF callbacks_keep_slept(1)]
      ExecTx_slept [OF callbacks_keep_slept(2)] ExecTx_slept [OF callbacks_keep_slept(3)])

end
