(* ===== verification/Handlers.thy ===== *)
theory Handlers
  imports Http Ledger_Service
begin

section \<open>handler.go and middleware.go: the HTTP handlers and the tokens\<close>

text \<open>
  Every handler maps a request and the session to the calls on the response writer and the
  new session. The early returns of the code are the branches of the cases, in its order.
  Logging and the Prometheus histogram are left out. The repeated beginnings are the two
  helpers \<open>auth_user\<close> (claims, \<open>user_id\<close>, \<open>uuid.Parse\<close>) and \<open>load_own_account\<close> (read the
  account, then the ownership test).
\<close>

type_synonym 'r answer = "session \<Rightarrow> 'r \<times> session"

subsection \<open>Tokens (middleware.go)\<close>

text \<open>The package variable \<open>TokenAuth\<close> is the secret, or nil before initialization.\<close>

definition InitTokenAuth :: "string \<Rightarrow> go_error + string" where
  "InitTokenAuth secret =
     (if secret = [] then Inl (ErrorsNew ''JWT_SECRET environment variable is required'')
      else if length secret < 32 then Inl (ErrorsNew ''JWT_SECRET must be at least 32 characters'')
      else Inr secret)"

definition InitTokenAuthFromEnv :: "(string \<Rightarrow> string) \<Rightarrow> go_error + string" where
  "InitTokenAuthFromEnv getenv = InitTokenAuth (getenv ''JWT_SECRET'')"

definition int_text :: "int \<Rightarrow> string" where
  "int_text n = (if n < 0 then ''-'' else []) @ nat_text (nat \<bar>n\<bar>)"

text \<open>Seconds since the epoch, 24 hours from \<open>t\<close>.\<close>

definition token_expiry :: "time \<Rightarrow> int" where
  "token_expiry t = (t + 24 * 3600 * 1000000000) div 1000000000"

definition token_claims :: "'d deps \<Rightarrow> uuid \<Rightarrow> time \<Rightarrow> (string \<times> json) list" where
  "token_claims X userID t =
     [(''user_id'', JString (uuid_String X userID)), (''exp'', JNumber (int_text (token_expiry t)))]"

definition GenerateToken :: "'d deps \<Rightarrow> world \<Rightarrow> string option \<Rightarrow> uuid \<Rightarrow> string op" where
  "GenerateToken X W TokenAuth userID s =
     (case TokenAuth of
        None \<Rightarrow> (Inl (ErrorsNew ''token auth is not initialized''), s)
      | Some secret \<Rightarrow>
          (let s1 = s\<lparr>tick := Suc (tick s)\<rparr>
           in case jwt_Encode X secret (token_claims X userID (now W (tick s))) of
                None \<Rightarrow> (Inl (ErrorsNew ''cannot encode token''), s1)
              | Some token \<Rightarrow> (Inr token, s1)))"

subsection \<open>Request bodies\<close>

record AuthRequest =
  aur_Email :: string
  aur_Password :: string

record TransferRequest =
  trr_Amount :: iface
  trr_FromID :: string
  trr_ToID :: string
  trr_FromAccountID :: string
  trr_ToAccountID :: string

definition set_auth :: "string \<Rightarrow> json \<Rightarrow> AuthRequest \<Rightarrow> bool \<times> AuthRequest" where
  "set_auth k v r =
     (if k = ''email'' then (case decode_string v (aur_Email r) of (ok, x) \<Rightarrow> (ok, r\<lparr>aur_Email := x\<rparr>))
      else if k = ''password''
      then (case decode_string v (aur_Password r) of (ok, x) \<Rightarrow> (ok, r\<lparr>aur_Password := x\<rparr>))
      else (True, r))"

definition decode_auth :: "request \<Rightarrow> bool \<times> AuthRequest" where
  "decode_auth r = decode_struct set_auth \<lparr>aur_Email = [], aur_Password = []\<rparr> (json_parse (Body r))"

definition set_create_account :: "string \<Rightarrow> json \<Rightarrow> string \<Rightarrow> bool \<times> string" where
  "set_create_account k v name = (if k = ''name'' then decode_string v name else (True, name))"

definition decode_create_account :: "request \<Rightarrow> bool \<times> string" where
  "decode_create_account r = decode_struct set_create_account [] (json_parse (Body r))"

definition set_transfer :: "string \<Rightarrow> json \<Rightarrow> TransferRequest \<Rightarrow> bool \<times> TransferRequest" where
  "set_transfer k v r =
     (if k = ''amount'' then (True, r\<lparr>trr_Amount := decode_iface v\<rparr>)
      else if k = ''from_id''
      then (case decode_string v (trr_FromID r) of (ok, x) \<Rightarrow> (ok, r\<lparr>trr_FromID := x\<rparr>))
      else if k = ''to_id''
      then (case decode_string v (trr_ToID r) of (ok, x) \<Rightarrow> (ok, r\<lparr>trr_ToID := x\<rparr>))
      else if k = ''from_account_id''
      then (case decode_string v (trr_FromAccountID r) of (ok, x) \<Rightarrow> (ok, r\<lparr>trr_FromAccountID := x\<rparr>))
      else if k = ''to_account_id''
      then (case decode_string v (trr_ToAccountID r) of (ok, x) \<Rightarrow> (ok, r\<lparr>trr_ToAccountID := x\<rparr>))
      else (True, r))"

definition decode_transfer :: "request \<Rightarrow> bool \<times> TransferRequest" where
  "decode_transfer r =
     decode_struct set_transfer
       \<lparr>trr_Amount = INil, trr_FromID = [], trr_ToID = [], trr_FromAccountID = [], trr_ToAccountID = []\<rparr>
       (json_parse (Body r))"

subsection \<open>Register and Login\<close>

definition Handler_Register ::
  "'d deps \<Rightarrow> world \<Rightarrow> string option \<Rightarrow> request \<Rightarrow> (wr_call list) answer" where
  "Handler_Register X W TokenAuth r s =
     (case decode_auth r of (ok, input) \<Rightarrow>
      if \<not> ok then (respondError 400 ''invalid input'', s)
      else if aur_Email input = [] \<or> aur_Password input = []
      then (respondError 400 ''email and password required'', s)
      else
     (case bcrypt_Generate X (tick s) (aur_Password input) of
        None \<Rightarrow> (respondError 500 ''failed to hash password'', s)
      | Some hashed \<Rightarrow>
     (case CreateUser W Pool \<lparr>cup_Email = aur_Email input, cup_HashedPassword = hashed\<rparr> s of
        (Inl err, s1) \<Rightarrow> (respondError 409 ''user already exists or failed'', s1)
      | (Inr user, s1) \<Rightarrow>
     (case GenerateToken X W TokenAuth (cur_ID user) s1 of
        (Inl err, s2) \<Rightarrow> (respondError 500 ''failed to generate token'', s2)
      | (Inr token, s2) \<Rightarrow>
          (respondJSON 201 (register_json (uuid_String X (cur_ID user)) (cur_Email user) token), s2)))))"

definition Handler_Login ::
  "'d deps \<Rightarrow> world \<Rightarrow> string option \<Rightarrow> request \<Rightarrow> (wr_call list) answer" where
  "Handler_Login X W TokenAuth r s =
     (case decode_auth r of (ok, input) \<Rightarrow>
      if \<not> ok then (respondError 400 ''invalid input'', s)
      else
     (case GetUserByEmail W Pool (aur_Email input) s of
        (Inl err, s1) \<Rightarrow> (respondError 401 ''invalid credentials'', s1)
      | (Inr user, s1) \<Rightarrow>
      if \<not> bcrypt_Compare X (usr_HashedPassword user) (aur_Password input)
      then (respondError 401 ''invalid credentials'', s1)
      else
     (case GenerateToken X W TokenAuth (usr_ID user) s1 of
        (Inl err, s2) \<Rightarrow> (respondError 500 ''failed to generate token'', s2)
      | (Inr token, s2) \<Rightarrow> (respondJSON 200 (token_json token), s2))))"

subsection \<open>The common beginnings\<close>

definition auth_user :: "'d deps \<Rightarrow> request \<Rightarrow> wr_call list + uuid" where
  "auth_user X r =
     (case Claims r of
        Inl err \<Rightarrow> Inl (respondError 401 ''invalid token'')
      | Inr claims \<Rightarrow>
          (case claims ''user_id'' of
             Some (JString userIDStr) \<Rightarrow>
               (case uuid_Parse X userIDStr of
                  None \<Rightarrow> Inl (respondError 401 ''invalid token'')
                | Some userID \<Rightarrow> Inr userID)
           | _ \<Rightarrow> Inl (respondError 401 ''invalid token'')))"

text \<open>\<open>acc.OwnerID.Valid && acc.OwnerID.UUID != userID\<close>\<close>

definition access_denied :: "'n Account \<Rightarrow> uuid \<Rightarrow> bool" where
  "access_denied acc userID \<longleftrightarrow> (case acc_OwnerID acc of None \<Rightarrow> False | Some ow \<Rightarrow> ow \<noteq> userID)"

definition load_own_account ::
  "world \<Rightarrow> string \<Rightarrow> uuid \<Rightarrow> uuid \<Rightarrow> (wr_call list + string Account) answer" where
  "load_own_account W not_found userID accountID s =
     (case GetAccount W Pool accountID s of
        (Inl err, s1) \<Rightarrow> (Inl (respondError 404 not_found), s1)
      | (Inr acc, s1) \<Rightarrow>
          if access_denied acc userID then (Inl (respondError 403 ''access denied''), s1)
          else (Inr acc, s1))"

subsection \<open>Accounts\<close>

definition Handler_CreateAccount :: "'d deps \<Rightarrow> world \<Rightarrow> request \<Rightarrow> (wr_call list) answer" where
  "Handler_CreateAccount X W r s =
     (case auth_user X r of
        Inl resp \<Rightarrow> (resp, s)
      | Inr userID \<Rightarrow>
     (case decode_create_account r of (ok, name) \<Rightarrow>
      if \<not> ok \<or> name = [] then (respondError 400 ''name required'', s)
      else
     (case CreateAccount W Pool
             \<lparr>cap_OwnerID = Some userID, cap_Name = name, cap_Currency = ''USD'', cap_IsSystem = False\<rparr> s of
        (Inl err, s1) \<Rightarrow> (respondError 500 ''failed to create account'', s1)
      | (Inr acc, s1) \<Rightarrow> (respondJSON 201 (account_json X (toAccountResponse X acc)), s1))))"

definition Handler_ListAccounts :: "'d deps \<Rightarrow> world \<Rightarrow> request \<Rightarrow> (wr_call list) answer" where
  "Handler_ListAccounts X W r s =
     (case auth_user X r of
        Inl resp \<Rightarrow> (resp, s)
      | Inr userID \<Rightarrow>
     (case ListAccountsByOwner W Pool (Some userID) s of
        (Inl err, s1) \<Rightarrow> (respondError 500 ''failed to list accounts'', s1)
      | (Inr accs, s1) \<Rightarrow>
          (respondJSON 200 (JArray (map (\<lambda>acc. account_json X (toAccountResponse X acc)) accs)), s1)))"

definition Handler_GetAccount :: "'d deps \<Rightarrow> world \<Rightarrow> request \<Rightarrow> (wr_call list) answer" where
  "Handler_GetAccount X W r s =
     (case auth_user X r of
        Inl resp \<Rightarrow> (resp, s)
      | Inr userID \<Rightarrow>
     (case uuid_Parse X (URLParam r ''id'') of
        None \<Rightarrow> (respondError 400 ''invalid account ID'', s)
      | Some accountID \<Rightarrow>
     (case load_own_account W ''account not found'' userID accountID s of
        (Inl resp, s1) \<Rightarrow> (resp, s1)
      | (Inr acc, s1) \<Rightarrow> (respondJSON 200 (account_json X (toAccountResponse X acc)), s1))))"

subsection \<open>Money\<close>

definition deposit_code :: "go_error \<Rightarrow> int" where
  "deposit_code err =
     (if errors_Is err ErrInvalidAmount \<or> errors_Is err ErrCurrencyMismatch then 400 else 500)"

definition Handler_Deposit :: "'d deps \<Rightarrow> world \<Rightarrow> request \<Rightarrow> (wr_call list) answer" where
  "Handler_Deposit X W r s =
     (case auth_user X r of
        Inl resp \<Rightarrow> (resp, s)
      | Inr userID \<Rightarrow>
     (case uuid_Parse X (URLParam r ''id'') of
        None \<Rightarrow> (respondError 400 ''invalid account ID'', s)
      | Some accountID \<Rightarrow>
     (case load_own_account W ''account not found'' userID accountID s of
        (Inl resp, s1) \<Rightarrow> (resp, s1)
      | (Inr acc, s1) \<Rightarrow>
     (case decodeAmountFromBody X r of
        Inl err \<Rightarrow> (respondError 400 ''invalid input'', s1)
      | Inr amount \<Rightarrow>
     (case Deposit X W accountID amount s1 of
        (Inl err, s2) \<Rightarrow> (respondError (deposit_code err) (error_text err), s2)
      | (Inr _, s2) \<Rightarrow> (respondJSON 200 (message_json ''deposit successful''), s2))))))"

definition withdraw_code :: "go_error \<Rightarrow> int" where
  "withdraw_code err =
     (if errors_Is err ErrInsufficientFunds \<or> errors_Is err ErrInvalidAmount \<or> errors_Is err ErrCurrencyMismatch
      then 400 else 500)"

definition Handler_Withdraw :: "'d deps \<Rightarrow> world \<Rightarrow> request \<Rightarrow> (wr_call list) answer" where
  "Handler_Withdraw X W r s =
     (case auth_user X r of
        Inl resp \<Rightarrow> (resp, s)
      | Inr userID \<Rightarrow>
     (case uuid_Parse X (URLParam r ''id'') of
        None \<Rightarrow> (respondError 400 ''invalid account ID'', s)
      | Some accountID \<Rightarrow>
     (case load_own_account W ''account not found'' userID accountID s of
        (Inl resp, s1) \<Rightarrow> (resp, s1)
      | (Inr acc, s1) \<Rightarrow>
     (case decodeAmountFromBody X r of
        Inl err \<Rightarrow> (respondError 400 ''invalid input'', s1)
      | Inr amount \<Rightarrow>
     (case Withdraw X W accountID amount s1 of
        (Inl err, s2) \<Rightarrow> (respondError (withdraw_code err) (error_text err), s2)
      | (Inr _, s2) \<Rightarrow> (respondJSON 200 (message_json ''withdrawal successful''), s2))))))"

definition Handler_Transfer :: "'d deps \<Rightarrow> world \<Rightarrow> request \<Rightarrow> (wr_call list) answer" where
  "Handler_Transfer X W r s =
     (case auth_user X r of
        Inl resp \<Rightarrow> (resp, s)
      | Inr userID \<Rightarrow>
     (case decode_transfer r of (ok, input) \<Rightarrow>
      if \<not> ok then (respondError 400 ''invalid input'', s)
      else
     (let fromIDRaw = (if TrimSpace (trr_FromID input) = [] then TrimSpace (trr_FromAccountID input)
                       else TrimSpace (trr_FromID input));
          toIDRaw = (if TrimSpace (trr_ToID input) = [] then TrimSpace (trr_ToAccountID input)
                     else TrimSpace (trr_ToID input))
      in
      if fromIDRaw = [] then (respondError 400 ''from_id (or from_account_id) is required'', s)
      else if toIDRaw = [] then (respondError 400 ''to_id (or to_account_id) is required'', s)
      else
     (case uuid_Parse X fromIDRaw of
        None \<Rightarrow> (respondError 400 ''invalid from_id format'', s)
      | Some fromID \<Rightarrow>
     (case uuid_Parse X toIDRaw of
        None \<Rightarrow> (respondError 400 ''invalid to_id format'', s)
      | Some toID \<Rightarrow>
     (case normalizeAmountInput X (trr_Amount input) of
        Inl err \<Rightarrow> (respondError 400 ''invalid input'', s)
      | Inr amount \<Rightarrow>
     (case load_own_account W ''from account not found'' userID fromID s of
        (Inl resp, s1) \<Rightarrow> (resp, s1)
      | (Inr fromAcc, s1) \<Rightarrow>
     (case Transfer X W fromID toID amount s1 of
        (Inl err, s2) \<Rightarrow> (respondError 400 (error_text err), s2)
      | (Inr _, s2) \<Rightarrow> (respondJSON 200 (message_json ''transfer successful''), s2)))))))))"

subsection \<open>Entries, transactions, reconciliation\<close>

text \<open>\<open>strconv.Atoi\<close>: an optional sign, decimal digits, a value that fits 64 bits.\<close>

definition Atoi :: "string \<Rightarrow> int option" where
  "Atoi s =
     (let (sg, r) = split_sign s
      in if r = [] \<or> \<not> list_all is_digit r then None
         else let v = sg * int (digits_val r)
              in if - (2 ^ 63) \<le> v \<and> v < 2 ^ 63 then Some v else None)"

definition entries_limit :: "string \<Rightarrow> int" where
  "entries_limit limitStr = (case Atoi limitStr of Some v \<Rightarrow> if v > 0 then min v 100 else 20 | None \<Rightarrow> 20)"

definition entries_offset :: "string \<Rightarrow> int" where
  "entries_offset offsetStr = (case Atoi offsetStr of Some v \<Rightarrow> if v \<ge> 0 then v else 0 | None \<Rightarrow> 0)"

definition Handler_GetEntries :: "'d deps \<Rightarrow> world \<Rightarrow> request \<Rightarrow> (wr_call list) answer" where
  "Handler_GetEntries X W r s =
     (case auth_user X r of
        Inl resp \<Rightarrow> (resp, s)
      | Inr userID \<Rightarrow>
     (case uuid_Parse X (URLParam r ''id'') of
        None \<Rightarrow> (respondError 400 ''invalid account ID'', s)
      | Some accountID \<Rightarrow>
     (case load_own_account W ''account not found'' userID accountID s of
        (Inl resp, s1) \<Rightarrow> (resp, s1)
      | (Inr acc, s1) \<Rightarrow>
     (case ListEntriesByAccount W Pool
             \<lparr>lea_AccountID = accountID,
              lea_Limit = word_of_int (entries_limit (Query r ''limit'')),
              lea_Offset = word_of_int (entries_offset (Query r ''offset''))\<rparr> s1 of
        (Inl err, s2) \<Rightarrow> (respondError 500 ''failed to fetch entries'', s2)
      | (Inr es, s2) \<Rightarrow>
          (respondJSON 200 (JArray (map (\<lambda>e. entry_json X (toEntryResponse X e)) es)), s2)))))"

text \<open>The loop over the entries: authorized at the first account the user owns.\<close>

fun authorize_entries :: "world \<Rightarrow> uuid \<Rightarrow> string Entry list \<Rightarrow> bool op" where
  "authorize_entries W userID [] s = (Inr False, s)"
| "authorize_entries W userID (entry # es) s =
     (case GetAccount W Pool (ent_AccountID entry) s of
        (Inl err, s1) \<Rightarrow> (Inl err, s1)
      | (Inr acc, s1) \<Rightarrow>
          if acc_OwnerID acc = Some userID then (Inr True, s1)
          else authorize_entries W userID es s1)"

definition Handler_GetTransactions :: "'d deps \<Rightarrow> world \<Rightarrow> request \<Rightarrow> (wr_call list) answer" where
  "Handler_GetTransactions X W r s =
     (case auth_user X r of
        Inl resp \<Rightarrow> (resp, s)
      | Inr userID \<Rightarrow>
     (case uuid_Parse X (URLParam r ''id'') of
        None \<Rightarrow> (respondError 400 ''invalid transaction ID'', s)
      | Some transactionID \<Rightarrow>
     (case ListEntriesByTransaction W Pool transactionID s of
        (Inl err, s1) \<Rightarrow> (respondError 500 ''failed to fetch transaction'', s1)
      | (Inr es, s1) \<Rightarrow>
      if es = [] then (respondError 404 ''transaction not found'', s1)
      else
     (case authorize_entries W userID es s1 of
        (Inl err, s2) \<Rightarrow> (respondError 500 ''failed to authorize transaction'', s2)
      | (Inr authorized, s2) \<Rightarrow>
      if \<not> authorized then (respondError 403 ''access denied'', s2)
      else (respondJSON 200 (JArray (map (\<lambda>e. entry_json X (toEntryResponse X e)) es)), s2)))))"

definition Handler_ReconcileAccount :: "'d deps \<Rightarrow> world \<Rightarrow> request \<Rightarrow> (wr_call list) answer" where
  "Handler_ReconcileAccount X W r s =
     (case auth_user X r of
        Inl resp \<Rightarrow> (resp, s)
      | Inr userID \<Rightarrow>
     (case uuid_Parse X (URLParam r ''id'') of
        None \<Rightarrow> (respondError 400 ''invalid account ID'', s)
      | Some accountID \<Rightarrow>
     (case load_own_account W ''account not found'' userID accountID s of
        (Inl resp, s1) \<Rightarrow> (resp, s1)
      | (Inr acc, s1) \<Rightarrow>
     (case ReconcileAccount X W accountID s1 of
        (Inl err, s2) \<Rightarrow> (respondError 500 (error_text err), s2)
      | (Inr matched, s2) \<Rightarrow>
          (respondJSON 200 (reconcile_json ''Account reconciled successfully'' matched), s2)))))"

end
