(* ===== verification/Sha256.thy ===== *)
theory Sha256
  imports Ledger_Base "HOL-Library.Word"
begin

section \<open>crypto/sha256: the hash of the idempotency keys\<close>

text \<open>
  The hash function of FIPS 180-4 on texts of bytes, as \<open>sha256.New\<close>, \<open>Write\<close> and \<open>Sum\<close>
  compute it: the text is padded to blocks of 64 bytes, and each block is mixed into eight words
  of 32 bits. The initial words and the constants of the rounds are the first 32 bits behind the
  point of the square and cube roots of the first primes.
\<close>

subsection \<open>The constants\<close>

text \<open>The greatest \<open>r\<close> below \<open>lo + 2 ^ n\<close> with \<open>r ^ k \<le> x\<close>, if \<open>lo\<close> is not too large.\<close>

fun root_below :: "nat \<Rightarrow> nat \<Rightarrow> nat \<Rightarrow> nat \<Rightarrow> nat" where
  "root_below k x 0 lo = lo"
| "root_below k x (Suc n) lo = root_below k x n (if (lo + 2 ^ n) ^ k \<le> x then lo + 2 ^ n else lo)"

lemma root_below_bounds:
  "0 < k \<Longrightarrow> lo ^ k \<le> x \<Longrightarrow> x < (lo + 2 ^ n) ^ k \<Longrightarrow>
    root_below k x n lo ^ k \<le> x \<and> x < Suc (root_below k x n lo) ^ k"
proof (induction n arbitrary: lo)
  case (Suc n)
  then show ?case by (auto simp: mult_2 add.assoc [symmetric] not_le)
qed simp

definition root_fraction :: "nat \<Rightarrow> nat \<Rightarrow> 32 word" where
  "root_fraction k p = of_nat (root_below k (p * 2 ^ (32 * k)) 41 0)"

lemma root_fraction_exact:
  assumes "0 < k" and "p * 2 ^ (32 * k) < (2 ^ 41) ^ k"
  shows "\<exists>r. root_fraction k p = of_nat r \<and> r ^ k \<le> p * 2 ^ (32 * k) \<and> p * 2 ^ (32 * k) < Suc r ^ k"
proof -
  let ?x = "p * 2 ^ (32 * k)"
  have "0 ^ k \<le> ?x" using assms(1) by (simp add: power_0_left)
  then have "root_below k ?x 41 0 ^ k \<le> ?x \<and> ?x < Suc (root_below k ?x 41 0) ^ k"
    using assms by (intro root_below_bounds) simp_all
  then show ?thesis unfolding root_fraction_def by blast
qed

definition first_primes :: "nat list" where
  "first_primes = [2, 3, 5, 7, 11, 13, 17, 19, 23, 29, 31, 37, 41, 43, 47, 53, 59, 61, 67, 71, 73, 79, 83, 89, 97,
     101, 103, 107, 109, 113, 127, 131, 137, 139, 149, 151, 157, 163, 167, 173, 179, 181, 191, 193, 197, 199, 211,
     223, 227, 229, 233, 239, 241, 251, 257, 263, 269, 271, 277, 281, 283, 293, 307, 311]"

definition round_constants :: "32 word list" where
  "round_constants = map (root_fraction 3) first_primes"

subsection \<open>Bytes and words\<close>

definition bytes_of :: "nat \<Rightarrow> nat \<Rightarrow> string" where
  "bytes_of n x = map (\<lambda>i. char_of (x div 256 ^ i)) (rev [0..<n])"

definition word_of_bytes :: "string \<Rightarrow> 32 word" where
  "word_of_bytes bs = of_nat (foldl (\<lambda>n c. n * 256 + of_char c) 0 bs)"

function chunks :: "nat \<Rightarrow> string \<Rightarrow> string list" where
  "chunks n s = (if n = 0 \<or> s = [] then [] else take n s # chunks n (drop n s))"
  by pat_completeness auto
termination
  by (relation "measure (length \<circ> snd)") auto

declare chunks.simps [simp del]

text \<open>One bit, zeroes, and the length in bits in the last eight bytes of a block.\<close>

definition pad :: "string \<Rightarrow> string" where
  "pad s = s @ CHR 0x80 # replicate ((119 - length s mod 64) mod 64) (CHR 0x00) @ bytes_of 8 (8 * length s)"

subsection \<open>Blocks\<close>

unbundle bit_operations_syntax

definition mix :: "nat \<Rightarrow> nat \<Rightarrow> nat \<Rightarrow> 32 word \<Rightarrow> 32 word" where
  "mix a b c w = word_rotr a w XOR word_rotr b w XOR word_rotr c w"

definition mix_shift :: "nat \<Rightarrow> nat \<Rightarrow> nat \<Rightarrow> 32 word \<Rightarrow> 32 word" where
  "mix_shift a b c w = word_rotr a w XOR word_rotr b w XOR drop_bit c w"

text \<open>The words of a block in reverse, extended to 64.\<close>

fun extend :: "nat \<Rightarrow> 32 word list \<Rightarrow> 32 word list" where
  "extend 0 ws = ws"
| "extend (Suc n) ws =
     extend n ((mix_shift 17 19 10 (ws ! 1) + ws ! 6 + mix_shift 7 18 3 (ws ! 14) + ws ! 15) # ws)"

type_synonym hash_state =
  "32 word \<times> 32 word \<times> 32 word \<times> 32 word \<times> 32 word \<times> 32 word \<times> 32 word \<times> 32 word"

fun hash_round :: "hash_state \<Rightarrow> 32 word \<times> 32 word \<Rightarrow> hash_state" where
  "hash_round (a, b, c, d, e, f, g, h) (k, w) =
     (let t1 = h + mix 6 11 25 e + ((e AND f) XOR (NOT e AND g)) + k + w;
          t2 = mix 2 13 22 a + ((a AND b) XOR (a AND c) XOR (b AND c))
      in (t1 + t2, a, b, c, d + t1, e, f, g))"

fun add_state :: "hash_state \<Rightarrow> hash_state \<Rightarrow> hash_state" where
  "add_state (a, b, c, d, e, f, g, h) (a', b', c', d', e', f', g', h') =
     (a + a', b + b', c + c', d + d', e + e', f + f', g + g', h + h')"

definition hash_block :: "hash_state \<Rightarrow> string \<Rightarrow> hash_state" where
  "hash_block st block =
     add_state st (foldl hash_round st
       (zip round_constants (rev (extend 48 (rev (map word_of_bytes (chunks 4 block)))))))"

definition initial_hash :: hash_state where
  "initial_hash =
     (root_fraction 2 2, root_fraction 2 3, root_fraction 2 5, root_fraction 2 7,
      root_fraction 2 11, root_fraction 2 13, root_fraction 2 17, root_fraction 2 19)"

fun digest :: "hash_state \<Rightarrow> string" where
  "digest (a, b, c, d, e, f, g, h) = concat (map (\<lambda>w. bytes_of 4 (unat w)) [a, b, c, d, e, f, g, h])"

definition sha256 :: "string \<Rightarrow> string" where
  "sha256 s = digest (foldl hash_block initial_hash (chunks 64 (pad s)))"

subsection \<open>Lengths\<close>

lemma length_bytes_of [simp]: "length (bytes_of n x) = n"
  by (simp add: bytes_of_def)

lemma pad_zeroes:
  fixes r :: nat
  assumes "r < 64"
  shows "64 dvd r + 9 + (119 - r) mod 64"
proof (cases "r \<le> 55")
  case True
  then obtain k where "55 = r + k" using le_Suc_ex by blast
  then have "119 - r = k + 64" "k < 64" and whole: "r + 9 + k = 64" by linarith+
  then have "(119 - r) mod 64 = k" by simp
  then show ?thesis by (simp only: whole dvd_refl)
next
  case False
  then have "119 - r < 64" "r + 9 + (119 - r) = 128" using assms by linarith+
  then show ?thesis by simp
qed

lemma length_pad: "64 dvd length (pad s)"
proof -
  have "64 dvd 64 * (length s div 64) + (length s mod 64 + 9 + (119 - length s mod 64) mod 64)"
    by (intro dvd_add dvd_triv_left pad_zeroes) simp
  moreover have "length (pad s) = 64 * (length s div 64) + (length s mod 64 + 9 + (119 - length s mod 64) mod 64)"
    by (simp add: pad_def)
  ultimately show ?thesis by simp
qed

lemma length_sha256: "length (sha256 s) = 32"
  unfolding sha256_def by (rule digest.cases [of "foldl hash_block initial_hash (chunks 64 (pad s))"]) simp

end
