(* ===== verification/Idempotency.thy ===== *)
theory Idempotency
  imports Sha256 Handlers
begin

section \<open>middleware\_idempotency.go: replaying stored responses\<close>

text \<open>
  The middleware runs the next handler behind a writer that also records status and body, and
  stores both under a hash of key, user and body; a later request with the same three gets the
  stored response and the handler does not run.
\<close>

subsection \<open>The recording writer\<close>

text \<open>
  \<open>responseBufferInterceptor\<close> passes every call on to the writer it embeds and keeps the status
  and a copy of the body.
\<close>

record responseBufferInterceptor =
  ResponseWriter :: writer
  statusCode :: int
  bodyBuffer :: string

fun icpt_step :: "responseBufferInterceptor \<Rightarrow> wr_call \<Rightarrow> responseBufferInterceptor" where
  "icpt_step i (SetHeader k v) = i\<lparr>ResponseWriter := wr_step (ResponseWriter i) (SetHeader k v)\<rparr>"
| "icpt_step i (WriteHeader code) =
     i\<lparr>statusCode := code, ResponseWriter := wr_step (ResponseWriter i) (WriteHeader code)\<rparr>"
| "icpt_step i (WriteBody b) =
     i\<lparr>statusCode := (if statusCode i = 0 then 200 else statusCode i),
       bodyBuffer := bodyBuffer i @ b,
       ResponseWriter := wr_step (ResponseWriter i) (WriteBody b)\<rparr>"

definition icpt_run :: "wr_call list \<Rightarrow> responseBufferInterceptor" where
  "icpt_run calls = foldl icpt_step \<lparr>ResponseWriter = new_writer, statusCode = 0, bodyBuffer = []\<rparr> calls"

subsection \<open>The middleware\<close>

definition hex_encode :: "string \<Rightarrow> string" where
  "hex_encode s = concat (map (\<lambda>c. [hex_digit (of_char c div 16), hex_digit (of_char c mod 16)]) s)"

definition idempotency_raw_key :: "request \<Rightarrow> string" where
  "idempotency_raw_key r =
     (if Header r ''X-Idempotency-Key'' = [] then Header r ''Idempotency-Key''
      else Header r ''X-Idempotency-Key'')"

definition idempotency_user :: "'d deps \<Rightarrow> request \<Rightarrow> uuid option" where
  "idempotency_user X r =
     (case Claims r of
        Inl err \<Rightarrow> None
      | Inr claims \<Rightarrow>
          uuid_Parse X (case claims ''user_id'' of Some (JString userIDStr) \<Rightarrow> userIDStr | _ \<Rightarrow> []))"

definition compound_hash :: "'d deps \<Rightarrow> string \<Rightarrow> uuid \<Rightarrow> string \<Rightarrow> string" where
  "compound_hash X rawKey userID bodyPayload =
     hex_encode (sha256 (rawKey @ uuid_String X userID @ bodyPayload))"

definition replay :: "IdempotencyKey \<Rightarrow> wr_call list" where
  "replay cachedKey =
     [SetHeader ''X-Cache-Idempotency'' ''HIT'', SetHeader ''Content-Type'' ''application/json'',
      WriteHeader (sint (idk_ResponseCode cachedKey)), WriteBody (idk_ResponseBody cachedKey)]"

text \<open>\<open>bytes.Buffer.Bytes()\<close>: the nil slice when nothing was written.\<close>

definition buffer_bytes :: "string \<Rightarrow> string option" where
  "buffer_bytes b = (if b = [] then None else Some b)"

definition IdempotencyMiddleware ::
  "'d deps \<Rightarrow> world \<Rightarrow> (request \<Rightarrow> (wr_call list) answer) \<Rightarrow> request \<Rightarrow> (wr_call list) answer" where
  "IdempotencyMiddleware X W next_handler r s =
     (if Method r \<noteq> ''POST'' \<and> Method r \<noteq> ''PUT'' \<and> Method r \<noteq> ''PATCH'' then next_handler r s
      else if idempotency_raw_key r = [] then next_handler r s
      else
     (case idempotency_user X r of
        None \<Rightarrow> next_handler r s
      | Some userID \<Rightarrow>
     (let compoundHash = compound_hash X (idempotency_raw_key r) userID (Body r) in
     (case GetIdempotencyKey W Pool \<lparr>gik_ID = compoundHash, gik_UserID = userID\<rparr> s of
        (Inr cachedKey, s1) \<Rightarrow> (replay cachedKey, s1)
      | (Inl dbErr, s1) \<Rightarrow>
     (case next_handler r s1 of (calls, s2) \<Rightarrow>
     (let i = icpt_run calls;
          status = (if statusCode i = 0 then 200 else statusCode i)
      in if status < 500
         then (case CreateIdempotencyKey W Pool
                      \<lparr>cik_ID = compoundHash, cik_UserID = userID,
                       cik_ResponseCode = word_of_int status,
                       cik_ResponseBody = buffer_bytes (bodyBuffer i)\<rparr> s2 of
                 (_, s3) \<Rightarrow> (calls, s3))
         else (calls, s2)))))))"

subsection \<open>The recording writer is transparent\<close>

lemma icpt_writer:
  "ResponseWriter (foldl icpt_step i calls) = foldl wr_step (ResponseWriter i) calls"
proof (induction calls arbitrary: i)
  case Nil
  then show ?case by simp
next
  case (Cons c calls)
  then show ?case by (cases c) simp_all
qed

lemma icpt_run_writer: "ResponseWriter (icpt_run calls) = wr_run new_writer calls"
  by (simp add: icpt_run_def wr_run_def icpt_writer)

lemma icpt_body:
  "bodyBuffer (foldl icpt_step i calls) = bodyBuffer i @ concat (map (\<lambda>c. case c of WriteBody b \<Rightarrow> b | _ \<Rightarrow> []) calls)"
proof (induction calls arbitrary: i)
  case Nil
  then show ?case by simp
next
  case (Cons c calls)
  then show ?case by (cases c) simp_all
qed

lemma wr_body:
  "written (foldl wr_step w calls) = written w @ concat (map (\<lambda>c. case c of WriteBody b \<Rightarrow> b | _ \<Rightarrow> []) calls)"
proof (induction calls arbitrary: w)
  case Nil
  then show ?case by simp
next
  case (Cons c calls)
  then show ?case by (cases c) (simp_all add: Let_def split: option.split)
qed

text \<open>
  A handler that sends its status line once and before the body is recorded as it was sent.
\<close>

fun sends_once :: "bool \<Rightarrow> wr_call list \<Rightarrow> bool" where
  "sends_once started [] = True"
| "sends_once started (SetHeader k v # calls) = sends_once started calls"
| "sends_once started (WriteHeader code # calls) = (\<not> started \<and> code \<noteq> 0 \<and> sends_once True calls)"
| "sends_once started (WriteBody b # calls) = sends_once True calls"

definition recorded :: "responseBufferInterceptor \<Rightarrow> bool" where
  "recorded i \<longleftrightarrow>
     (case sent (ResponseWriter i) of None \<Rightarrow> statusCode i = 0
      | Some (code, _) \<Rightarrow> statusCode i = code \<and> code \<noteq> 0)"

lemma icpt_recorded:
  "recorded i \<Longrightarrow> sends_once (sent (ResponseWriter i) \<noteq> None) calls \<Longrightarrow> recorded (foldl icpt_step i calls)"
proof (induction calls arbitrary: i)
  case Nil
  then show ?case by simp
next
  case (Cons c calls)
  show ?case
  proof (cases c)
    case (SetHeader k v)
    with Cons.prems have "recorded (icpt_step i c)" "sends_once (sent (ResponseWriter (icpt_step i c)) \<noteq> None) calls"
      by (auto simp: recorded_def split: option.splits)
    from Cons.IH [OF this] show ?thesis by simp
  next
    case (WriteHeader code)
    with Cons.prems have "recorded (icpt_step i c)" "sends_once (sent (ResponseWriter (icpt_step i c)) \<noteq> None) calls"
      by (auto simp: recorded_def split: option.splits)
    from Cons.IH [OF this] show ?thesis by simp
  next
    case (WriteBody b)
    with Cons.prems have "recorded (icpt_step i c)" "sends_once (sent (ResponseWriter (icpt_step i c)) \<noteq> None) calls"
      by (auto simp: recorded_def Let_def split: option.splits)
    from Cons.IH [OF this] show ?thesis by simp
  qed
qed

lemma icpt_status:
  assumes "sends_once False calls"
  shows "(if statusCode (icpt_run calls) = 0 then 200 else statusCode (icpt_run calls)) = client_status calls"
proof -
  have "recorded (icpt_run calls)"
    unfolding icpt_run_def
    by (rule icpt_recorded) (simp_all add: recorded_def new_writer_def assms)
  then show ?thesis
    by (auto simp: recorded_def icpt_run_writer client_status_def split: option.splits)
qed

lemma icpt_client_body: "bodyBuffer (icpt_run calls) = client_body calls"
  by (simp add: icpt_run_def client_body_def wr_run_def icpt_body wr_body new_writer_def)

text \<open>What \<open>replay\<close> sends.\<close>

lemma replay_client:
  "client_status (replay k) = sint (idk_ResponseCode k)" "client_body (replay k) = idk_ResponseBody k"
  by (simp_all add: replay_def client_status_def client_body_def wr_run_def new_writer_def)

lemma sint_status: "0 \<le> code \<Longrightarrow> code < 500 \<Longrightarrow> sint (word_of_int code :: 32 word) = code"
  by (simp add: sint_sbintrunc' signed_take_bit_int_eq_self)

end
