(* ===== verification/Handler_Relations.thy ===== *)
theory Handler_Relations
  imports Idempotency
begin

section \<open>What a request does to the session, from what its calls do\<close>

text \<open>
  A handler is a sequence of calls on the store and the ledger service. A reflexive and
  transitive relation between the sessions before and after each of those calls therefore also
  holds between the sessions before and after the handler, the idempotency middleware and the
  route. The locales name the calls; the relations they are used for are the ledger steps
  (\<open>Api_Safety\<close>), the idempotency table (\<open>Api_Behaviour\<close>) and, below, the passing of time.
\<close>

subsection \<open>The protected handlers\<close>

locale handler_rel = session_rel R for R :: "session \<Rightarrow> session \<Rightarrow> bool" +
  fixes W :: world and X :: "'d deps"
  assumes reads:
      "GetAccount W Pool i s = (x1, s') \<Longrightarrow> R s s'"
      "GetAccountBalance W Pool i s = (x2, s') \<Longrightarrow> R s s'"
      "ListAccountsByOwner W Pool ow s = (x3, s') \<Longrightarrow> R s s'"
      "ListEntriesByAccount W Pool lp s = (x4, s') \<Longrightarrow> R s s'"
      "ListEntriesByTransaction W Pool tx s = (x5, s') \<Longrightarrow> R s s'"
    and new_account:
      "CreateAccount W Pool \<lparr>cap_OwnerID = Some u, cap_Name = nm, cap_Currency = ''USD'', cap_IsSystem = False\<rparr> s
         = (x1, s') \<Longrightarrow> R s s'"
begin

lemma load_own_account_rel: "load_own_account W nf u i s = (x, s') \<Longrightarrow> R s s'"
  by (auto simp: load_own_account_def split: prod.splits sum.splits if_splits dest: reads(1))

lemma authorize_entries_rel: "authorize_entries W u es s = (x, s') \<Longrightarrow> R s s'"
proof (induction es arbitrary: s)
  case Nil
  then show ?case by (simp add: refl)
next
  case (Cons e es)
  then show ?case
    by (auto split: prod.splits sum.splits if_splits dest: reads(1) intro: trans)
qed

lemma ReconcileAccount_rel: "ReconcileAccount X W i s = (x, s') \<Longrightarrow> R s s'"
  by (auto simp: ReconcileAccount_def and_then_def wrap_err_def return_simps
      split: prod.splits sum.splits option.splits if_splits
      dest: reads(1) reads(2) intro: trans)

lemmas call_rel = reads new_account load_own_account_rel authorize_entries_rel ReconcileAccount_rel

lemma account_handlers_rel:
  "Handler_CreateAccount X W r s = (x, s') \<Longrightarrow> R s s'"
  "Handler_ListAccounts X W r s = (x, s') \<Longrightarrow> R s s'"
  "Handler_GetAccount X W r s = (x, s') \<Longrightarrow> R s s'"
  by (auto simp: Handler_CreateAccount_def Handler_ListAccounts_def Handler_GetAccount_def
      split: prod.splits sum.splits option.splits if_splits dest: call_rel intro: refl trans)

lemma entries_handlers_rel:
  "Handler_GetEntries X W r s = (x, s') \<Longrightarrow> R s s'"
  "Handler_GetTransactions X W r s = (x, s') \<Longrightarrow> R s s'"
  "Handler_ReconcileAccount X W r s = (x, s') \<Longrightarrow> R s s'"
  by (auto simp: Handler_GetEntries_def Handler_GetTransactions_def Handler_ReconcileAccount_def
      split: prod.splits sum.splits option.splits if_splits dest: call_rel intro: refl trans)

end

text \<open>The handlers that move money, when every operation on money keeps the relation.\<close>

locale protected_rel = handler_rel R W X for R :: "session \<Rightarrow> session \<Rightarrow> bool" and W :: world and X :: "'d deps" +
  assumes money:
      "Deposit X W i a s = (y, s') \<Longrightarrow> R s s'"
      "Withdraw X W i a s = (y, s') \<Longrightarrow> R s s'"
      "Transfer X W i j a s = (y, s') \<Longrightarrow> R s s'"
begin

lemma money_handlers_rel:
  "Handler_Deposit X W r s = (x, s') \<Longrightarrow> R s s'"
  "Handler_Withdraw X W r s = (x, s') \<Longrightarrow> R s s'"
  "Handler_Transfer X W r s = (x, s') \<Longrightarrow> R s s'"
  by (auto simp: Handler_Deposit_def Handler_Withdraw_def Handler_Transfer_def Let_def
      split: prod.splits sum.splits option.splits if_splits dest: call_rel money intro: refl trans)

end

subsection \<open>Registration, login and the response cache\<close>

locale public_rel = session_rel R for R :: "session \<Rightarrow> session \<Rightarrow> bool" +
  fixes W :: world and X :: "'d deps"
  assumes user_calls:
      "CreateUser W Pool cu s = (x1, s') \<Longrightarrow> R s s'"
      "GetUserByEmail W Pool email s = (x2, s') \<Longrightarrow> R s s'"
    and key_calls:
      "CreateIdempotencyKey W Pool ck s = (x3, s') \<Longrightarrow> R s s'"
      "GetIdempotencyKey W Pool gk s = (x3, s') \<Longrightarrow> R s s'"
    and one_tick: "R s (s\<lparr>tick := Suc (tick s)\<rparr>)"
begin

lemma GenerateToken_rel: "GenerateToken X W ta u s = (x, s') \<Longrightarrow> R s s'"
  by (auto simp: GenerateToken_def Let_def split: option.splits intro: refl one_tick)

lemma user_handlers_rel:
  "Handler_Register X W ta r s = (x, s') \<Longrightarrow> R s s'"
  "Handler_Login X W ta r s = (x, s') \<Longrightarrow> R s s'"
  by (auto simp: Handler_Register_def Handler_Login_def split: prod.splits sum.splits option.splits if_splits
      dest: user_calls GenerateToken_rel intro: refl trans)

lemma IdempotencyMiddleware_rel:
  assumes "\<And>s x s'. next_handler r s = (x, s') \<Longrightarrow> R s s'"
    and "IdempotencyMiddleware X W next_handler r s = (x, s')"
  shows "R s s'"
  using assms(2)
  by (auto simp: IdempotencyMiddleware_def Let_def split: prod.splits sum.splits option.splits if_splits
      dest!: key_calls assms(1)) (meson trans)+

end

locale api_rel = protected_rel R W X + public_rel R W X
  for R :: "session \<Rightarrow> session \<Rightarrow> bool" and W :: world and X :: "'d deps"

subsection \<open>Time passes\<close>

text \<open>No call takes the session back in the sequence of calls.\<close>

definition later :: "session \<Rightarrow> session \<Rightarrow> bool" where
  "later s s' \<longleftrightarrow> tick s \<le> tick s'"

interpretation passing: session_rel later
  by unfold_locales (simp_all add: later_def)

lemma statements_later: "stays later (run_stmt W q st)" "stays later (uuid_New W)"
  by (rule staysI, auto simp: later_def run_stmt_def uuid_New_def Let_def
      split: sum.splits fault.splits prod.splits)+

lemma run_stmt_later: "run_stmt W q st s = (r, s') \<Longrightarrow> later s s'"
  by (rule staysD [OF statements_later(1)])

lemma execTxOnce_later: "stays later fn \<Longrightarrow> execTxOnce W fn s = (r, s') \<Longrightarrow> later s s'"
  by (fastforce dest: staysD simp: later_def execTxOnce_def Let_def split: fault.splits sum.splits prod.splits)

lemma ExecTx_later:
  assumes "stays later fn" and "ExecTx W fn s = (r, s')"
  shows "later s s'"
  using assms(2) [unfolded ExecTx_run]
proof (induction rule: retry_run.induct)
  case (run_retry a s e s1 u s2 r s' le)
  have "later s1 s2"
    using run_retry.hyps(4) by (auto simp: later_def sleepWithContext_def split: option.splits)
  with execTxOnce_later [OF assms(1) run_retry.hyps(2)] run_retry.IH show ?case by (blast intro: passing.trans)
next
  case (run_last a s e s1 r s' le)
  with execTxOnce_later [OF assms(1) run_last.hyps(2)] show ?case by (blast intro: passing.trans)
next
  case (run_cancelled a s e s1 we s2 le)
  have "later s1 s2"
    using run_cancelled.hyps by (auto simp: later_def sleepWithContext_def split: option.splits)
  with execTxOnce_later [OF assms(1) run_cancelled.hyps(2)] show ?case by (blast intro: passing.trans)
qed (use execTxOnce_later [OF assms(1)] passing.refl in \<open>auto\<close>)

lemma callbacks_later:
  "stays later (deposit_tx X (in_tx W) accountID amount)"
  "stays later (withdraw_tx X (in_tx W) accountID amount)"
  "stays later (transfer_tx X (in_tx W) fromID toID amount)"
  unfolding deposit_tx_run withdraw_tx_run transfer_tx_run query_defs
  by (intro passing.stays_intros statements_later)+

lemma money_later:
  "Deposit X W i a s = (y, s') \<Longrightarrow> later s s'"
  "Withdraw X W i a s = (y, s') \<Longrightarrow> later s s'"
  "Transfer X W i j a s = (y, s') \<Longrightarrow> later s s'"
  by (auto simp: Deposit_def Withdraw_def Transfer_def return_simps passing.refl split: sum.splits if_splits
      dest: ExecTx_later [OF callbacks_later(1)] ExecTx_later [OF callbacks_later(2)]
        ExecTx_later [OF callbacks_later(3)])

interpretation passing: api_rel later W X for W and X :: "'d deps"
proof
  show "later s (s\<lparr>tick := Suc (tick s)\<rparr>)" for s by (simp add: later_def)
qed (simp_all only: query_defs run_stmt_later money_later)

end
