(* ===== verification/Ledger_Spec.thy ===== *)
theory Ledger_Spec
  imports Queries
begin

section \<open>What the ledger promises: postings, steps of the database, the invariant\<close>

text \<open>
  The abstract side of the development. \<open>posting src dst n\<close> is the only way money moves: two
  opposite entries of \<open>n\<close> ten-thousandths under one transaction identifier, \<open>n\<close> taken from
  the balance of \<open>src\<close> and added to that of \<open>dst\<close>. \<open>db_step\<close> is one committed change the
  service may make, \<open>ledger_inv\<close> the invariant of a double-entry ledger, and the main result
  of this theory is that every step keeps it, from the database the migrations create.
\<close>

subsection \<open>Balances\<close>

definition add_balance :: "uuid \<Rightarrow> int \<Rightarrow> database \<Rightarrow> database" where
  "add_balance ident n d =
     d\<lparr>accounts := map (\<lambda>r. if acc_ID r = ident then r\<lparr>acc_Balance := acc_Balance r + n\<rparr> else r)
                       (accounts d)\<rparr>"

definition account_of :: "database \<Rightarrow> uuid \<Rightarrow> int Account option" where
  "account_of d ident = find (\<lambda>a. acc_ID a = ident) (accounts d)"

definition balance_of :: "database \<Rightarrow> uuid \<Rightarrow> int option" where
  "balance_of d ident = map_option acc_Balance (account_of d ident)"

definition total_balance :: "database \<Rightarrow> int" where
  "total_balance d = (\<Sum>a\<leftarrow>accounts d. acc_Balance a)"

lemma add_balance_simps [simp]:
  "users (add_balance i n d) = users d" "entries (add_balance i n d) = entries d"
  "idempotency_keys (add_balance i n d) = idempotency_keys d"
  "map acc_ID (accounts (add_balance i n d)) = map acc_ID (accounts d)"
  by (simp_all add: add_balance_def)

lemma ids_add_balance [simp]:
  "acc_ID ` set (accounts (add_balance i n d)) = acc_ID ` set (accounts d)"
  by (metis add_balance_simps(4) list.set_map)

lemma add_balance_commute: "add_balance i m (add_balance j n d) = add_balance j n (add_balance i m d)"
  by (simp add: add_balance_def)

lemma add_balance_accounts:
  "accounts (add_balance i n d)
   = map (\<lambda>r. if acc_ID r = i then r\<lparr>acc_Balance := acc_Balance r + n\<rparr> else r) (accounts d)"
  by (simp add: add_balance_def)

lemma in_add_balance:
  "b \<in> set (accounts (add_balance i n d)) \<longleftrightarrow>
     (\<exists>a \<in> set (accounts d). b = (if acc_ID a = i then a\<lparr>acc_Balance := acc_Balance a + n\<rparr> else a))"
  unfolding add_balance_accounts list.set_map by blast

lemma is_settlement_balance [simp]: "is_settlement (a\<lparr>acc_Balance := b\<rparr>) = is_settlement a"
  by (simp add: is_settlement_def)

lemma account_of_add_balance:
  "account_of (add_balance i n d) j
   = map_option (\<lambda>a. if i = j then a\<lparr>acc_Balance := acc_Balance a + n\<rparr> else a) (account_of d j)"
proof -
  have "find (\<lambda>a. acc_ID a = j) (map (\<lambda>r. if acc_ID r = i then r\<lparr>acc_Balance := acc_Balance r + n\<rparr> else r) as)
      = map_option (\<lambda>a. if i = j then a\<lparr>acc_Balance := acc_Balance a + n\<rparr> else a)
          (find (\<lambda>a. acc_ID a = j) as)" for as :: "int Account list"
    by (induction as) auto
  then show ?thesis by (simp add: account_of_def add_balance_accounts)
qed

lemma balance_of_add_balance:
  "balance_of (add_balance i n d) j
   = (if i = j then map_option (\<lambda>b. b + n) (balance_of d j) else balance_of d j)"
  by (simp add: balance_of_def account_of_add_balance option.map_comp comp_def)

lemma account_of_SomeD: "account_of d i = Some a \<Longrightarrow> a \<in> set (accounts d) \<and> acc_ID a = i"
  unfolding account_of_def by (drule find_SomeD) simp

lemma account_of_mem: "account_of d i = Some a \<Longrightarrow> i \<in> acc_ID ` set (accounts d)"
  by (auto dest!: account_of_SomeD)

lemma account_of_in:
  "distinct (map acc_ID (accounts d)) \<Longrightarrow> a \<in> set (accounts d) \<Longrightarrow> account_of d (acc_ID a) = Some a"
  unfolding account_of_def by (rule find_distinct_key)

lemma total_add_balance:
  assumes "distinct (map acc_ID (accounts d))" and "i \<in> acc_ID ` set (accounts d)"
  shows "total_balance (add_balance i n d) = total_balance d + n"
proof -
  obtain a where a: "a \<in> set (accounts d)" "acc_ID a = i" using assms(2) by auto
  show ?thesis
    using sum_list_map_update_key [OF assms(1) a(1), of acc_Balance "\<lambda>r. r\<lparr>acc_Balance := acc_Balance r + n\<rparr>"]
    by (simp add: total_balance_def add_balance_accounts a(2))
qed

subsection \<open>Entries\<close>

text \<open>Credits minus debits of one transaction; \<open>entry_sum\<close> is the same of one account.\<close>

definition transaction_sum :: "uuid \<Rightarrow> int Entry list \<Rightarrow> int" where
  "transaction_sum tx es =
     (\<Sum>e\<leftarrow>filter (\<lambda>e. ent_TransactionID e = tx) es. ent_Credit e)
     - (\<Sum>e\<leftarrow>filter (\<lambda>e. ent_TransactionID e = tx) es. ent_Debit e)"

lemma entry_sum_append: "entry_sum i (es @ fs) = entry_sum i es + entry_sum i fs"
  by (simp add: entry_sum_def)

lemma transaction_sum_append: "transaction_sum t (es @ fs) = transaction_sum t es + transaction_sum t fs"
  by (simp add: transaction_sum_def)

lemma entry_sum_Cons [simp]:
  "entry_sum i [] = 0"
  "entry_sum i (e # es) = (if ent_AccountID e = i then ent_Credit e - ent_Debit e else 0) + entry_sum i es"
  by (simp_all add: entry_sum_def)

lemma transaction_sum_Cons [simp]:
  "transaction_sum t [] = 0"
  "transaction_sum t (e # es)
   = (if ent_TransactionID e = t then ent_Credit e - ent_Debit e else 0) + transaction_sum t es"
  by (simp_all add: transaction_sum_def)

lemma entry_sum_none: "i \<notin> ent_AccountID ` set es \<Longrightarrow> entry_sum i es = 0"
  by (induction es) auto

definition debit_leg :: "uuid \<Rightarrow> int \<Rightarrow> uuid \<Rightarrow> string \<Rightarrow> int Entry \<Rightarrow> bool" where
  "debit_leg ident n tx opt e \<longleftrightarrow>
     ent_AccountID e = ident \<and> ent_Debit e = n \<and> ent_Credit e = 0
     \<and> ent_TransactionID e = tx \<and> ent_OperationType e = opt"

definition credit_leg :: "uuid \<Rightarrow> int \<Rightarrow> uuid \<Rightarrow> string \<Rightarrow> int Entry \<Rightarrow> bool" where
  "credit_leg ident n tx opt e \<longleftrightarrow>
     ent_AccountID e = ident \<and> ent_Debit e = 0 \<and> ent_Credit e = n
     \<and> ent_TransactionID e = tx \<and> ent_OperationType e = opt"

definition posting_legs :: "uuid \<Rightarrow> uuid \<Rightarrow> int \<Rightarrow> uuid \<Rightarrow> string \<Rightarrow> int Entry \<Rightarrow> int Entry \<Rightarrow> bool" where
  "posting_legs src dst n tx opt e1 e2 \<longleftrightarrow>
     (debit_leg src n tx opt e1 \<and> credit_leg dst n tx opt e2)
     \<or> (credit_leg dst n tx opt e1 \<and> debit_leg src n tx opt e2)"

definition posting :: "string \<Rightarrow> uuid \<Rightarrow> uuid \<Rightarrow> int \<Rightarrow> database \<Rightarrow> database \<Rightarrow> bool" where
  "posting opt src dst n d d' \<longleftrightarrow>
     0 < n \<and> src \<in> acc_ID ` set (accounts d) \<and> dst \<in> acc_ID ` set (accounts d)
     \<and> (\<exists>tx e1 e2. posting_legs src dst n tx opt e1 e2
          \<and> ent_ID e1 \<notin> ent_ID ` set (entries d) \<and> ent_ID e2 \<notin> ent_ID ` set (entries d)
          \<and> ent_ID e1 \<noteq> ent_ID e2
          \<and> d' = (add_balance src (- n) (add_balance dst n d))\<lparr>entries := entries d @ [e1, e2]\<rparr>)"

lemma postingI:
  "0 < n \<Longrightarrow> src \<in> acc_ID ` set (accounts d) \<Longrightarrow> dst \<in> acc_ID ` set (accounts d) \<Longrightarrow>
   posting_legs src dst n tx opt e1 e2 \<Longrightarrow> ent_ID e1 \<notin> ent_ID ` set (entries d) \<Longrightarrow>
   ent_ID e2 \<notin> ent_ID ` set (entries d) \<Longrightarrow> ent_ID e1 \<noteq> ent_ID e2 \<Longrightarrow>
   posting opt src dst n d ((add_balance src (- n) (add_balance dst n d))\<lparr>entries := entries d @ [e1, e2]\<rparr>)"
  unfolding posting_def by blast

definition in_range :: "database \<Rightarrow> bool" where
  "in_range d \<longleftrightarrow> (\<forall>a \<in> set (accounts d). \<bar>acc_Balance a\<bar> < numeric_limit)"

subsection \<open>Steps\<close>

text \<open>
  One committed change. The posting's guard is the business rule: only the settlement account,
  which stands for the outside world, may go below zero.
\<close>

inductive db_step :: "database \<Rightarrow> database \<Rightarrow> bool" where
  step_user:
    "usr_ID u \<notin> usr_ID ` set (users d) \<Longrightarrow> usr_Email u \<notin> usr_Email ` set (users d) \<Longrightarrow>
     db_step d (d\<lparr>users := users d @ [u]\<rparr>)"
| step_account:
    "acc_ID a \<notin> acc_ID ` set (accounts d) \<Longrightarrow> acc_OwnerID a = Some ow \<Longrightarrow> ow \<in> usr_ID ` set (users d) \<Longrightarrow>
     acc_Balance a = 0 \<Longrightarrow> acc_Currency a = ''USD'' \<Longrightarrow> \<not> acc_IsSystem a \<Longrightarrow>
     db_step d (d\<lparr>accounts := accounts d @ [a]\<rparr>)"
| step_posting:
    "posting opt src dst n d d' \<Longrightarrow> account_of d src = Some a \<Longrightarrow>
     is_settlement a \<or> n \<le> acc_Balance a \<Longrightarrow> in_range d' \<Longrightarrow> db_step d d'"
| step_key:
    "idk_ID k \<notin> idk_ID ` set (idempotency_keys d) \<Longrightarrow>
     db_step d (d\<lparr>idempotency_keys := idempotency_keys d @ [k]\<rparr>)"

text \<open>Any number of steps.\<close>

inductive db_steps :: "database \<Rightarrow> database \<Rightarrow> bool" where
  steps_refl: "db_steps d d"
| steps_step: "db_steps d d' \<Longrightarrow> db_step d' d'' \<Longrightarrow> db_steps d d''"

lemma db_steps_trans: "db_steps d' d'' \<Longrightarrow> db_steps d d' \<Longrightarrow> db_steps d d''"
  by (induction rule: db_steps.induct) (auto intro: db_steps.intros)

lemma db_steps_one: "db_step d d' \<Longrightarrow> db_steps d d'"
  by (blast intro: db_steps.intros)

subsection \<open>The invariant\<close>

definition keys_ok :: "database \<Rightarrow> bool" where
  "keys_ok d \<longleftrightarrow> distinct (map usr_ID (users d)) \<and> distinct (map usr_Email (users d))
     \<and> distinct (map acc_ID (accounts d)) \<and> distinct (map ent_ID (entries d))
     \<and> distinct (map idk_ID (idempotency_keys d))"

definition refs_ok :: "database \<Rightarrow> bool" where
  "refs_ok d \<longleftrightarrow> ent_AccountID ` set (entries d) \<subseteq> acc_ID ` set (accounts d)
     \<and> (\<forall>a \<in> set (accounts d). \<forall>ow. acc_OwnerID a = Some ow \<longrightarrow> ow \<in> usr_ID ` set (users d))"

definition entries_ok :: "database \<Rightarrow> bool" where
  "entries_ok d \<longleftrightarrow> (\<forall>e \<in> set (entries d). single_sided (ent_Debit e) (ent_Credit e))"

text \<open>The cached balance of every account is what its entries add up to.\<close>

definition cache_ok :: "database \<Rightarrow> bool" where
  "cache_ok d \<longleftrightarrow> (\<forall>a \<in> set (accounts d). acc_Balance a = entry_sum (acc_ID a) (entries d))"

definition transactions_ok :: "database \<Rightarrow> bool" where
  "transactions_ok d \<longleftrightarrow> (\<forall>tx. transaction_sum tx (entries d) = 0)"

definition solvent :: "database \<Rightarrow> bool" where
  "solvent d \<longleftrightarrow> (\<forall>a \<in> set (accounts d). is_settlement a \<or> 0 \<le> acc_Balance a)"

text \<open>Exactly one account is the system's: the settlement account, which nobody owns.\<close>

definition settlement_ok :: "database \<Rightarrow> bool" where
  "settlement_ok d \<longleftrightarrow>
     (\<exists>ident. \<forall>a \<in> set (accounts d). (acc_IsSystem a \<longleftrightarrow> acc_ID a = ident)
        \<and> (acc_IsSystem a \<longleftrightarrow> is_settlement a) \<and> (acc_IsSystem a \<longleftrightarrow> acc_OwnerID a = None))
     \<and> (\<exists>a \<in> set (accounts d). is_settlement a)"

definition currency_ok :: "database \<Rightarrow> bool" where
  "currency_ok d \<longleftrightarrow> (\<forall>a \<in> set (accounts d). acc_Currency a = ''USD'')"

definition ledger_inv :: "database \<Rightarrow> bool" where
  "ledger_inv d \<longleftrightarrow> keys_ok d \<and> refs_ok d \<and> entries_ok d \<and> cache_ok d \<and> transactions_ok d
     \<and> total_balance d = 0 \<and> solvent d \<and> settlement_ok d \<and> currency_ok d \<and> in_range d"

lemmas inv_defs = keys_ok_def refs_ok_def entries_ok_def cache_ok_def transactions_ok_def
  total_balance_def solvent_def currency_ok_def in_range_def

text \<open>The database after the migrations: the settlement account and nothing else.\<close>

definition migrated :: "uuid \<Rightarrow> time \<Rightarrow> database" where
  "migrated u t =
     \<lparr>users = [],
      accounts = [\<lparr>acc_ID = u, acc_OwnerID = None, acc_Name = ''Settlement Account'', acc_Balance = 0,
                   acc_Currency = ''USD'', acc_IsSystem = True, acc_CreatedAt = Some t\<rparr>],
      entries = [], idempotency_keys = []\<rparr>"

lemma migrated_inv: "ledger_inv (migrated u t)"
  by (simp add: ledger_inv_def inv_defs settlement_ok_def migrated_def is_settlement_def numeric_limit_def)

subsection \<open>Every step keeps the invariant\<close>

lemma user_step_inv:
  "ledger_inv d \<Longrightarrow> usr_ID u \<notin> usr_ID ` set (users d) \<Longrightarrow> usr_Email u \<notin> usr_Email ` set (users d) \<Longrightarrow>
   ledger_inv (d\<lparr>users := users d @ [u]\<rparr>)"
  by (auto simp: ledger_inv_def inv_defs settlement_ok_def)

lemma key_step_inv:
  "ledger_inv d \<Longrightarrow> idk_ID k \<notin> idk_ID ` set (idempotency_keys d) \<Longrightarrow>
   ledger_inv (d\<lparr>idempotency_keys := idempotency_keys d @ [k]\<rparr>)"
  by (auto simp: ledger_inv_def inv_defs settlement_ok_def)

lemma account_step_inv:
  assumes "ledger_inv d" and fresh: "acc_ID a \<notin> acc_ID ` set (accounts d)"
    and a: "acc_OwnerID a = Some ow" "ow \<in> usr_ID ` set (users d)" "acc_Balance a = 0"
      "acc_Currency a = ''USD''" "\<not> acc_IsSystem a"
  shows "ledger_inv (d\<lparr>accounts := accounts d @ [a]\<rparr>)"
proof -
  let ?d = "d\<lparr>accounts := accounts d @ [a]\<rparr>"
  from assms(1) have inv: "keys_ok d" "refs_ok d" "entries_ok d" "cache_ok d" "transactions_ok d"
    "total_balance d = 0" "solvent d" "settlement_ok d" "currency_ok d" "in_range d"
    by (simp_all add: ledger_inv_def)
  have "acc_ID a \<notin> ent_AccountID ` set (entries d)"
    using inv(2) fresh by (auto simp: refs_ok_def)
  then have "entry_sum (acc_ID a) (entries d) = 0" by (rule entry_sum_none)
  with inv(4) a(3) have "cache_ok ?d" by (simp add: cache_ok_def)
  moreover have "settlement_ok ?d"
  proof -
    from inv(8) obtain ident where "\<forall>b \<in> set (accounts d). (acc_IsSystem b \<longleftrightarrow> acc_ID b = ident)
        \<and> (acc_IsSystem b \<longleftrightarrow> is_settlement b) \<and> (acc_IsSystem b \<longleftrightarrow> acc_OwnerID b = None)"
      and "\<exists>b \<in> set (accounts d). is_settlement b"
      by (auto simp: settlement_ok_def)
    moreover from this have "acc_ID a \<noteq> ident" using fresh by (auto simp: is_settlement_def)
    ultimately show ?thesis using a by (auto simp: settlement_ok_def is_settlement_def)
  qed
  ultimately show ?thesis
    using inv fresh a by (auto simp: ledger_inv_def inv_defs numeric_limit_def)
qed

text \<open>What a posting changes, account by account.\<close>

definition posting_delta :: "uuid \<Rightarrow> uuid \<Rightarrow> int \<Rightarrow> uuid \<Rightarrow> int" where
  "posting_delta src dst n i = (if i = dst then n else 0) - (if i = src then n else 0)"

lemma posting_accounts:
  assumes "posting opt src dst n d d'"
  shows "accounts d' = map (\<lambda>a. a\<lparr>acc_Balance := acc_Balance a + posting_delta src dst n (acc_ID a)\<rparr>) (accounts d)"
  using assms by (auto simp: posting_def posting_delta_def add_balance_accounts)

lemma posting_frame:
  assumes "posting opt src dst n d d'"
  shows "users d' = users d" and "idempotency_keys d' = idempotency_keys d"
    and "map acc_ID (accounts d') = map acc_ID (accounts d)"
    and "\<exists>e1 e2. entries d' = entries d @ [e1, e2]"
  using assms by (auto simp: posting_def posting_accounts [OF assms])

lemma posting_legs_sums:
  assumes "posting_legs src dst n tx opt e1 e2"
  shows "entry_sum i [e1, e2] = posting_delta src dst n i" and "transaction_sum t [e1, e2] = 0"
  using assms unfolding posting_legs_def debit_leg_def credit_leg_def posting_delta_def
  by (elim disjE conjE; simp)+

lemma posting_entries:
  assumes "posting opt src dst n d d'"
  shows "entry_sum i (entries d') = entry_sum i (entries d) + posting_delta src dst n i"
    and "transaction_sum t (entries d') = transaction_sum t (entries d)"
  using assms posting_legs_sums by (auto simp: posting_def entry_sum_append transaction_sum_append)

lemma posting_balance_of:
  assumes "posting opt src dst n d d'"
  shows "balance_of d' i = map_option (\<lambda>b. b + posting_delta src dst n i) (balance_of d i)"
proof -
  have "balance_of d' i = balance_of (add_balance src (- n) (add_balance dst n d)) i"
    using assms by (auto simp: posting_def balance_of_def account_of_def)
  then show ?thesis
    by (cases "balance_of d i") (auto simp: balance_of_add_balance posting_delta_def)
qed

lemma posting_total:
  assumes "posting opt src dst n d d'" and "distinct (map acc_ID (accounts d))"
  shows "total_balance d' = total_balance d"
proof -
  have "total_balance d' = total_balance (add_balance src (- n) (add_balance dst n d))"
    using assms(1) by (auto simp: posting_def total_balance_def)
  then show ?thesis
    using assms by (simp add: total_add_balance posting_def)
qed

lemma posting_new_entries:
  assumes "posting opt src dst n d d'"
  obtains e1 e2 where "entries d' = entries d @ [e1, e2]"
    and "ent_ID e1 \<notin> ent_ID ` set (entries d)" and "ent_ID e2 \<notin> ent_ID ` set (entries d)"
    and "ent_ID e1 \<noteq> ent_ID e2" and "{ent_AccountID e1, ent_AccountID e2} \<subseteq> {src, dst}"
    and "single_sided (ent_Debit e1) (ent_Credit e1)" and "single_sided (ent_Debit e2) (ent_Credit e2)"
    and "src \<in> acc_ID ` set (accounts d)" and "dst \<in> acc_ID ` set (accounts d)"
proof -
  from assms obtain tx e1 e2 where n: "0 < n"
    and ids: "src \<in> acc_ID ` set (accounts d)" "dst \<in> acc_ID ` set (accounts d)"
    and legs: "posting_legs src dst n tx opt e1 e2"
    and new: "ent_ID e1 \<notin> ent_ID ` set (entries d)" "ent_ID e2 \<notin> ent_ID ` set (entries d)"
      "ent_ID e1 \<noteq> ent_ID e2"
    and d': "d' = (add_balance src (- n) (add_balance dst n d))\<lparr>entries := entries d @ [e1, e2]\<rparr>"
    unfolding posting_def by blast
  from legs n have "{ent_AccountID e1, ent_AccountID e2} \<subseteq> {src, dst}"
    and "single_sided (ent_Debit e1) (ent_Credit e1)" and "single_sided (ent_Debit e2) (ent_Credit e2)"
    by (auto simp: posting_legs_def debit_leg_def credit_leg_def single_sided_def)
  with ids new d' show ?thesis by (intro that [of e1 e2]) simp_all
qed

lemma posting_keys_refs:
  assumes "posting opt src dst n d d'" and "keys_ok d" and "refs_ok d" and "entries_ok d"
  shows "keys_ok d'" and "refs_ok d'" and "entries_ok d'"
proof -
  note frame = posting_frame(1-3) [OF assms(1)]
  obtain e1 e2 where e: "entries d' = entries d @ [e1, e2]"
    and new: "ent_ID e1 \<notin> ent_ID ` set (entries d)" "ent_ID e2 \<notin> ent_ID ` set (entries d)"
      "ent_ID e1 \<noteq> ent_ID e2" and acc: "{ent_AccountID e1, ent_AccountID e2} \<subseteq> {src, dst}"
    and single: "single_sided (ent_Debit e1) (ent_Credit e1)" "single_sided (ent_Debit e2) (ent_Credit e2)"
    and ids: "src \<in> acc_ID ` set (accounts d)" "dst \<in> acc_ID ` set (accounts d)"
    by (rule posting_new_entries [OF assms(1)])
  have acc_ids: "acc_ID ` set (accounts d') = acc_ID ` set (accounts d)"
    by (metis frame(3) list.set_map)
  from assms(2) new show "keys_ok d'" by (simp add: keys_ok_def frame e)
  have "{ent_AccountID e1, ent_AccountID e2} \<subseteq> acc_ID ` set (accounts d)" using acc ids by blast
  with assms(3) show "refs_ok d'"
    unfolding refs_ok_def acc_ids e frame(1) by (auto simp: posting_accounts [OF assms(1)])
  from assms(4) single show "entries_ok d'" by (simp add: entries_ok_def e ball_Un)
qed

lemma posting_solvent:
  assumes "posting opt src dst n d d'" and "solvent d" and "distinct (map acc_ID (accounts d))"
    and "account_of d src = Some a" and "is_settlement a \<or> n \<le> acc_Balance a"
  shows "solvent d'"
proof -
  have "is_settlement b \<or> 0 \<le> acc_Balance b + posting_delta src dst n (acc_ID b)"
    if b: "b \<in> set (accounts d)" for b
  proof (cases "acc_ID b = src")
    case True
    with b assms(3,4) have "b = a" using account_of_in [of d b] by simp
    with True assms(1,5) show ?thesis by (auto simp: posting_delta_def posting_def)
  next
    case False
    with b assms(1,2) show ?thesis by (auto simp: posting_delta_def posting_def solvent_def)
  qed
  then show ?thesis by (auto simp: solvent_def posting_accounts [OF assms(1)])
qed

lemma posting_step_inv:
  assumes "posting opt src dst n d d'" and "account_of d src = Some a"
    and "is_settlement a \<or> n \<le> acc_Balance a" and "in_range d'" and "ledger_inv d"
  shows "ledger_inv d'"
proof -
  from assms(5) have inv: "keys_ok d" "refs_ok d" "entries_ok d" "cache_ok d" "transactions_ok d"
    "total_balance d = 0" "solvent d" "settlement_ok d" "currency_ok d"
    and dist: "distinct (map acc_ID (accounts d))"
    by (simp_all add: ledger_inv_def keys_ok_def)
  have "cache_ok d'"
    using inv(4) by (auto simp: cache_ok_def posting_accounts [OF assms(1)] posting_entries(1) [OF assms(1)])
  moreover have "transactions_ok d'"
    using inv(5) by (simp add: transactions_ok_def posting_entries(2) [OF assms(1)])
  moreover have "settlement_ok d'" and "currency_ok d'"
    using inv(8,9) by (simp_all add: settlement_ok_def currency_ok_def posting_accounts [OF assms(1)])
  ultimately show ?thesis
    using posting_keys_refs [OF assms(1) inv(1-3)] posting_solvent [OF assms(1) inv(7) dist assms(2,3)]
      posting_total [OF assms(1) dist] inv(6) assms(4)
    by (simp add: ledger_inv_def)
qed

lemma db_step_inv: "db_step d d' \<Longrightarrow> ledger_inv d \<Longrightarrow> ledger_inv d'"
  by (induction rule: db_step.induct)
    (blast intro: user_step_inv account_step_inv posting_step_inv key_step_inv)+

lemma db_steps_inv: "db_steps d d' \<Longrightarrow> ledger_inv d \<Longrightarrow> ledger_inv d'"
  by (induction rule: db_steps.induct) (auto intro: db_step_inv)

text \<open>The database states the service can reach from a freshly migrated one.\<close>

definition reachable :: "database \<Rightarrow> bool" where
  "reachable d \<longleftrightarrow> (\<exists>u t. db_steps (migrated u t) d)"

lemma reachable_inv: "reachable d \<Longrightarrow> ledger_inv d"
  unfolding reachable_def using db_steps_inv migrated_inv by blast

end
