(* ===== verification/Ledger_Refinement.thy ===== *)
theory Ledger_Refinement
  imports Ledger_Service Ledger_Spec
begin

section \<open>The service implements the abstract postings\<close>

text \<open>
  From the code to the specification. First what a successful \<open>CreateEntry\<close> and
  \<open>UpdateAccountBalance\<close> do to the tables; then \<open>posting_tail\<close>, the two entries and two
  balance updates that end every operation, as one abstract posting; then each callback
  against \<open>posting\<close> and \<open>db_steps\<close>. The lemmas on amounts live in the locale of the decimal
  library's laws; whole operations with their retries are in \<open>Ledger_Operations\<close>.
\<close>

subsection \<open>Single statements\<close>

lemma CreateEntry_sdb:
  assumes "CreateEntry W InTx p s = (Inr r, s')"
    and "cep_Debit p = numeric_out dr" and "cep_Credit p = numeric_out cr"
  shows "sdb s' = (sdb s)\<lparr>entries := entries (sdb s) @ [entry_row p dr cr (fresh W (tick s)) (stmt_time W s)]\<rparr>"
    and "single_sided dr cr" and "fresh W (tick s) \<notin> ent_ID ` set (entries (sdb s))"
    and "cep_AccountID p \<in> acc_ID ` set (accounts (sdb s))"
    and "\<bar>dr\<bar> < numeric_limit" and "\<bar>cr\<bar> < numeric_limit"
proof -
  from assms(1) obtain d1 where st: "createEntry p (fresh W (tick s)) (stmt_time W s) (sdb s) = Inr (r, d1)"
    and s': "s' = s\<lparr>sdb := d1, tick := Suc (tick s)\<rparr>"
    by (auto simp: CreateEntry_def run_stmt_Inr)
  from st obtain dr' cr' where "numeric_column (cep_Debit p) = Inr dr'" "numeric_column (cep_Credit p) = Inr cr'"
    by (rule createEntry_Inr_numeric)
  with assms(2,3) have num: "numeric_column (cep_Debit p) = Inr dr" "numeric_column (cep_Credit p) = Inr cr"
    and range: "\<bar>dr\<bar> < numeric_limit" "\<bar>cr\<bar> < numeric_limit"
    by (auto split: if_splits)
  from range show "\<bar>dr\<bar> < numeric_limit" "\<bar>cr\<bar> < numeric_limit" by auto
  from st [unfolded createEntry_Inr [OF num]] s'
  show "sdb s' = (sdb s)\<lparr>entries := entries (sdb s) @ [entry_row p dr cr (fresh W (tick s)) (stmt_time W s)]\<rparr>"
    and "single_sided dr cr" and "fresh W (tick s) \<notin> ent_ID ` set (entries (sdb s))"
    and "cep_AccountID p \<in> acc_ID ` set (accounts (sdb s))"
    by simp_all
qed

lemma set_balance_add_balance:
  assumes "distinct (map acc_ID (accounts d))" and "account_of d i = Some a"
  shows "d\<lparr>accounts := map (\<lambda>r. if acc_ID r = i then r\<lparr>acc_Balance := acc_Balance a + n\<rparr> else r) (accounts d)\<rparr>
       = add_balance i n d"
proof -
  have "r = a" if "r \<in> set (accounts d)" "acc_ID r = i" for r
    using account_of_in [OF assms(1) that(1)] that(2) assms(2) by simp
  then have "map (\<lambda>r. if acc_ID r = i then r\<lparr>acc_Balance := acc_Balance a + n\<rparr> else r) (accounts d)
      = map (\<lambda>r. if acc_ID r = i then r\<lparr>acc_Balance := acc_Balance r + n\<rparr> else r) (accounts d)"
    by (intro map_cong) auto
  then show ?thesis by (simp add: add_balance_def)
qed

lemma UpdateAccountBalance_sdb:
  assumes "UpdateAccountBalance W InTx p s = (Inr r, s')" and "uab_Balance p = numeric_out n"
    and "distinct (map acc_ID (accounts (sdb s)))" and "uab_ID p \<in> acc_ID ` set (accounts (sdb s))"
  shows "sdb s' = add_balance (uab_ID p) n (sdb s)"
    and "in_range (sdb s) \<Longrightarrow> in_range (sdb s')"
proof -
  obtain a where a: "account_of (sdb s) (uab_ID p) = Some a" "acc_ID a = uab_ID p"
    using assms(3,4) account_of_in by (auto simp: image_iff)
  from assms(1) obtain d1
    where "updateAccountBalance p (fresh W (tick s)) (stmt_time W s) (sdb s) = Inr (r, d1)"
      and "s' = s\<lparr>sdb := d1, tick := Suc (tick s)\<rparr>"
    by (auto simp: UpdateAccountBalance_def run_stmt_Inr)
  with updateAccountBalance_Inr [OF assms(2) a(1) [unfolded account_of_def]]
  have range: "\<bar>acc_Balance a + n\<bar> < numeric_limit" and sdb': "sdb s' = add_balance (uab_ID p) n (sdb s)"
    by (simp_all add: set_balance_add_balance [OF assms(3) a(1)])
  show "sdb s' = add_balance (uab_ID p) n (sdb s)" by (rule sdb')
  have uniq: "b = a" if "b \<in> set (accounts (sdb s))" "acc_ID b = uab_ID p" for b
    using account_of_in [OF assms(3) that(1)] that(2) a(1) by simp
  show "in_range (sdb s')" if "in_range (sdb s)"
    unfolding sdb' in_range_def
  proof
    fix b assume "b \<in> set (accounts (add_balance (uab_ID p) n (sdb s)))"
    then obtain c where c: "c \<in> set (accounts (sdb s))"
      "b = (if acc_ID c = uab_ID p then c\<lparr>acc_Balance := acc_Balance c + n\<rparr> else c)"
      unfolding in_add_balance by blast
    with range uniq [OF c(1)] that show "\<bar>acc_Balance b\<bar> < numeric_limit"
      by (auto simp: in_range_def)
  qed
qed

subsection \<open>The common end of the three operations\<close>

lemma posting_tail:
  assumes ops: "CreateEntry W InTx p1 s1 = (Inr r1, s2)" "CreateEntry W InTx p2 s2 = (Inr r2, s3)"
      "UpdateAccountBalance W InTx b1 s3 = (Inr u1, s4)" "UpdateAccountBalance W InTx b2 s4 = (Inr u2, s5)"
    and p1: "cep_Debit p1 = numeric_out dra" "cep_Credit p1 = numeric_out cra"
    and p2: "cep_Debit p2 = numeric_out drb" "cep_Credit p2 = numeric_out crb"
    and b: "uab_Balance b1 = numeric_out na" "uab_Balance b2 = numeric_out nb"
    and legs: "\<And>u1 t1 u2 t2. posting_legs src dst n tx opt (entry_row p1 dra cra u1 t1) (entry_row p2 drb crb u2 t2)"
    and updates: "(uab_ID b1 = dst \<and> na = n \<and> uab_ID b2 = src \<and> nb = - n)
                \<or> (uab_ID b1 = src \<and> na = - n \<and> uab_ID b2 = dst \<and> nb = n)"
    and dist: "distinct (map acc_ID (accounts (sdb s1)))"
  shows "posting opt src dst n (sdb s1) (sdb s5)"
    and "in_range (sdb s1) \<Longrightarrow> in_range (sdb s5)"
proof -
  note e1 = CreateEntry_sdb [OF ops(1) p1] and e2 = CreateEntry_sdb [OF ops(2) p2]
  let ?e1 = "entry_row p1 dra cra (fresh W (tick s1)) (stmt_time W s1)"
  let ?e2 = "entry_row p2 drb crb (fresh W (tick s2)) (stmt_time W s2)"
  have legs': "posting_legs src dst n tx opt ?e1 ?e2" by (rule legs)
  have n: "0 < n" using legs' e1(2) e2(2)
    by (auto simp: posting_legs_def debit_leg_def credit_leg_def single_sided_def)
  have ids: "src \<in> acc_ID ` set (accounts (sdb s1))" "dst \<in> acc_ID ` set (accounts (sdb s1))"
    using legs' e1(4) e2(4) by (auto simp: posting_legs_def debit_leg_def credit_leg_def e1(1))
  have s3: "sdb s3 = (sdb s1)\<lparr>entries := entries (sdb s1) @ [?e1, ?e2]\<rparr>"
    by (simp add: e1(1) e2(1))
  have ids3: "uab_ID b1 \<in> acc_ID ` set (accounts (sdb s3))" "distinct (map acc_ID (accounts (sdb s3)))"
    using updates ids dist by (auto simp: s3)
  note u1 = UpdateAccountBalance_sdb [OF ops(3) b(1) ids3(2,1)]
  have ids4: "uab_ID b2 \<in> acc_ID ` set (accounts (sdb s4))" "distinct (map acc_ID (accounts (sdb s4)))"
    using updates ids dist by (auto simp: u1(1) s3)
  note u2 = UpdateAccountBalance_sdb [OF ops(4) b(2) ids4(2,1)]
  have "sdb s5 = add_balance src (- n) (add_balance dst n (sdb s3))"
    using updates by (auto simp: u1(1) u2(1) add_balance_commute)
  then have s5: "sdb s5
      = (add_balance src (- n) (add_balance dst n (sdb s1)))\<lparr>entries := entries (sdb s1) @ [?e1, ?e2]\<rparr>"
    by (simp add: s3 add_balance_def)
  have fresh: "ent_ID ?e1 \<notin> ent_ID ` set (entries (sdb s1))" "ent_ID ?e2 \<notin> ent_ID ` set (entries (sdb s1))"
    "ent_ID ?e1 \<noteq> ent_ID ?e2"
    using e1(3) e2(3) by (auto simp: e1(1))
  show "posting opt src dst n (sdb s1) (sdb s5)"
    unfolding posting_def using n ids legs' fresh s5 by blast
  show "in_range (sdb s1) \<Longrightarrow> in_range (sdb s5)"
    using u1(2) u2(2) by (simp add: s3 in_range_def)
qed

subsection \<open>Locked reads\<close>

lemma GetAccountForUpdate_sdb:
  assumes "GetAccountForUpdate W InTx i s = (Inr r, s')"
  shows "sdb s' = sdb s" and "\<exists>a. account_of (sdb s) i = Some a \<and> r = scan_account a"
  using assms by (auto simp: GetAccountForUpdate_def run_stmt_Inr getAccountForUpdate_Inr account_of_def)

lemma GetSettlementAccountForUpdate_sdb:
  assumes "GetSettlementAccountForUpdate W InTx s = (Inr r, s')"
  shows "sdb s' = sdb s" and "\<exists>a. find is_settlement (accounts (sdb s)) = Some a \<and> r = scan_account a"
  using assms by (auto simp: GetSettlementAccountForUpdate_def run_stmt_Inr getSettlementAccountForUpdate_Inr)

lemma uuid_New_sdb: "uuid_New W s = (Inr u, s') \<Longrightarrow> sdb s' = sdb s"
  by (auto simp: uuid_New_def)

subsection \<open>The callbacks\<close>

context decimal_library
begin

lemma validate_Inr:
  assumes "validatePositiveAmount X amountStr = Inr amt"
  shows "NewFromString X amountStr = Some amt" and "0 < num amt"
  using assms by (auto simp: validatePositiveAmount_def less_eq zero split: option.splits if_splits)

lemma validate_Inl: "validatePositiveAmount X amountStr = Inl e \<Longrightarrow> e = ErrInvalidAmount"
  by (auto simp: validatePositiveAmount_def split: option.splits if_splits)

lemma deposit_tx_posting:
  assumes "deposit_tx X (in_tx W) accountID amount s = (Inr u, s')"
    and dist: "distinct (map acc_ID (accounts (sdb s)))"
  shows "\<exists>st a. find is_settlement (accounts (sdb s)) = Some st \<and> account_of (sdb s) accountID = Some a
      \<and> acc_Currency a = acc_Currency st
      \<and> posting ''deposit'' (acc_ID st) accountID (round4 (num amount)) (sdb s) (sdb s')
      \<and> (in_range (sdb s) \<longrightarrow> in_range (sdb s'))"
proof -
  let ?n = "round4 (num amount)"
  from assms(1) obtain settlement account txID e1 e2 s1 s2 s3 s4 s5 s6
    where ops: "GetSettlementAccountForUpdate W InTx s = (Inr settlement, s1)"
      "GetAccountForUpdate W InTx accountID s1 = (Inr account, s2)"
      "acc_Currency account = acc_Currency settlement"
      "uuid_New W s2 = (Inr txID, s3)"
    and tail: "CreateEntry W InTx \<lparr>cep_AccountID = accountID, cep_Debit = StringFixed X (DecZero X) 4,
          cep_Credit = StringFixed X amount 4, cep_TransactionID = txID, cep_OperationType = ''deposit'',
          cep_Description = Some ''External deposit''\<rparr> s3 = (Inr e1, s4)"
      "CreateEntry W InTx \<lparr>cep_AccountID = acc_ID settlement, cep_Debit = StringFixed X amount 4,
          cep_Credit = StringFixed X (DecZero X) 4, cep_TransactionID = txID, cep_OperationType = ''deposit'',
          cep_Description = Some (''Deposit to account '' @ uuid_String X accountID)\<rparr> s4 = (Inr e2, s5)"
      "UpdateAccountBalance W InTx \<lparr>uab_Balance = StringFixed X amount 4, uab_ID = accountID\<rparr> s5 = (Inr (), s6)"
      "UpdateAccountBalance W InTx \<lparr>uab_Balance = StringFixed X (Neg X amount) 4, uab_ID = acc_ID settlement\<rparr> s6
         = (Inr (), s')"
    by (auto simp: deposit_tx_run op_inversion split: if_splits)
  obtain st a where st: "find is_settlement (accounts (sdb s)) = Some st" "settlement = scan_account st"
    and a: "account_of (sdb s) accountID = Some a" "account = scan_account a"
    and sdb: "sdb s3 = sdb s"
    using GetSettlementAccountForUpdate_sdb [OF ops(1)] GetAccountForUpdate_sdb [OF ops(2)]
      uuid_New_sdb [OF ops(4)] by auto
  have dist3: "distinct (map acc_ID (accounts (sdb s3)))" using dist sdb by simp
  have "posting ''deposit'' (acc_ID st) accountID ?n (sdb s3) (sdb s')"
    and "in_range (sdb s3) \<Longrightarrow> in_range (sdb s')"
    using st(2) dist3
    by (auto intro!: posting_tail [where dra = 0 and cra = ?n and drb = ?n and crb = 0
          and na = ?n and nb = "- ?n" and tx = txID, OF tail]
        simp: fixed zero neg round4_minus posting_legs_def debit_leg_def credit_leg_def)
  with sdb st a ops(3) show ?thesis by auto
qed

lemma balance_covers:
  assumes "NewFromString X (numeric_out b) = Some bal" and "\<not> LessThan X bal amount"
  shows "round4 (num amount) \<le> b"
proof -
  have "num bal = of_int b / 10000" using parse [of b] assms(1) by auto
  with assms(2) show ?thesis by (intro round4_le_units) (simp add: less)
qed

lemma withdraw_tx_posting:
  assumes "withdraw_tx X (in_tx W) accountID amount s = (Inr u, s')"
    and dist: "distinct (map acc_ID (accounts (sdb s)))"
  shows "\<exists>st a. find is_settlement (accounts (sdb s)) = Some st \<and> account_of (sdb s) accountID = Some a
      \<and> acc_Currency a = acc_Currency st \<and> round4 (num amount) \<le> acc_Balance a
      \<and> posting ''withdrawal'' accountID (acc_ID st) (round4 (num amount)) (sdb s) (sdb s')
      \<and> (in_range (sdb s) \<longrightarrow> in_range (sdb s'))"
proof -
  let ?n = "round4 (num amount)"
  from assms(1) obtain settlement account bal txID e1 e2 s1 s2 s3 s4 s5 s6
    where ops: "GetSettlementAccountForUpdate W InTx s = (Inr settlement, s1)"
      "GetAccountForUpdate W InTx accountID s1 = (Inr account, s2)"
      "acc_Currency account = acc_Currency settlement"
      "NewFromString X (acc_Balance account) = Some bal" "\<not> LessThan X bal amount"
      "uuid_New W s2 = (Inr txID, s3)"
    and tail: "CreateEntry W InTx \<lparr>cep_AccountID = accountID, cep_Debit = StringFixed X amount 4,
          cep_Credit = StringFixed X (DecZero X) 4, cep_TransactionID = txID, cep_OperationType = ''withdrawal'',
          cep_Description = Some ''External withdrawal''\<rparr> s3 = (Inr e1, s4)"
      "CreateEntry W InTx \<lparr>cep_AccountID = acc_ID settlement, cep_Debit = StringFixed X (DecZero X) 4,
          cep_Credit = StringFixed X amount 4, cep_TransactionID = txID, cep_OperationType = ''withdrawal'',
          cep_Description = Some (''Withdrawal from '' @ uuid_String X accountID)\<rparr> s4 = (Inr e2, s5)"
      "UpdateAccountBalance W InTx \<lparr>uab_Balance = StringFixed X (Neg X amount) 4, uab_ID = accountID\<rparr> s5 = (Inr (), s6)"
      "UpdateAccountBalance W InTx \<lparr>uab_Balance = StringFixed X amount 4, uab_ID = acc_ID settlement\<rparr> s6
         = (Inr (), s')"
    by (auto simp: withdraw_tx_run op_inversion split: if_splits option.splits)
  obtain st a where st: "find is_settlement (accounts (sdb s)) = Some st" "settlement = scan_account st"
    and a: "account_of (sdb s) accountID = Some a" "account = scan_account a"
    and sdb: "sdb s3 = sdb s"
    using GetSettlementAccountForUpdate_sdb [OF ops(1)] GetAccountForUpdate_sdb [OF ops(2)]
      uuid_New_sdb [OF ops(6)] by auto
  have dist3: "distinct (map acc_ID (accounts (sdb s3)))" using dist sdb by simp
  have "posting ''withdrawal'' accountID (acc_ID st) ?n (sdb s3) (sdb s')"
    and "in_range (sdb s3) \<Longrightarrow> in_range (sdb s')"
    using st(2) dist3
    by (auto intro!: posting_tail [where dra = ?n and cra = 0 and drb = 0 and crb = ?n
          and na = "- ?n" and nb = ?n and tx = txID, OF tail]
        simp: fixed zero neg round4_minus posting_legs_def debit_leg_def credit_leg_def)
  with sdb st a ops(3) balance_covers [of "acc_Balance a" bal amount] ops(4,5) show ?thesis by auto
qed

lemma transfer_tx_posting:
  assumes "transfer_tx X (in_tx W) fromID toID amount s = (Inr u, s')"
    and dist: "distinct (map acc_ID (accounts (sdb s)))"
  shows "\<exists>a b. account_of (sdb s) fromID = Some a \<and> account_of (sdb s) toID = Some b
      \<and> acc_Currency a = acc_Currency b \<and> round4 (num amount) \<le> acc_Balance a
      \<and> posting ''transfer'' fromID toID (round4 (num amount)) (sdb s) (sdb s')
      \<and> (in_range (sdb s) \<longrightarrow> in_range (sdb s'))"
proof -
  let ?n = "round4 (num amount)"
  from assms(1) obtain fromAcc toAcc bal txID e1 e2 s1 s2 s3 s4 s5 s6
    where ops: "GetAccountForUpdate W InTx fromID s = (Inr fromAcc, s1)"
      "GetAccountForUpdate W InTx toID s1 = (Inr toAcc, s2)"
      "acc_Currency fromAcc = acc_Currency toAcc"
      "NewFromString X (acc_Balance fromAcc) = Some bal" "\<not> LessThan X bal amount"
      "uuid_New W s2 = (Inr txID, s3)"
    and tail: "CreateEntry W InTx \<lparr>cep_AccountID = fromID, cep_Debit = StringFixed X amount 4,
          cep_Credit = StringFixed X (DecZero X) 4, cep_TransactionID = txID, cep_OperationType = ''transfer'',
          cep_Description = Some (''Transfer to '' @ uuid_String X toID)\<rparr> s3 = (Inr e1, s4)"
      "CreateEntry W InTx \<lparr>cep_AccountID = toID, cep_Debit = StringFixed X (DecZero X) 4,
          cep_Credit = StringFixed X amount 4, cep_TransactionID = txID, cep_OperationType = ''transfer'',
          cep_Description = Some (''Transfer from '' @ uuid_String X fromID)\<rparr> s4 = (Inr e2, s5)"
      "UpdateAccountBalance W InTx \<lparr>uab_Balance = StringFixed X (Neg X amount) 4, uab_ID = fromID\<rparr> s5 = (Inr (), s6)"
      "UpdateAccountBalance W InTx \<lparr>uab_Balance = StringFixed X amount 4, uab_ID = toID\<rparr> s6 = (Inr (), s')"
    by (auto simp: transfer_tx_run op_inversion split: if_splits option.splits)
  obtain a b where a: "account_of (sdb s) fromID = Some a" "fromAcc = scan_account a"
    and b: "account_of (sdb s) toID = Some b" "toAcc = scan_account b"
    and sdb: "sdb s3 = sdb s"
    using GetAccountForUpdate_sdb [OF ops(1)] GetAccountForUpdate_sdb [OF ops(2)]
      uuid_New_sdb [OF ops(6)] by auto
  have dist3: "distinct (map acc_ID (accounts (sdb s3)))" using dist sdb by simp
  have "posting ''transfer'' fromID toID ?n (sdb s3) (sdb s')"
    and "in_range (sdb s3) \<Longrightarrow> in_range (sdb s')"
    using dist3
    by (auto intro!: posting_tail [where dra = ?n and cra = 0 and drb = 0 and crb = ?n
          and na = "- ?n" and nb = ?n and tx = txID, OF tail]
        simp: fixed zero neg round4_minus posting_legs_def debit_leg_def credit_leg_def)
  with sdb a b ops(3) balance_covers [of "acc_Balance a" bal amount] ops(4,5) show ?thesis by auto
qed

end

end
