(* ===== verification/Ledger_Operations.thy ===== *)
theory Ledger_Operations
  imports Ledger_Refinement
begin

section \<open>Whole operations: retries, other clients, faults\<close>

text \<open>
  \<open>ExecTx\<close> is a client of the callbacks through one contract, the locale \<open>ledger_callback\<close>: a
  complete run of the callback on a database that satisfies the invariant is one abstract
  step and establishes \<open>post\<close>. From it follows, once and for all, what a whole operation
  does among other clients that, on a database satisfying the invariant, also only take
  abstract steps (\<open>rely\<close>). The three callbacks of the ledger service satisfy the contract by
  the laws of the decimal library.
\<close>

definition rely :: "world \<Rightarrow> bool" where
  "rely W \<longleftrightarrow> (\<forall>t d. ledger_inv d \<longrightarrow> db_steps d (interfere W t d))"

lemma others_db_steps: "others W d d' \<Longrightarrow> rely W \<Longrightarrow> ledger_inv d \<Longrightarrow> db_steps d d'"
  by (induction rule: others.induct) (auto simp: rely_def intro: steps_refl db_steps_trans db_steps_inv)

locale ledger_callback =
  fixes fn :: "unit op" and post :: "database \<Rightarrow> database \<Rightarrow> bool"
  assumes run_post: "ledger_inv d0 \<Longrightarrow> ran_once fn d0 d1 \<Longrightarrow> post d0 d1"
    and run_step: "ledger_inv d0 \<Longrightarrow> ran_once fn d0 d1 \<Longrightarrow> db_step d0 d1"
begin

lemma ExecTx_steps:
  assumes "rely W" and "commit_reports W" and "ledger_inv (sdb s)" and "ExecTx W fn s = (r, s')"
  shows "db_steps (sdb s) (sdb s')"
proof -
  from ExecTx_outcome [OF assms(2,4)] obtain d0 where d0: "others W (sdb s) d0"
    and out: "ran_once fn d0 (sdb s') \<or> sdb s' = d0"
    by (cases r) (auto simp: exec_outcome_def)
  have steps: "db_steps (sdb s) d0" by (rule others_db_steps [OF d0 assms(1,3)])
  then have "ledger_inv d0" using assms(3) by (rule db_steps_inv)
  with steps out show ?thesis by (auto intro: db_steps.intros run_step)
qed

lemma ExecTx_success:
  assumes "rely W" and "commit_reports W" and "ledger_inv (sdb s)" and "ExecTx W fn s = (Inr u, s')"
  shows "\<exists>d0. others W (sdb s) d0 \<and> ledger_inv d0 \<and> post d0 (sdb s')"
proof -
  from ExecTx_outcome [OF assms(2,4)] obtain d0 where d0: "others W (sdb s) d0"
    and out: "ran_once fn d0 (sdb s')"
    by (auto simp: exec_outcome_def)
  have steps: "db_steps (sdb s) d0" by (rule others_db_steps [OF d0 assms(1,3)])
  then have "ledger_inv d0" using assms(3) by (rule db_steps_inv)
  with d0 out show ?thesis by (blast intro: run_post)
qed

text \<open>Whatever the result: what the others did, and at most one complete run.\<close>

lemma ExecTx_cases:
  assumes "rely W" and "commit_reports W" and "ledger_inv (sdb s)" and "ExecTx W fn s = (r, s')"
  shows "\<exists>d0. others W (sdb s) d0 \<and> (sdb s' = d0 \<or> post d0 (sdb s'))"
proof -
  from ExecTx_outcome [OF assms(2,4)] obtain d0 where d0: "others W (sdb s) d0"
    and out: "ran_once fn d0 (sdb s') \<or> sdb s' = d0"
    by (cases r) (auto simp: exec_outcome_def)
  have "db_steps (sdb s) d0" by (rule others_db_steps [OF d0 assms(1,3)])
  then have "ledger_inv d0" using assms(3) by (rule db_steps_inv)
  with d0 out show ?thesis by (blast intro: run_post)
qed

text \<open>An error leaves no trace, unless it is a commit whose answer was lost.\<close>

lemma ExecTx_error:
  assumes "rely W" and "commit_reports W" and "ledger_inv (sdb s)" and "ExecTx W fn s = (Inl e, s')"
    and "\<And>t e'. fault W t \<noteq> LostReply e'"
  shows "others W (sdb s) (sdb s')"
  using ExecTx_outcome [OF assms(2,4)] assms(5) by (auto simp: exec_outcome_def)

end

subsection \<open>The three callbacks satisfy the contract\<close>

definition deposited :: "uuid \<Rightarrow> int \<Rightarrow> database \<Rightarrow> database \<Rightarrow> bool" where
  "deposited accountID n d0 d1 \<longleftrightarrow>
     (\<exists>st. st \<in> set (accounts d0) \<and> is_settlement st \<and> posting ''deposit'' (acc_ID st) accountID n d0 d1)"

definition withdrawn :: "uuid \<Rightarrow> int \<Rightarrow> database \<Rightarrow> database \<Rightarrow> bool" where
  "withdrawn accountID n d0 d1 \<longleftrightarrow>
     (\<exists>st a. st \<in> set (accounts d0) \<and> is_settlement st \<and> account_of d0 accountID = Some a
        \<and> n \<le> acc_Balance a \<and> posting ''withdrawal'' accountID (acc_ID st) n d0 d1)"

definition transferred :: "uuid \<Rightarrow> uuid \<Rightarrow> int \<Rightarrow> database \<Rightarrow> database \<Rightarrow> bool" where
  "transferred fromID toID n d0 d1 \<longleftrightarrow>
     (\<exists>a. account_of d0 fromID = Some a \<and> n \<le> acc_Balance a \<and> posting ''transfer'' fromID toID n d0 d1)"

lemma inv_distinct: "ledger_inv d \<Longrightarrow> distinct (map acc_ID (accounts d))"
  and inv_in_range: "ledger_inv d \<Longrightarrow> in_range d"
  by (simp_all add: ledger_inv_def keys_ok_def)

context decimal_library
begin

lemma deposit_ran_once:
  assumes "ledger_inv d0" and "ran_once (deposit_tx X (in_tx W) accountID amount) d0 d1"
  shows "deposited accountID (round4 (num amount)) d0 d1" and "db_step d0 d1"
proof -
  from assms(2) obtain s1 s2 where run: "deposit_tx X (in_tx W) accountID amount s1 = (Inr (), s2)"
    and d: "sdb s1 = d0" "sdb s2 = d1"
    unfolding ran_once_def by blast
  from deposit_tx_posting [OF run] assms(1) d obtain st
    where st: "find is_settlement (accounts d0) = Some st"
      and post: "posting ''deposit'' (acc_ID st) accountID (round4 (num amount)) d0 d1"
      and range: "in_range d1"
    by (auto simp: inv_distinct inv_in_range)
  from find_SomeD [OF st] have mem: "st \<in> set (accounts d0)" "is_settlement st" by auto
  with post show "deposited accountID (round4 (num amount)) d0 d1" by (auto simp: deposited_def)
  have "account_of d0 (acc_ID st) = Some st"
    using account_of_in [OF inv_distinct [OF assms(1)] mem(1)] .
  with post range mem(2) show "db_step d0 d1" by (blast intro: step_posting)
qed

lemma withdraw_ran_once:
  assumes "ledger_inv d0" and "ran_once (withdraw_tx X (in_tx W) accountID amount) d0 d1"
  shows "withdrawn accountID (round4 (num amount)) d0 d1" and "db_step d0 d1"
proof -
  from assms(2) obtain s1 s2 where run: "withdraw_tx X (in_tx W) accountID amount s1 = (Inr (), s2)"
    and d: "sdb s1 = d0" "sdb s2 = d1"
    unfolding ran_once_def by blast
  from withdraw_tx_posting [OF run] assms(1) d obtain st a
    where st: "find is_settlement (accounts d0) = Some st"
      and a: "account_of d0 accountID = Some a" "round4 (num amount) \<le> acc_Balance a"
      and post: "posting ''withdrawal'' accountID (acc_ID st) (round4 (num amount)) d0 d1"
      and range: "in_range d1"
    by (auto simp: inv_distinct inv_in_range)
  with find_SomeD [OF st] show "withdrawn accountID (round4 (num amount)) d0 d1"
    by (auto simp: withdrawn_def)
  from post a range show "db_step d0 d1" by (blast intro: step_posting)
qed

lemma transfer_ran_once:
  assumes "ledger_inv d0" and "ran_once (transfer_tx X (in_tx W) fromID toID amount) d0 d1"
  shows "transferred fromID toID (round4 (num amount)) d0 d1" and "db_step d0 d1"
proof -
  from assms(2) obtain s1 s2 where run: "transfer_tx X (in_tx W) fromID toID amount s1 = (Inr (), s2)"
    and d: "sdb s1 = d0" "sdb s2 = d1"
    unfolding ran_once_def by blast
  from transfer_tx_posting [OF run] assms(1) d obtain a
    where a: "account_of d0 fromID = Some a" "round4 (num amount) \<le> acc_Balance a"
      and post: "posting ''transfer'' fromID toID (round4 (num amount)) d0 d1"
      and range: "in_range d1"
    by (auto simp: inv_distinct inv_in_range)
  then show "transferred fromID toID (round4 (num amount)) d0 d1"
    by (auto simp: transferred_def)
  from post a range show "db_step d0 d1" by (blast intro: step_posting)
qed

sublocale deposit: ledger_callback "deposit_tx X (in_tx W) accountID amount" "deposited accountID (round4 (num amount))"
  for W accountID amount
  by unfold_locales (fact deposit_ran_once)+

sublocale withdraw: ledger_callback "withdraw_tx X (in_tx W) accountID amount" "withdrawn accountID (round4 (num amount))"
  for W accountID amount
  by unfold_locales (fact withdraw_ran_once)+

sublocale transfer: ledger_callback "transfer_tx X (in_tx W) fromID toID amount" "transferred fromID toID (round4 (num amount))"
  for W fromID toID amount
  by unfold_locales (fact transfer_ran_once)+

subsection \<open>Deposit, Withdraw and Transfer as sequences of abstract steps\<close>

lemma Deposit_steps:
  assumes "rely W" and "commit_reports W" and "ledger_inv (sdb s)"
    and "Deposit X W accountID amountStr s = (r, s')"
  shows "db_steps (sdb s) (sdb s')"
  using assms(4) deposit.ExecTx_steps [OF assms(1-3)]
  by (auto simp: Deposit_def return_simps split: sum.splits intro: steps_refl)

lemma Withdraw_steps:
  assumes "rely W" and "commit_reports W" and "ledger_inv (sdb s)"
    and "Withdraw X W accountID amountStr s = (r, s')"
  shows "db_steps (sdb s) (sdb s')"
  using assms(4) withdraw.ExecTx_steps [OF assms(1-3)]
  by (auto simp: Withdraw_def return_simps split: sum.splits intro: steps_refl)

lemma Transfer_steps:
  assumes "rely W" and "commit_reports W" and "ledger_inv (sdb s)"
    and "Transfer X W fromID toID amountStr s = (r, s')"
  shows "db_steps (sdb s) (sdb s')"
  using assms(4) transfer.ExecTx_steps [OF assms(1-3)]
  by (auto simp: Transfer_def return_simps split: sum.splits if_splits intro: steps_refl)

lemma Deposit_cases:
  assumes "rely W" and "commit_reports W" and "ledger_inv (sdb s)"
    and "Deposit X W accountID amountStr s = (r, s')"
  shows "\<exists>d0. others W (sdb s) d0 \<and> (sdb s' = d0 \<or> (\<exists>n. deposited accountID n d0 (sdb s')))"
  using assms(4) deposit.ExecTx_cases [OF assms(1-3)] others_refl [of W "sdb s"]
  by (auto simp: Deposit_def return_simps split: sum.splits) blast

lemma Withdraw_cases:
  assumes "rely W" and "commit_reports W" and "ledger_inv (sdb s)"
    and "Withdraw X W accountID amountStr s = (r, s')"
  shows "\<exists>d0. others W (sdb s) d0 \<and> (sdb s' = d0 \<or> (\<exists>n. withdrawn accountID n d0 (sdb s')))"
  using assms(4) withdraw.ExecTx_cases [OF assms(1-3)] others_refl [of W "sdb s"]
  by (auto simp: Withdraw_def return_simps split: sum.splits) blast

lemma Transfer_cases:
  assumes "rely W" and "commit_reports W" and "ledger_inv (sdb s)"
    and "Transfer X W fromID toID amountStr s = (r, s')"
  shows "\<exists>d0. others W (sdb s) d0 \<and> (sdb s' = d0 \<or> (\<exists>n. transferred fromID toID n d0 (sdb s')))"
  using assms(4) transfer.ExecTx_cases [OF assms(1-3)] others_refl [of W "sdb s"]
  by (auto simp: Transfer_def return_simps split: sum.splits if_splits) blast

lemma money_error:
  assumes "rely W" and "ledger_inv (sdb s)" and no_loss: "\<And>t e. fault W t \<noteq> LostReply e"
  shows "Deposit X W accountID amountStr s = (Inl e, s') \<Longrightarrow> others W (sdb s) (sdb s')"
    and "Withdraw X W accountID amountStr s = (Inl e, s') \<Longrightarrow> others W (sdb s) (sdb s')"
    and "Transfer X W fromID toID amountStr s = (Inl e, s') \<Longrightarrow> others W (sdb s) (sdb s')"
proof -
  have reports: "commit_reports W" using no_loss by (simp add: commit_reports_def)
  note error = deposit.ExecTx_error [OF assms(1) reports assms(2) _ no_loss]
    withdraw.ExecTx_error [OF assms(1) reports assms(2) _ no_loss]
    transfer.ExecTx_error [OF assms(1) reports assms(2) _ no_loss]
  show "Deposit X W accountID amountStr s = (Inl e, s') \<Longrightarrow> others W (sdb s) (sdb s')"
    using error(1) others_refl by (auto simp: Deposit_def return_simps split: sum.splits)
  show "Withdraw X W accountID amountStr s = (Inl e, s') \<Longrightarrow> others W (sdb s) (sdb s')"
    using error(2) others_refl by (auto simp: Withdraw_def return_simps split: sum.splits)
  show "Transfer X W fromID toID amountStr s = (Inl e, s') \<Longrightarrow> others W (sdb s) (sdb s')"
    using error(3) others_refl by (auto simp: Transfer_def return_simps split: sum.splits if_splits)
qed

lemma Deposit_success:
  assumes "rely W" and "commit_reports W" and "ledger_inv (sdb s)"
    and "Deposit X W accountID amountStr s = (Inr u, s')"
  shows "\<exists>amount d0. NewFromString X amountStr = Some amount \<and> 0 < num amount
           \<and> others W (sdb s) d0 \<and> deposited accountID (round4 (num amount)) d0 (sdb s')"
proof -
  from assms(4) obtain amount where val: "validatePositiveAmount X amountStr = Inr amount"
    and run: "ExecTx W (deposit_tx X (in_tx W) accountID amount) s = (Inr u, s')"
    by (auto simp: Deposit_def return_simps split: sum.splits)
  from deposit.ExecTx_success [OF assms(1-3) run] validate_Inr [OF val] show ?thesis by blast
qed

lemma Withdraw_success:
  assumes "rely W" and "commit_reports W" and "ledger_inv (sdb s)"
    and "Withdraw X W accountID amountStr s = (Inr u, s')"
  shows "\<exists>amount d0. NewFromString X amountStr = Some amount \<and> 0 < num amount
           \<and> others W (sdb s) d0 \<and> withdrawn accountID (round4 (num amount)) d0 (sdb s')"
proof -
  from assms(4) obtain amount where val: "validatePositiveAmount X amountStr = Inr amount"
    and run: "ExecTx W (withdraw_tx X (in_tx W) accountID amount) s = (Inr u, s')"
    by (auto simp: Withdraw_def return_simps split: sum.splits)
  from withdraw.ExecTx_success [OF assms(1-3) run] validate_Inr [OF val] show ?thesis by blast
qed

lemma Transfer_success:
  assumes "rely W" and "commit_reports W" and "ledger_inv (sdb s)"
    and "Transfer X W fromID toID amountStr s = (Inr u, s')"
  shows "fromID \<noteq> toID \<and> (\<exists>amount d0. NewFromString X amountStr = Some amount \<and> 0 < num amount
           \<and> others W (sdb s) d0 \<and> transferred fromID toID (round4 (num amount)) d0 (sdb s'))"
proof -
  from assms(4) obtain amount where val: "validatePositiveAmount X amountStr = Inr amount"
    and ne: "fromID \<noteq> toID"
    and run: "ExecTx W (transfer_tx X (in_tx W) fromID toID amount) s = (Inr u, s')"
    by (auto simp: Transfer_def return_simps split: sum.splits if_splits)
  from transfer.ExecTx_success [OF assms(1-3) run] validate_Inr [OF val] ne show ?thesis by blast
qed

end

end
