(* ===== verification/Api_Safety.thy ===== *)
theory Api_Safety
  imports Handler_Relations Ledger_Operations
begin

section \<open>Every handler only takes ledger steps\<close>

text \<open>
  The handlers against the abstract step relation: whatever the request, the faults and the
  other clients, what a handler does to the database is a sequence of \<open>db_step\<close>s. The
  interface is the locale \<open>environment\<close>: a world whose other clients take steps only and whose
  commits report serialization failures truthfully. \<open>guar s s'\<close> is the guarantee; each call of
  the store and of the service has it, and so, by the locale \<open>api_rel\<close>, has every request.
\<close>

definition guar :: "session \<Rightarrow> session \<Rightarrow> bool" where
  "guar s s' \<longleftrightarrow> (ledger_inv (sdb s) \<longrightarrow> db_steps (sdb s) (sdb s'))"

lemma guar_refl [intro, simp]: "guar s s"
  by (simp add: guar_def steps_refl)

lemma guar_same: "sdb s' = sdb s \<Longrightarrow> guar s s'"
  by (simp add: guar_def steps_refl)

lemma guar_trans: "guar s s1 \<Longrightarrow> guar s1 s2 \<Longrightarrow> guar s s2"
  by (auto simp: guar_def intro: db_steps_trans db_steps_inv)

text \<open>A statement that, run alone, is a step or changes nothing.\<close>

definition step_stmt :: "'r stmt \<Rightarrow> bool" where
  "step_stmt st \<longleftrightarrow> (\<forall>u t d r d1. st u t d = Inr (r, d1) \<longrightarrow> d1 = d \<or> db_step d d1)"

lemma step_stmt_user: "step_stmt (createUser p)"
proof -
  have "db_step d (d\<lparr>users := users d @ [x]\<rparr>)"
    if "usr_ID x \<notin> usr_ID ` set (users d)" "usr_Email x \<notin> usr_Email ` set (users d)" for d x
    using that by (rule step_user)
  then show ?thesis by (auto simp: step_stmt_def createUser_def split: if_splits)
qed

lemma step_stmt_account:
  assumes "cap_Currency p = ''USD''" and "cap_OwnerID p = Some ow" and "\<not> cap_IsSystem p"
  shows "step_stmt (createAccount p)"
  using assms by (auto simp: step_stmt_def createAccount_def Let_def split: if_splits intro!: step_account)

lemma step_stmt_key: "step_stmt (createIdempotencyKey p)"
  by (auto simp: step_stmt_def createIdempotencyKey_def Let_def split: if_splits option.splits intro!: step_key)

lemma step_stmt_reads:
  "step_stmt (getUserByEmail email)" "step_stmt (getAccount i)" "step_stmt (getAccountBalance i)"
  "step_stmt (listAccountsByOwner ow)" "step_stmt (listEntriesByAccount lp)"
  "step_stmt (listEntriesByTransaction tx)" "step_stmt (getIdempotencyKey gp)"
  by (auto simp: step_stmt_def getUserByEmail_def getAccount_Inr getAccountBalance_Inr listAccountsByOwner_def
      listEntriesByAccount_def listEntriesByTransaction_def getIdempotencyKey_def
      split: option.splits if_splits)

locale environment =
  fixes W :: world
  assumes rely: "rely W" and commit_reports: "commit_reports W"
begin

lemma run_stmt_guar:
  assumes "step_stmt st" and "run_stmt W Pool st s = (x, s')"
  shows "guar s s'"
proof -
  have seen: "db_steps (sdb s) (view W Pool s)" if "ledger_inv (sdb s)"
    using rely that by (simp add: rely_def)
  have "sdb s' = view W Pool s \<or> db_step (view W Pool s) (sdb s')"
  proof (cases x)
    case (Inr r)
    with assms show ?thesis by (fastforce simp: run_stmt_Inr step_stmt_def)
  next
    case (Inl e)
    with run_stmt_Inl(2) [of W Pool st s e s'] assms show ?thesis by (fastforce simp: step_stmt_def)
  qed
  with seen show ?thesis by (auto simp: guar_def intro: db_steps.intros)
qed

lemma query_guar:
  "CreateUser W Pool cu s = (x1, s') \<Longrightarrow> guar s s'"
  "GetUserByEmail W Pool email s = (x2, s') \<Longrightarrow> guar s s'"
  "GetAccount W Pool i s = (x3, s') \<Longrightarrow> guar s s'"
  "GetAccountBalance W Pool i s = (x4, s') \<Longrightarrow> guar s s'"
  "ListAccountsByOwner W Pool ow s = (x5, s') \<Longrightarrow> guar s s'"
  "ListEntriesByAccount W Pool lp s = (x6, s') \<Longrightarrow> guar s s'"
  "ListEntriesByTransaction W Pool tx s = (x7, s') \<Longrightarrow> guar s s'"
  "CreateIdempotencyKey W Pool ck s = (x8, s') \<Longrightarrow> guar s s'"
  "GetIdempotencyKey W Pool gk s = (x9, s') \<Longrightarrow> guar s s'"
  unfolding query_defs by (blast intro: run_stmt_guar step_stmt_user step_stmt_key step_stmt_reads)+

lemma CreateAccount_guar:
  "CreateAccount W Pool \<lparr>cap_OwnerID = Some ow, cap_Name = nm, cap_Currency = ''USD'', cap_IsSystem = False\<rparr> s
     = (x, s') \<Longrightarrow> guar s s'"
  unfolding query_defs by (erule run_stmt_guar [rotated]) (auto intro: step_stmt_account)

end

text \<open>The operations on money, in an environment and over a decimal library that keep their laws.\<close>

locale ledger_api = environment W + decimal_library X num
  for W :: world and X :: "'d deps" and num :: "'d \<Rightarrow> rat"
begin

lemma money_guar:
  "Deposit X W i a s = (x, s') \<Longrightarrow> guar s s'"
  "Withdraw X W i a s = (x, s') \<Longrightarrow> guar s s'"
  "Transfer X W i j a s = (x, s') \<Longrightarrow> guar s s'"
  using rely commit_reports by (auto simp: guar_def intro: Deposit_steps Withdraw_steps Transfer_steps)

sublocale guarding: api_rel guar W X
proof
  show "guar s s1 \<Longrightarrow> guar s1 s2 \<Longrightarrow> guar s s2" for s s1 s2 by (rule guar_trans)
  show "guar s (s\<lparr>tick := Suc (tick s)\<rparr>)" for s by (rule guar_same) simp
qed (simp_all only: guar_refl query_guar CreateAccount_guar money_guar)

lemmas IdempotencyMiddleware_guar = guarding.IdempotencyMiddleware_rel

end

end
