(* ===== verification/Ledger_Quiet.thy ===== *)
theory Ledger_Quiet
  imports Ledger_Operations
begin

section \<open>What each operation answers when nothing goes wrong outside\<close>

text \<open>
  The converse of the refinement: in a world without faults and without other clients, and
  with identifiers that are new, an operation succeeds whenever its checks pass, and fails
  with the documented error otherwise. Together with \<open>Ledger_Operations\<close> this fixes the
  functional behaviour of every branch.
\<close>

definition quiet :: "world \<Rightarrow> bool" where
  "quiet W \<longleftrightarrow> (\<forall>t. fault W t = NoFault) \<and> (\<forall>t d. interfere W t d = d)"

text \<open>The identifiers of the next \<open>k\<close> calls are new to the table of entries and distinct.\<close>

definition fresh_entries :: "world \<Rightarrow> nat \<Rightarrow> nat \<Rightarrow> database \<Rightarrow> bool" where
  "fresh_entries W n k d \<longleftrightarrow>
     (\<forall>t \<in> {n..<n + k}. fresh W t \<notin> ent_ID ` set (entries d)) \<and> inj_on (fresh W) {n..<n + k}"

lemma quiet_fault [simp]: "quiet W \<Longrightarrow> fault W t = NoFault"
  and quiet_interfere [simp]: "quiet W \<Longrightarrow> interfere W t d = d"
  by (simp_all add: quiet_def)

lemma quiet_rely: "quiet W \<Longrightarrow> rely W"
  and quiet_commit_reports: "quiet W \<Longrightarrow> commit_reports W"
  by (auto simp: rely_def commit_reports_def intro: steps_refl)

lemma quiet_view [simp]: "quiet W \<Longrightarrow> view W q s = sdb s"
  by (cases q) simp_all

lemma others_quiet: "others W d d' \<Longrightarrow> quiet W \<Longrightarrow> d' = d"
  by (induction rule: others.induct) simp_all

text \<open>One call that neither fails nor meets other clients.\<close>

definition calm_at :: "world \<Rightarrow> nat \<Rightarrow> bool" where
  "calm_at W t \<longleftrightarrow> fault W t = NoFault \<and> (\<forall>d. interfere W t d = d)"

lemma quiet_calm [simp]: "quiet W \<Longrightarrow> calm_at W t"
  by (simp add: calm_at_def)

lemma run_stmt_calm:
  "calm_at W (tick s) \<Longrightarrow> run_stmt W q st s =
     (case st (fresh W (tick s)) (stmt_time W s) (sdb s) of
        Inl e \<Rightarrow> (Inl e, s\<lparr>tick := Suc (tick s)\<rparr>)
      | Inr (r, d1) \<Rightarrow> (Inr r, s\<lparr>sdb := d1, tick := Suc (tick s)\<rparr>))"
  by (cases q) (auto simp: calm_at_def run_stmt_def Let_def split: sum.splits)

lemma run_stmt_quiet:
  "quiet W \<Longrightarrow> run_stmt W q st s =
     (case st (fresh W (tick s)) (stmt_time W s) (sdb s) of
        Inl e \<Rightarrow> (Inl e, s\<lparr>tick := Suc (tick s)\<rparr>)
      | Inr (r, d1) \<Rightarrow> (Inr r, s\<lparr>sdb := d1, tick := Suc (tick s)\<rparr>))"
  by (rule run_stmt_calm) simp

subsection \<open>One transaction\<close>

definition begin_tx :: "world \<Rightarrow> session \<Rightarrow> session" where
  "begin_tx W s = s\<lparr>tick := Suc (tick s), tx_time := Some (now W (tick s))\<rparr>"

lemma begin_tx_simps [simp]: "sdb (begin_tx W s) = sdb s" "tick (begin_tx W s) = Suc (tick s)"
  by (simp_all add: begin_tx_def)

definition end_tx :: "database \<Rightarrow> session \<Rightarrow> session" where
  "end_tx d s = s\<lparr>sdb := d, tick := Suc (tick s), tx_time := None\<rparr>"

lemma end_tx_simps [simp]: "sdb (end_tx d s) = d" "tick (end_tx d s) = Suc (tick s)"
  by (simp_all add: end_tx_def)

lemma ExecTx_first_Inr:
  assumes "fault W (tick s) = NoFault" and "interfere W (tick s) (sdb s) = sdb s"
    and "fn (begin_tx W s) = (Inr u, s2)" and "fault W (tick s2) = NoFault"
  shows "ExecTx W fn s = (Inr (), end_tx (sdb s2) s2)"
proof -
  have "execTxOnce W fn s = (Inr (), end_tx (sdb s2) s2)"
    using assms by (simp add: execTxOnce_def Let_def begin_tx_def end_tx_def)
  then show ?thesis unfolding ExecTx_run by (intro run_committed) (simp_all add: maxAttempts_def)
qed

text \<open>The answer to the commit is lost: the effect is there, the result is an error.\<close>

lemma ExecTx_lost_commit:
  assumes "fault W (tick s) = NoFault" and "interfere W (tick s) (sdb s) = sdb s"
    and "fn (begin_tx W s) = (Inr u, s2)" and "fault W (tick s2) = LostReply e" and "\<not> isSerializationError e"
  shows "ExecTx W fn s = (Inl (Errorf ''commit failed: '' e []), end_tx (sdb s2) s2)"
proof -
  have "execTxOnce W fn s = (Inl (Errorf ''commit failed: '' e []), end_tx (sdb s2) s2)"
    using assms by (simp add: execTxOnce_def Let_def begin_tx_def end_tx_def)
  with assms(5) show ?thesis unfolding ExecTx_run by (intro run_failed) (simp_all add: maxAttempts_def)
qed

lemma ExecTx_quiet_Inr:
  "quiet W \<Longrightarrow> fn (begin_tx W s) = (Inr u, s2) \<Longrightarrow> ExecTx W fn s = (Inr (), end_tx (sdb s2) s2)"
  by (simp add: ExecTx_first_Inr)

lemma ExecTx_quiet_Inl:
  assumes "quiet W" and "fn (begin_tx W s) = (Inl e, s2)" and "\<not> isSerializationError e"
  shows "ExecTx W fn s = (Inl e, end_tx (sdb s) s2)"
proof -
  have "execTxOnce W fn s = (Inl e, end_tx (sdb s) s2)"
    using assms by (simp add: execTxOnce_def Let_def begin_tx_def end_tx_def)
  with assms(3) show ?thesis unfolding ExecTx_run by (intro run_failed) (simp_all add: maxAttempts_def)
qed

subsection \<open>Single statements\<close>

lemma CreateEntry_quiet:
  assumes "quiet W" and "cep_Debit p = numeric_out dr" and "cep_Credit p = numeric_out cr"
    and "\<bar>dr\<bar> < numeric_limit" and "\<bar>cr\<bar> < numeric_limit" and "single_sided dr cr"
    and "cep_OperationType p \<in> {''deposit'', ''withdrawal'', ''transfer''}"
    and "fresh W (tick s) \<notin> ent_ID ` set (entries (sdb s))"
    and "cep_AccountID p \<in> acc_ID ` set (accounts (sdb s))"
  shows "CreateEntry W InTx p s
       = (Inr (scan_entry (entry_row p dr cr (fresh W (tick s)) (stmt_time W s))),
          s\<lparr>sdb := (sdb s)\<lparr>entries := entries (sdb s) @ [entry_row p dr cr (fresh W (tick s)) (stmt_time W s)]\<rparr>,
            tick := Suc (tick s)\<rparr>)"
proof -
  have "numeric_column (cep_Debit p) = Inr dr" "numeric_column (cep_Credit p) = Inr cr"
    using assms(2-5) by simp_all
  from createEntry_Inr [OF this] assms(6-9)
  have "createEntry p (fresh W (tick s)) (stmt_time W s) (sdb s)
      = Inr (scan_entry (entry_row p dr cr (fresh W (tick s)) (stmt_time W s)),
          (sdb s)\<lparr>entries := entries (sdb s) @ [entry_row p dr cr (fresh W (tick s)) (stmt_time W s)]\<rparr>)"
    by blast
  with assms(1) show ?thesis by (simp add: CreateEntry_def run_stmt_quiet)
qed

lemma CreateEntry_quiet_zero:
  assumes "quiet W" and "cep_Debit p = numeric_out 0" and "cep_Credit p = numeric_out 0"
    and "cep_OperationType p \<in> {''deposit'', ''withdrawal'', ''transfer''}"
  shows "CreateEntry W InTx p s = (Inl check_violation, s\<lparr>tick := Suc (tick s)\<rparr>)"
proof -
  have "numeric_column (numeric_out 0) = Inr 0" by (simp add: numeric_limit_def)
  then have "createEntry p (fresh W (tick s)) (stmt_time W s) (sdb s) = Inl check_violation"
    using assms(2-4) by (auto simp: createEntry_def single_sided_def Let_def)
  with assms(1) show ?thesis by (simp add: CreateEntry_def run_stmt_quiet)
qed

lemma UpdateAccountBalance_quiet:
  assumes "quiet W" and "uab_Balance p = numeric_out n" and "distinct (map acc_ID (accounts (sdb s)))"
    and "account_of (sdb s) (uab_ID p) = Some a" and "\<bar>acc_Balance a + n\<bar> < numeric_limit"
  shows "UpdateAccountBalance W InTx p s
       = (Inr (), s\<lparr>sdb := add_balance (uab_ID p) n (sdb s), tick := Suc (tick s)\<rparr>)"
proof -
  have "updateAccountBalance p (fresh W (tick s)) (stmt_time W s) (sdb s)
      = Inr ((), add_balance (uab_ID p) n (sdb s))"
    using assms(2,5) set_balance_add_balance [OF assms(3,4), of n] assms(4)
    by (auto simp: updateAccountBalance_Inr [OF assms(2) assms(4) [unfolded account_of_def]])
  with assms(1) show ?thesis by (simp add: UpdateAccountBalance_def run_stmt_quiet)
qed

lemma GetAccountForUpdate_quiet:
  "quiet W \<Longrightarrow> GetAccountForUpdate W InTx i s =
     ((case account_of (sdb s) i of None \<Rightarrow> Inl ErrNoRows | Some a \<Rightarrow> Inr (scan_account a)),
      s\<lparr>tick := Suc (tick s)\<rparr>)"
  by (auto simp: GetAccountForUpdate_def run_stmt_quiet getAccountForUpdate_def account_of_def split: option.splits)

lemma GetSettlementAccountForUpdate_quiet:
  "quiet W \<Longrightarrow> GetSettlementAccountForUpdate W InTx s =
     ((case find is_settlement (accounts (sdb s)) of None \<Rightarrow> Inl ErrNoRows | Some a \<Rightarrow> Inr (scan_account a)),
      s\<lparr>tick := Suc (tick s)\<rparr>)"
  by (auto simp: GetSettlementAccountForUpdate_def run_stmt_quiet getSettlementAccountForUpdate_def
      split: option.splits)

subsection \<open>The common end succeeds\<close>

text \<open>
  The tail of every operation, in the order the code writes: two entries, two updates.
\<close>

definition write_posting ::
  "world \<Rightarrow> CreateEntryParams \<Rightarrow> CreateEntryParams \<Rightarrow> UpdateAccountBalanceParams \<Rightarrow>
   UpdateAccountBalanceParams \<Rightarrow> unit op" where
  "write_posting W p1 p2 b1 b2 =
     and_then (CreateEntry W InTx p1) (\<lambda>_.
     and_then (CreateEntry W InTx p2) (\<lambda>_.
     and_then (UpdateAccountBalance W InTx b1) (\<lambda>_.
     and_then (UpdateAccountBalance W InTx b2) (\<lambda>_.
     return_ok ()))))"

lemma write_posting_quiet:
  assumes W: "quiet W" and fresh: "fresh_entries W (tick s) 2 (sdb s)"
    and p1: "cep_Debit p1 = numeric_out dra" "cep_Credit p1 = numeric_out cra" "single_sided dra cra"
    and p2: "cep_Debit p2 = numeric_out drb" "cep_Credit p2 = numeric_out crb" "single_sided drb crb"
    and small: "\<bar>dra\<bar> < numeric_limit" "\<bar>cra\<bar> < numeric_limit" "\<bar>drb\<bar> < numeric_limit" "\<bar>crb\<bar> < numeric_limit"
    and optype: "cep_OperationType p1 \<in> {''deposit'', ''withdrawal'', ''transfer''}"
      "cep_OperationType p2 \<in> {''deposit'', ''withdrawal'', ''transfer''}"
    and b: "uab_Balance b1 = numeric_out na" "uab_Balance b2 = numeric_out nb"
    and accs: "cep_AccountID p1 = uab_ID b1" "cep_AccountID p2 = uab_ID b2"
    and a: "account_of (sdb s) (uab_ID b1) = Some a1" "account_of (sdb s) (uab_ID b2) = Some a2"
    and dist: "distinct (map acc_ID (accounts (sdb s)))"
    and range: "\<bar>acc_Balance a1 + na\<bar> < numeric_limit"
      "\<bar>acc_Balance a2 + nb + (if uab_ID b1 = uab_ID b2 then na else 0)\<bar> < numeric_limit"
  shows "\<exists>s'. write_posting W p1 p2 b1 b2 s = (Inr (), s')"
proof -
  have f0: "fresh W (tick s) \<notin> ent_ID ` set (entries (sdb s))"
    and f1: "fresh W (Suc (tick s)) \<notin> ent_ID ` set (entries (sdb s))"
    using fresh by (simp_all add: fresh_entries_def)
  have f2: "fresh W (Suc (tick s)) \<noteq> fresh W (tick s)"
    using fresh inj_onD [of "fresh W" "{tick s..<tick s + 2}" "Suc (tick s)" "tick s"]
    by (auto simp: fresh_entries_def)
  have mem: "uab_ID b1 \<in> acc_ID ` set (accounts (sdb s))" "uab_ID b2 \<in> acc_ID ` set (accounts (sdb s))"
    using a by (simp_all add: account_of_mem)
  obtain r1 s1 where e1: "CreateEntry W InTx p1 s = (Inr r1, s1)" "tick s1 = Suc (tick s)"
    "accounts (sdb s1) = accounts (sdb s)"
    "ent_ID ` set (entries (sdb s1)) = insert (fresh W (tick s)) (ent_ID ` set (entries (sdb s)))"
    using CreateEntry_quiet [OF W p1(1,2) small(1,2) p1(3) optype(1) f0] mem(1) accs(1) by auto
  obtain r2 s2 where e2: "CreateEntry W InTx p2 s1 = (Inr r2, s2)" "accounts (sdb s2) = accounts (sdb s)"
    using CreateEntry_quiet [OF W p2(1,2) small(3,4) p2(3) optype(2), of s1] mem(2) accs(2) f1 f2 e1(2-4)
    by auto
  have a': "account_of (sdb s2) (uab_ID b1) = Some a1" "account_of (sdb s2) (uab_ID b2) = Some a2"
    "distinct (map acc_ID (accounts (sdb s2)))"
    using a dist e2(2) by (simp_all add: account_of_def)
  obtain s3 where u1: "UpdateAccountBalance W InTx b1 s2 = (Inr (), s3)"
    "sdb s3 = add_balance (uab_ID b1) na (sdb s2)"
    using UpdateAccountBalance_quiet [OF W b(1) a'(3,1) range(1)] by simp
  have "account_of (sdb s3) (uab_ID b2)
      = Some (if uab_ID b1 = uab_ID b2 then a2\<lparr>acc_Balance := acc_Balance a2 + na\<rparr> else a2)"
    using a'(2) by (simp add: u1(2) account_of_add_balance)
  with UpdateAccountBalance_quiet [OF W b(2), of s3] range(2) a'(3)
  obtain s4 where "UpdateAccountBalance W InTx b2 s3 = (Inr (), s4)"
    by (auto simp: u1(2) algebra_simps split: if_splits)
  with e1(1) e2(1) u1(1) show ?thesis by (auto simp: write_posting_def return_ok_def)
qed

lemma write_posting_quiet_zero:
  assumes "quiet W" and "cep_Debit p1 = numeric_out 0" and "cep_Credit p1 = numeric_out 0"
    and "cep_OperationType p1 \<in> {''deposit'', ''withdrawal'', ''transfer''}"
  shows "write_posting W p1 p2 b1 b2 s = (Inl check_violation, s\<lparr>tick := Suc (tick s)\<rparr>)"
  using CreateEntry_quiet_zero [OF assms] by (simp add: write_posting_def)

lemma not_serialization [simp]:
  "\<not> isSerializationError check_violation" "\<not> isSerializationError ErrInsufficientFunds"
  "\<not> isSerializationError ErrNoRows" "\<not> isSerializationError ErrCurrencyMismatch"
  by (simp_all add: isSerializationError_def check_violation_def)

lemmas quiet_reads = GetAccountForUpdate_quiet GetSettlementAccountForUpdate_quiet

subsection \<open>The operations\<close>

context decimal_library
begin

lemma covers_iff:
  assumes "NewFromString X (numeric_out b) = Some bal"
  shows "LessThan X bal amount \<longleftrightarrow> of_int b / 10000 < num amount"
proof -
  have "num bal = of_int b / 10000" using parse [of b] assms by auto
  then show ?thesis by (simp only: less)
qed

lemma deposit_tx_quiet:
  assumes W: "quiet W" and fresh: "fresh_entries W (tick s) 8 (sdb s)"
    and dist: "distinct (map acc_ID (accounts (sdb s)))" and range: "in_range (sdb s)"
    and st: "find is_settlement (accounts (sdb s)) = Some st"
    and a: "account_of (sdb s) accountID = Some a" and cur: "acc_Currency a = acc_Currency st"
    and n: "round4 (num amount) = n" "0 < n" "n < numeric_limit"
    and fits: "\<bar>acc_Balance a + n\<bar> < numeric_limit"
      "acc_ID st = accountID \<or> \<bar>acc_Balance st - n\<bar> < numeric_limit"
  shows "\<exists>s2. deposit_tx X (in_tx W) accountID amount (begin_tx W s) = (Inr (), s2)"
proof -
  have st': "account_of (sdb s) (acc_ID st) = Some st"
    using find_SomeD [OF st] account_of_in [OF dist] by blast
  have st_range: "\<bar>acc_Balance st\<bar> < numeric_limit"
    using find_SomeD [OF st] range by (auto simp: in_range_def)
  let ?s = "(begin_tx W s)\<lparr>tick := tick s + 4\<rparr>"
  have "fresh_entries W (tick ?s) 2 (sdb ?s)"
    using fresh by (auto simp: fresh_entries_def inj_on_def)
  then have "\<exists>s'. write_posting W
      \<lparr>cep_AccountID = accountID, cep_Debit = StringFixed X (DecZero X) 4,
       cep_Credit = StringFixed X amount 4, cep_TransactionID = txID, cep_OperationType = ''deposit'',
       cep_Description = Some ''External deposit''\<rparr>
      \<lparr>cep_AccountID = acc_ID st, cep_Debit = StringFixed X amount 4,
       cep_Credit = StringFixed X (DecZero X) 4, cep_TransactionID = txID, cep_OperationType = ''deposit'',
       cep_Description = Some (''Deposit to account '' @ uuid_String X accountID)\<rparr>
      \<lparr>uab_Balance = StringFixed X amount 4, uab_ID = accountID\<rparr>
      \<lparr>uab_Balance = StringFixed X (Neg X amount) 4, uab_ID = acc_ID st\<rparr> ?s = (Inr (), s')" for txID
    using st' a dist n fits st_range
    by (intro write_posting_quiet [OF W, where dra = 0 and cra = n and drb = n and crb = 0
          and na = n and nb = "- n"])
      (auto simp: fixed zero neg round4_minus single_sided_def numeric_limit_def)
  then show ?thesis
    using W st a cur
    by (auto simp: deposit_tx_run write_posting_def quiet_reads uuid_New_def and_then_run eval_nat_numeral)
qed

lemma Deposit_runs:
  assumes "NewFromString X amountStr = Some amount" and "0 < num amount"
  shows "Deposit X W accountID amountStr = ExecTx W (deposit_tx X (in_tx W) accountID amount)"
  using assms by (simp add: Deposit_def validatePositiveAmount_def less_eq zero)

lemma Withdraw_quiet:
  assumes W: "quiet W" and fresh: "fresh_entries W (tick s) 8 (sdb s)"
    and dist: "distinct (map acc_ID (accounts (sdb s)))" and range: "in_range (sdb s)"
    and st: "find is_settlement (accounts (sdb s)) = Some st"
    and a: "account_of (sdb s) accountID = Some a" and cur: "acc_Currency a = acc_Currency st"
    and amt: "NewFromString X amountStr = Some amount" "0 < num amount"
    and covers: "num amount \<le> of_int (acc_Balance a) / 10000"
    and n: "round4 (num amount) = n" "0 < n" "n < numeric_limit"
    and fits: "\<bar>acc_Balance a - n\<bar> < numeric_limit"
      "acc_ID st = accountID \<or> \<bar>acc_Balance st + n\<bar> < numeric_limit"
  shows "\<exists>s'. Withdraw X W accountID amountStr s = (Inr (), s')"
proof -
  have st': "account_of (sdb s) (acc_ID st) = Some st"
    using find_SomeD [OF st] account_of_in [OF dist] by blast
  have st_range: "\<bar>acc_Balance st\<bar> < numeric_limit"
    using find_SomeD [OF st] range by (auto simp: in_range_def)
  obtain bal where bal: "NewFromString X (numeric_out (acc_Balance a)) = Some bal" "\<not> LessThan X bal amount"
    using parse [of "acc_Balance a"] covers covers_iff [of "acc_Balance a"] by (auto simp: not_less)
  let ?s = "(begin_tx W s)\<lparr>tick := tick s + 4\<rparr>"
  have "fresh_entries W (tick ?s) 2 (sdb ?s)"
    using fresh by (auto simp: fresh_entries_def inj_on_def)
  then have "\<exists>s'. write_posting W
      \<lparr>cep_AccountID = accountID, cep_Debit = StringFixed X amount 4,
       cep_Credit = StringFixed X (DecZero X) 4, cep_TransactionID = txID, cep_OperationType = ''withdrawal'',
       cep_Description = Some ''External withdrawal''\<rparr>
      \<lparr>cep_AccountID = acc_ID st, cep_Debit = StringFixed X (DecZero X) 4,
       cep_Credit = StringFixed X amount 4, cep_TransactionID = txID, cep_OperationType = ''withdrawal'',
       cep_Description = Some (''Withdrawal from '' @ uuid_String X accountID)\<rparr>
      \<lparr>uab_Balance = StringFixed X (Neg X amount) 4, uab_ID = accountID\<rparr>
      \<lparr>uab_Balance = StringFixed X amount 4, uab_ID = acc_ID st\<rparr> ?s = (Inr (), s')" for txID
    using st' a dist n fits st_range
    by (intro write_posting_quiet [OF W, where dra = n and cra = 0 and drb = 0 and crb = n
          and na = "- n" and nb = n])
      (auto simp: fixed zero neg round4_minus single_sided_def numeric_limit_def)
  then obtain s' where w: "withdraw_tx X (in_tx W) accountID amount (begin_tx W s) = (Inr (), s')"
    using W st a cur bal
    by (auto simp: withdraw_tx_run write_posting_def quiet_reads uuid_New_def and_then_run eval_nat_numeral)
  have "validatePositiveAmount X amountStr = Inr amount"
    using amt by (simp add: validatePositiveAmount_def less_eq zero)
  with ExecTx_quiet_Inr [where fn = "withdraw_tx X (in_tx W) accountID amount", OF W w] show ?thesis
    by (simp add: Withdraw_def)
qed

lemma Transfer_quiet:
  assumes W: "quiet W" and fresh: "fresh_entries W (tick s) 8 (sdb s)"
    and dist: "distinct (map acc_ID (accounts (sdb s)))"
    and a: "account_of (sdb s) fromID = Some a" and b: "account_of (sdb s) toID = Some b"
    and ne: "fromID \<noteq> toID" and cur: "acc_Currency a = acc_Currency b"
    and amt: "NewFromString X amountStr = Some amount" "0 < num amount"
    and covers: "num amount \<le> of_int (acc_Balance a) / 10000"
    and n: "round4 (num amount) = n" "0 < n" "n < numeric_limit"
    and fits: "\<bar>acc_Balance a - n\<bar> < numeric_limit" "\<bar>acc_Balance b + n\<bar> < numeric_limit"
  shows "\<exists>s'. Transfer X W fromID toID amountStr s = (Inr (), s')"
proof -
  obtain bal where bal: "NewFromString X (numeric_out (acc_Balance a)) = Some bal" "\<not> LessThan X bal amount"
    using parse [of "acc_Balance a"] covers covers_iff [of "acc_Balance a"] by (auto simp: not_less)
  let ?s = "(begin_tx W s)\<lparr>tick := tick s + 4\<rparr>"
  have "fresh_entries W (tick ?s) 2 (sdb ?s)"
    using fresh by (auto simp: fresh_entries_def inj_on_def)
  then have "\<exists>s'. write_posting W
      \<lparr>cep_AccountID = fromID, cep_Debit = StringFixed X amount 4,
       cep_Credit = StringFixed X (DecZero X) 4, cep_TransactionID = txID, cep_OperationType = ''transfer'',
       cep_Description = Some (''Transfer to '' @ uuid_String X toID)\<rparr>
      \<lparr>cep_AccountID = toID, cep_Debit = StringFixed X (DecZero X) 4,
       cep_Credit = StringFixed X amount 4, cep_TransactionID = txID, cep_OperationType = ''transfer'',
       cep_Description = Some (''Transfer from '' @ uuid_String X fromID)\<rparr>
      \<lparr>uab_Balance = StringFixed X (Neg X amount) 4, uab_ID = fromID\<rparr>
      \<lparr>uab_Balance = StringFixed X amount 4, uab_ID = toID\<rparr> ?s = (Inr (), s')" for txID
    using a b ne dist n fits
    by (intro write_posting_quiet [OF W, where dra = n and cra = 0 and drb = 0 and crb = n
          and na = "- n" and nb = n])
      (auto simp: fixed zero neg round4_minus single_sided_def numeric_limit_def)
  then obtain s' where w: "transfer_tx X (in_tx W) fromID toID amount (begin_tx W s) = (Inr (), s')"
    using W a b cur bal
    by (auto simp: transfer_tx_run write_posting_def quiet_reads uuid_New_def and_then_run eval_nat_numeral)
  have "validatePositiveAmount X amountStr = Inr amount"
    using amt by (simp add: validatePositiveAmount_def less_eq zero)
  with ExecTx_quiet_Inr [where fn = "transfer_tx X (in_tx W) fromID toID amount", OF W w] ne show ?thesis
    by (simp add: Transfer_def)
qed

text \<open>The refusals: nothing is written, and the error is the one the code names.\<close>

lemma Withdraw_insufficient:
  assumes W: "quiet W" and st: "find is_settlement (accounts (sdb s)) = Some st"
    and a: "account_of (sdb s) accountID = Some a" and cur: "acc_Currency a = acc_Currency st"
    and amt: "NewFromString X amountStr = Some amount" "0 < num amount"
    and short: "of_int (acc_Balance a) / 10000 < num amount"
  shows "\<exists>s'. Withdraw X W accountID amountStr s = (Inl ErrInsufficientFunds, s') \<and> sdb s' = sdb s"
proof -
  obtain bal where bal: "NewFromString X (numeric_out (acc_Balance a)) = Some bal" "LessThan X bal amount"
    using parse [of "acc_Balance a"] short covers_iff [of "acc_Balance a"] by auto
  then obtain s2 where "withdraw_tx X (in_tx W) accountID amount (begin_tx W s) = (Inl ErrInsufficientFunds, s2)"
    using W st a cur by (simp add: withdraw_tx_run quiet_reads return_err_def)
  moreover have "validatePositiveAmount X amountStr = Inr amount"
    using amt by (simp add: validatePositiveAmount_def less_eq zero)
  ultimately show ?thesis
    using ExecTx_quiet_Inl [OF W, where fn = "withdraw_tx X (in_tx W) accountID amount"]
    by (simp add: Withdraw_def)
qed

lemma Transfer_insufficient:
  assumes W: "quiet W" and a: "account_of (sdb s) fromID = Some a" and b: "account_of (sdb s) toID = Some b"
    and ne: "fromID \<noteq> toID" and cur: "acc_Currency a = acc_Currency b"
    and amt: "NewFromString X amountStr = Some amount" "0 < num amount"
    and short: "of_int (acc_Balance a) / 10000 < num amount"
  shows "\<exists>s'. Transfer X W fromID toID amountStr s = (Inl ErrInsufficientFunds, s') \<and> sdb s' = sdb s"
proof -
  obtain bal where bal: "NewFromString X (numeric_out (acc_Balance a)) = Some bal" "LessThan X bal amount"
    using parse [of "acc_Balance a"] short covers_iff [of "acc_Balance a"] by auto
  then obtain s2 where "transfer_tx X (in_tx W) fromID toID amount (begin_tx W s) = (Inl ErrInsufficientFunds, s2)"
    using W a b cur by (simp add: transfer_tx_run quiet_reads return_err_def)
  moreover have "validatePositiveAmount X amountStr = Inr amount"
    using amt by (simp add: validatePositiveAmount_def less_eq zero)
  ultimately show ?thesis
    using ExecTx_quiet_Inl [OF W, where fn = "transfer_tx X (in_tx W) fromID toID amount"] ne
    by (simp add: Transfer_def)
qed

text \<open>
  A positive amount below half a ten-thousandth passes the validation, rounds to zero and is
  refused only by the constraint of the table.
\<close>

lemma Deposit_tiny:
  assumes W: "quiet W" and st: "find is_settlement (accounts (sdb s)) = Some st"
    and a: "account_of (sdb s) accountID = Some a" and cur: "acc_Currency a = acc_Currency st"
    and amt: "NewFromString X amountStr = Some amount" "0 < num amount" "num amount < 1 / 20000"
  shows "\<exists>s'. Deposit X W accountID amountStr s = (Inl check_violation, s') \<and> sdb s' = sdb s"
proof -
  have "round4 (num amount) = 0" using amt(2,3) by (intro round4_tiny) auto
  then obtain s2 where "deposit_tx X (in_tx W) accountID amount (begin_tx W s) = (Inl check_violation, s2)"
    using W st a cur
    by (simp add: deposit_tx_run quiet_reads uuid_New_def CreateEntry_quiet_zero fixed zero)
  moreover have "validatePositiveAmount X amountStr = Inr amount"
    using amt by (simp add: validatePositiveAmount_def less_eq zero)
  ultimately show ?thesis
    using ExecTx_quiet_Inl [OF W, where fn = "deposit_tx X (in_tx W) accountID amount"]
    by (simp add: Deposit_def)
qed

end

end
