(* ===== verification/Replay.thy ===== *)
theory Replay
  imports Idempotency Ledger_Quiet
begin

section \<open>What the idempotency middleware guarantees\<close>

text \<open>
  A tracked request is looked up by its key; a hit is answered from the table and the handler
  is not run. Keys are never removed, so once a response is stored every later request with the
  same key, user and body gets it, until the database fails to answer the look-up.
\<close>

text \<open>The key under which the middleware files a request, if it tracks it at all.\<close>

definition tracking_key :: "'d deps \<Rightarrow> request \<Rightarrow> (string \<times> uuid) option" where
  "tracking_key X r =
     (if Method r \<notin> {''POST'', ''PUT'', ''PATCH''} \<or> idempotency_raw_key r = [] then None
      else map_option (\<lambda>u. (compound_hash X (idempotency_raw_key r) u (Body r), u)) (idempotency_user X r))"

definition stored_key :: "database \<Rightarrow> string \<times> uuid \<Rightarrow> IdempotencyKey option" where
  "stored_key d q = find (\<lambda>k. idk_ID k = fst q \<and> idk_UserID k = snd q) (idempotency_keys d)"

lemma middleware_untracked:
  "tracking_key X r = None \<Longrightarrow> IdempotencyMiddleware X W next_handler r s = next_handler r s"
  by (auto simp: IdempotencyMiddleware_def tracking_key_def split: option.splits if_splits)

lemma middleware_tracked:
  assumes "tracking_key X r = Some (h, u)"
  shows "IdempotencyMiddleware X W next_handler r s =
     (case GetIdempotencyKey W Pool \<lparr>gik_ID = h, gik_UserID = u\<rparr> s of
        (Inr cachedKey, s1) \<Rightarrow> (replay cachedKey, s1)
      | (Inl dbErr, s1) \<Rightarrow>
     (case next_handler r s1 of (calls, s2) \<Rightarrow>
     (let i = icpt_run calls; status = (if statusCode i = 0 then 200 else statusCode i)
      in if status < 500
         then (calls, snd (CreateIdempotencyKey W Pool
                      \<lparr>cik_ID = h, cik_UserID = u, cik_ResponseCode = word_of_int status,
                       cik_ResponseBody = buffer_bytes (bodyBuffer i)\<rparr> s2))
         else (calls, s2))))"
  using assms
  by (auto simp: IdempotencyMiddleware_def tracking_key_def Let_def
      split: option.splits if_splits prod.splits sum.splits)

text \<open>A hit, in any world: the answer is the stored one and the only call is the look-up.\<close>

lemma middleware_hit:
  assumes "tracking_key X r = Some q" and "fault W (tick s) = NoFault"
    and "stored_key (interfere W (tick s) (sdb s)) q = Some k"
  shows "IdempotencyMiddleware X W next_handler r s
       = (replay k, s\<lparr>sdb := interfere W (tick s) (sdb s), tick := Suc (tick s)\<rparr>)"
proof -
  obtain h u where q: "q = (h, u)" by (cases q)
  have "GetIdempotencyKey W Pool \<lparr>gik_ID = h, gik_UserID = u\<rparr> s
      = (Inr k, s\<lparr>sdb := interfere W (tick s) (sdb s), tick := Suc (tick s)\<rparr>)"
    using assms(2,3) by (simp add: GetIdempotencyKey_def run_stmt_Inr getIdempotencyKey_def stored_key_def q)
  then show ?thesis by (simp add: middleware_tracked [OF assms(1) [unfolded q]])
qed

text \<open>A miss: the handler runs once, and an answer below 500 is stored.\<close>

lemma length_hex_encode [simp]: "length (hex_encode s) = 2 * length s"
  by (induction s) (simp_all add: hex_encode_def)

lemma tracking_key_length: "tracking_key X r = Some (h, u) \<Longrightarrow> length h = 64"
  by (auto simp: tracking_key_def compound_hash_def length_sha256 split: if_splits)

lemma middleware_first:
  assumes W: "calm_at W (tick s)" "calm_at W (tick s2)"
    and key: "tracking_key X r = Some (h, u)" and miss: "stored_key (sdb s) (h, u) = None"
    and run: "next_handler r (s\<lparr>tick := Suc (tick s)\<rparr>) = (calls, s2)"
    and once: "sends_once False calls" and ok: "client_status calls < 500" and body: "client_body calls \<noteq> []"
    and unused: "h \<notin> idk_ID ` set (idempotency_keys (sdb s2))"
  shows "\<exists>t. IdempotencyMiddleware X W next_handler r s =
     (calls, s2\<lparr>sdb := (sdb s2)\<lparr>idempotency_keys := idempotency_keys (sdb s2) @
        [\<lparr>idk_ID = h, idk_UserID = u, idk_ResponseCode = word_of_int (client_status calls),
          idk_ResponseBody = client_body calls, idk_CreatedAt = t\<rparr>]\<rparr>, tick := Suc (tick s2)\<rparr>)"
proof -
  have get: "GetIdempotencyKey W Pool \<lparr>gik_ID = h, gik_UserID = u\<rparr> s = (Inl ErrNoRows, s\<lparr>tick := Suc (tick s)\<rparr>)"
    using W(1) miss by (simp add: GetIdempotencyKey_def run_stmt_calm getIdempotencyKey_def stored_key_def)
  have bytes: "buffer_bytes (bodyBuffer (icpt_run calls)) = Some (client_body calls)"
    using body by (simp add: buffer_bytes_def icpt_client_body)
  have "snd (CreateIdempotencyKey W Pool
          \<lparr>cik_ID = h, cik_UserID = u, cik_ResponseCode = word_of_int (client_status calls),
           cik_ResponseBody = Some (client_body calls)\<rparr> s2)
      = s2\<lparr>sdb := (sdb s2)\<lparr>idempotency_keys := idempotency_keys (sdb s2) @
        [\<lparr>idk_ID = h, idk_UserID = u, idk_ResponseCode = word_of_int (client_status calls),
          idk_ResponseBody = client_body calls, idk_CreatedAt = stmt_time W s2\<rparr>]\<rparr>, tick := Suc (tick s2)\<rparr>"
    using W(2) unused tracking_key_length [OF key]
    by (simp add: CreateIdempotencyKey_def run_stmt_calm createIdempotencyKey_def Let_def)
  with ok show ?thesis
    unfolding middleware_tracked [OF key] get sum.case prod.case run icpt_status [OF once] Let_def bytes
    by auto
qed

subsection \<open>Keys stay\<close>

lemma db_step_key: "db_step d d' \<Longrightarrow> stored_key d q = Some k \<Longrightarrow> stored_key d' q = Some k"
proof (induction rule: db_step.induct)
  case (step_posting opt src dst n d d' a)
  then show ?case by (simp add: stored_key_def posting_frame(2) [OF step_posting.hyps(1)])
qed (auto simp: stored_key_def find_append_Some)

lemma db_steps_key: "db_steps d d' \<Longrightarrow> stored_key d q = Some k \<Longrightarrow> stored_key d' q = Some k"
  by (induction rule: db_steps.induct) (auto dest: db_step_key)

lemma stored_key_new:
  "h \<notin> idk_ID ` set (idempotency_keys d) \<Longrightarrow> idk_ID k = h \<Longrightarrow> idk_UserID k = u \<Longrightarrow>
   stored_key (d\<lparr>idempotency_keys := idempotency_keys d @ [k]\<rparr>) (h, u) = Some k"
proof -
  assume new: "h \<notin> idk_ID ` set (idempotency_keys d)" and k: "idk_ID k = h" "idk_UserID k = u"
  have snoc: "find P (xs @ [y]) = Some y" if "\<And>x. x \<in> set xs \<Longrightarrow> \<not> P x" "P y"
    for P :: "IdempotencyKey \<Rightarrow> bool" and xs y
    using that by (induction xs) auto
  show ?thesis unfolding stored_key_def using new k by (simp, intro snoc) (auto simp: rev_image_eqI)
qed

text \<open>A stored response is replayed as long as the other clients only take ledger steps.\<close>

lemma stored_replayed:
  assumes "stored_key d q = Some k" and "tracking_key X r = Some q"
    and "rely W" "fault W (tick s) = NoFault" and "db_steps d (sdb s)" "ledger_inv (sdb s)"
  shows "IdempotencyMiddleware X W next_handler r s
       = (replay k, s\<lparr>sdb := interfere W (tick s) (sdb s), tick := Suc (tick s)\<rparr>)"
proof -
  have "db_steps d (interfere W (tick s) (sdb s))"
    using assms(3,5,6) by (auto simp: rely_def intro: db_steps_trans)
  with assms(1) have "stored_key (interfere W (tick s) (sdb s)) q = Some k" by (rule db_steps_key [rotated])
  from middleware_hit [OF assms(2,4) this] show ?thesis .
qed

text \<open>
  The whole contract: a first request that is answered below 500, and any later request with
  the same key, whatever endpoint it names: it gets the same status and body and changes
  nothing.
\<close>

lemma replayed:
  assumes W: "quiet W" and key: "tracking_key X r = Some (h, u)" and miss: "stored_key (sdb s) (h, u) = None"
    and run: "next_handler r (s\<lparr>tick := Suc (tick s)\<rparr>) = (calls, s2)"
    and once: "sends_once False calls" and ok: "0 \<le> client_status calls" "client_status calls < 500"
    and body: "client_body calls \<noteq> []"
    and unused: "h \<notin> idk_ID ` set (idempotency_keys (sdb s2))"
    and first: "IdempotencyMiddleware X W next_handler r s = (answer1, s3)"
    and key': "tracking_key X r' = Some (h, u)"
    and W': "rely W'" "fault W' (tick s') = NoFault"
    and later: "db_steps (sdb s3) (sdb s')" "ledger_inv (sdb s')"
  shows "answer1 = calls
    \<and> (\<exists>k. IdempotencyMiddleware X W' other_handler r' s'
           = (replay k, s'\<lparr>sdb := interfere W' (tick s') (sdb s'), tick := Suc (tick s')\<rparr>)
         \<and> client_status (replay k) = client_status calls \<and> client_body (replay k) = client_body calls)"
proof -
  obtain t where m: "answer1 = calls"
    "sdb s3 = (sdb s2)\<lparr>idempotency_keys := idempotency_keys (sdb s2) @
        [\<lparr>idk_ID = h, idk_UserID = u, idk_ResponseCode = word_of_int (client_status calls),
          idk_ResponseBody = client_body calls, idk_CreatedAt = t\<rparr>]\<rparr>"
    using middleware_first [where next_handler = next_handler, OF quiet_calm [OF W] quiet_calm [OF W] key miss run once ok(2) body unused] first by auto
  let ?k = "\<lparr>idk_ID = h, idk_UserID = u, idk_ResponseCode = word_of_int (client_status calls),
          idk_ResponseBody = client_body calls, idk_CreatedAt = t\<rparr>"
  have "stored_key (sdb s3) (h, u) = Some ?k"
    unfolding m(2) by (rule stored_key_new [OF unused]) simp_all
  then show ?thesis
    using stored_replayed [OF _ key' W' later, of ?k other_handler] m(1) ok
    by (auto simp: replay_client sint_status)
qed

end
