(* ===== verification/Rate_Limit.thy ===== *)
theory Rate_Limit
  imports Handlers
begin

section \<open>internal/ratelimit/ratelimit.go: one token bucket per client\<close>

text \<open>
  \<open>RateLimiter\<close> keeps a limiter of \<open>golang.org/x/time/rate\<close> for every client identifier, made on
  the client's first request and dropped by \<open>cleanup\<close> after \<open>ttl\<close> without one. That package is
  a parameter (\<open>limiter_lib\<close>); its documented bound, at most \<open>burst\<close> events at once and \<open>rate\<close> per
  second, is the law of the locale \<open>token_bucket\<close>. A method runs under the mutex, so it is one
  function from the state to the state; a handler that panics is the answer \<open>None\<close>.
\<close>

subsection \<open>The limiter package\<close>

record 'l limiter_lib =
  NewLimiter :: "rat \<Rightarrow> int \<Rightarrow> 'l"
  Allow :: "'l \<Rightarrow> time \<Rightarrow> bool \<times> 'l"

fun allow_all :: "'l limiter_lib \<Rightarrow> 'l \<Rightarrow> time list \<Rightarrow> bool list" where
  "allow_all L l [] = []"
| "allow_all L l (t # ts) = (case Allow L l t of (ok, l') \<Rightarrow> ok # allow_all L l' ts)"

definition count_true :: "bool list \<Rightarrow> nat" where
  "count_true bs = length (filter (\<lambda>b. b) bs)"

lemma count_true_simps [simp]:
  "count_true [] = 0" "count_true (b # bs) = (if b then Suc (count_true bs) else count_true bs)"
  by (simp_all add: count_true_def)

text \<open>Seconds between two points in time.\<close>

definition seconds :: "time \<Rightarrow> time \<Rightarrow> rat" where
  "seconds t t' = of_int (t' - t) / 1000000000"

lemma seconds_add: "seconds t u + seconds u v = seconds t v"
  by (simp add: seconds_def flip: add_divide_distrib)

lemma seconds_same [simp]: "seconds t t = 0"
  by (simp add: seconds_def)

lemma seconds_nonneg: "t \<le> u \<Longrightarrow> 0 \<le> seconds t u"
  by (simp add: seconds_def)

locale token_bucket =
  fixes L :: "'l limiter_lib"
  assumes bucket: "sorted (t # ts) \<Longrightarrow> 0 \<le> r \<Longrightarrow> 0 \<le> b \<Longrightarrow>
    of_nat (count_true (allow_all L (NewLimiter L r b) (t # ts))) \<le> of_int b + r * seconds t (last (t # ts))"

text \<open>One instance: tokens are added as time passes, up to the burst, and an event takes one.\<close>

record ref_limiter =
  ref_rate :: rat
  ref_burst :: int
  ref_tokens :: rat
  ref_last :: "time option"

definition ref_Allow :: "ref_limiter \<Rightarrow> time \<Rightarrow> bool \<times> ref_limiter" where
  "ref_Allow l t =
     (let earned = (case ref_last l of None \<Rightarrow> 0 | Some u \<Rightarrow> ref_rate l * seconds u t);
          tokens = min (of_int (ref_burst l)) (ref_tokens l + earned)
      in if 1 \<le> tokens then (True, l\<lparr>ref_tokens := tokens - 1, ref_last := Some t\<rparr>)
         else (False, l\<lparr>ref_tokens := tokens, ref_last := Some t\<rparr>))"

definition ref_limiter_lib :: "ref_limiter limiter_lib" where
  "ref_limiter_lib =
     \<lparr>NewLimiter = (\<lambda>r b. \<lparr>ref_rate = r, ref_burst = b, ref_tokens = of_int b, ref_last = None\<rparr>),
      Allow = ref_Allow\<rparr>"

lemma ref_allow_all_bound:
  assumes "sorted (u # ts)" and "0 \<le> ref_rate l" and "0 \<le> ref_tokens l" and "0 \<le> ref_burst l"
    and "ref_last l = Some u"
  shows "of_nat (count_true (allow_all ref_limiter_lib l ts))
           \<le> ref_tokens l + ref_rate l * seconds u (last (u # ts))"
  using assms
proof (induction ts arbitrary: u l)
  case Nil
  then show ?case by simp
next
  case (Cons t ts)
  let ?e = "ref_rate l * seconds u t" and ?rest = "ref_rate l * seconds t (last (t # ts))"
  let ?tok = "min (of_int (ref_burst l)) (ref_tokens l + ?e)"
  obtain ok l' where step: "ref_Allow l t = (ok, l')" by force
  from Cons.prems(1,2) have earned: "0 \<le> ?e" by (simp add: seconds_nonneg)
  from step Cons.prems(5) have l': "ok \<longleftrightarrow> 1 \<le> ?tok" "ref_tokens l' = (if ok then ?tok - 1 else ?tok)"
    "ref_rate l' = ref_rate l" "ref_burst l' = ref_burst l" "ref_last l' = Some t"
    by (auto simp: ref_Allow_def Let_def split: if_splits)
  with Cons.prems earned have "0 \<le> ref_tokens l'" by auto
  with Cons.IH [of t l'] Cons.prems l'
  have "of_nat (count_true (allow_all ref_limiter_lib l' ts)) \<le> ref_tokens l' + ?rest" by simp
  then have "of_nat (count_true (allow_all ref_limiter_lib l (t # ts))) \<le> ?tok + ?rest"
    using l'(2) step by (auto simp: ref_limiter_lib_def)
  also have "\<dots> \<le> ref_tokens l + (?e + ?rest)" by simp
  also have "?e + ?rest = ref_rate l * seconds u (last (u # t # ts))"
    by (simp add: seconds_add flip: distrib_left)
  finally show ?case .
qed

interpretation ref_bucket: token_bucket ref_limiter_lib
proof
  fix t :: time and ts :: "time list" and r :: rat and b :: int
  assume sorted: "sorted (t # ts)" and nonneg: "0 \<le> r" "0 \<le> b"
  let ?new = "NewLimiter ref_limiter_lib r b"
  obtain ok l where step: "ref_Allow ?new t = (ok, l)" by force
  then have l: "ref_rate l = r" "ref_burst l = b" "ref_last l = Some t" "0 \<le> ref_tokens l"
    "(if ok then 1 else 0) + ref_tokens l = of_int b"
    using nonneg by (auto simp: ref_limiter_lib_def ref_Allow_def Let_def split: if_splits)
  from ref_allow_all_bound [of t ts l] sorted nonneg l
  have "of_nat (count_true (allow_all ref_limiter_lib l ts)) \<le> ref_tokens l + r * seconds t (last (t # ts))"
    by simp
  with step l(5)
  show "of_nat (count_true (allow_all ref_limiter_lib ?new (t # ts))) \<le> of_int b + r * seconds t (last (t # ts))"
    by (auto simp: ref_limiter_lib_def split: if_splits)
qed

subsection \<open>RateLimiter\<close>

record 'l ClientLimiter =
  cl_limiter :: 'l
  lastSeen :: time

record 'l RateLimiter =
  clients :: "string \<rightharpoonup> 'l ClientLimiter"
  rl_rate :: rat
  rl_burst :: int
  rl_ttl :: time

definition NewRateLimiter :: "rat \<Rightarrow> int \<Rightarrow> time \<Rightarrow> 'l RateLimiter" where
  "NewRateLimiter r burst ttl = \<lparr>clients = Map.empty, rl_rate = r, rl_burst = burst, rl_ttl = ttl\<rparr>"

definition getLimiter :: "'l limiter_lib \<Rightarrow> 'l RateLimiter \<Rightarrow> string \<Rightarrow> time \<Rightarrow> 'l \<times> 'l RateLimiter" where
  "getLimiter L rl clientID t =
     (case clients rl clientID of
        Some client \<Rightarrow>
          (cl_limiter client, rl\<lparr>clients := (clients rl)(clientID \<mapsto> client\<lparr>lastSeen := t\<rparr>)\<rparr>)
      | None \<Rightarrow>
          (let limiter = NewLimiter L (rl_rate rl) (rl_burst rl)
           in (limiter, rl\<lparr>clients := (clients rl)(clientID \<mapsto> \<lparr>cl_limiter = limiter, lastSeen = t\<rparr>)\<rparr>)))"

text \<open>
  \<open>limiter.Allow()\<close> on the pointer just returned: the limiter the map holds for the client is
  the one that is updated.
\<close>

definition allow_client :: "'l limiter_lib \<Rightarrow> 'l RateLimiter \<Rightarrow> string \<Rightarrow> time \<Rightarrow> bool \<times> 'l RateLimiter" where
  "allow_client L rl clientID t =
     (case getLimiter L rl clientID t of (l, rl1) \<Rightarrow>
      case Allow L l t of (ok, l') \<Rightarrow>
        (ok, rl1\<lparr>clients := (clients rl1)(clientID \<mapsto> \<lparr>cl_limiter = l', lastSeen = t\<rparr>)\<rparr>))"

text \<open>One tick of the cleanup loop.\<close>

definition cleanup :: "time \<Rightarrow> 'l RateLimiter \<Rightarrow> 'l RateLimiter" where
  "cleanup t rl =
     rl\<lparr>clients := (\<lambda>i. case clients rl i of
                          None \<Rightarrow> None
                        | Some client \<Rightarrow> if t - lastSeen client > rl_ttl rl then None else Some client)\<rparr>"

text \<open>\<open>string(rune(n))\<close>: the UTF-8 form of the character with that number.\<close>

definition rune_string :: "int \<Rightarrow> string" where
  "rune_string n =
     (let c = sint (word_of_int n :: 32 word); k = nat c; cont = (\<lambda>i. char_of (128 + k div 64 ^ i mod 64))
      in if c < 0 \<or> 1114111 < c \<or> (55296 \<le> c \<and> c \<le> 57343) then [CHR 0xEF, CHR 0xBF, CHR 0xBD]
         else if c < 128 then [char_of k]
         else if c < 2048 then [char_of (192 + k div 64), cont 0]
         else if c < 65536 then [char_of (224 + k div 64 ^ 2), cont 1, cont 0]
         else [char_of (240 + k div 64 ^ 3), cont 2, cont 1, cont 0])"

text \<open>\<open>http.Error\<close>\<close>

definition http_Error :: "string \<Rightarrow> int \<Rightarrow> wr_call list" where
  "http_Error msg code =
     [SetHeader ''Content-Type'' ''text/plain; charset=utf-8'', SetHeader ''X-Content-Type-Options'' ''nosniff'',
      WriteHeader code, WriteBody (msg @ [CHR 0x0A])]"

text \<open>
  The handler behind a limiter, over whatever state it has; it may itself panic.
\<close>

type_synonym 's http_handler = "request \<Rightarrow> 's \<Rightarrow> wr_call list option \<times> 's"

text \<open>The client identifier of the global middleware; \<open>None\<close> is the failed type assertion.\<close>

definition middleware_client :: "request \<Rightarrow> string option" where
  "middleware_client r =
     (case ContextUserID r of
        IString u \<Rightarrow> Some (''user:'' @ u)
      | INil \<Rightarrow> Some (if Header r ''X-API-Key'' = [] then RemoteAddr r else ''api:'' @ Header r ''X-API-Key'')
      | _ \<Rightarrow> None)"

definition RateLimiter_Middleware ::
  "'l limiter_lib \<Rightarrow> 's http_handler \<Rightarrow> time \<Rightarrow> request \<Rightarrow> 'l RateLimiter \<Rightarrow> 's \<Rightarrow>
   (wr_call list option \<times> 'l RateLimiter) \<times> 's" where
  "RateLimiter_Middleware L next_handler t r rl s =
     (case middleware_client r of
        None \<Rightarrow> ((None, rl), s)
      | Some clientID \<Rightarrow>
     (case allow_client L rl clientID t of (ok, rl1) \<Rightarrow>
      if \<not> ok then
        ((Some ([SetHeader ''X-RateLimit-Limit'' (rune_string (rl_burst rl1)),
                 SetHeader ''X-RateLimit-Remaining'' ''0'', SetHeader ''Retry-After'' ''1'']
                @ http_Error ''Too many requests'' 429), rl1), s)
      else
        (case next_handler r s of (calls, s1) \<Rightarrow>
           ((map_option (\<lambda>cs. SetHeader ''X-RateLimit-Limit'' (rune_string (rl_burst rl1)) # cs) calls, rl1), s1))))"

subsection \<open>PerEndpointLimiter\<close>

record 'l PerEndpointLimiter =
  limiters :: "string \<rightharpoonup> 'l RateLimiter"
  defaults :: "'l RateLimiter"

definition NewPerEndpointLimiter :: "rat \<Rightarrow> int \<Rightarrow> 'l PerEndpointLimiter" where
  "NewPerEndpointLimiter defaultRate defaultBurst =
     \<lparr>limiters = Map.empty,
      defaults = NewRateLimiter defaultRate defaultBurst (10 * 60 * 1000000000)\<rparr>"

definition SetEndpointRate ::
  "string \<Rightarrow> rat \<Rightarrow> int \<Rightarrow> time \<Rightarrow> 'l PerEndpointLimiter \<Rightarrow> 'l PerEndpointLimiter" where
  "SetEndpointRate pattern r burst ttl pel =
     pel\<lparr>limiters := (limiters pel)(pattern \<mapsto> NewRateLimiter r burst ttl)\<rparr>"

definition getClientID :: "request \<Rightarrow> string option" where
  "getClientID r =
     (case ContextUserID r of
        IString u \<Rightarrow> Some (''user:'' @ u)
      | INil \<Rightarrow> Some (''ip:'' @ (if Header r ''X-Forwarded-For'' = [] then RemoteAddr r
                                   else Header r ''X-Forwarded-For''))
      | _ \<Rightarrow> None)"

definition matchPath :: "string \<Rightarrow> string \<Rightarrow> bool" where
  "matchPath pattern path \<longleftrightarrow>
     pattern = path \<or> (0 < length pattern \<and> pattern ! (length pattern - 1) = CHR ''*''
       \<and> length pattern - 1 \<le> length path
       \<and> take (length pattern - 1) path = take (length pattern - 1) pattern)"

text \<open>
  The middleware ranges over a Go map, whose order is not specified: \<open>order\<close> lists the patterns
  in the order the runtime chose, and the first that matches wins.
\<close>

definition find_endpoint :: "string list \<Rightarrow> string \<Rightarrow> 'l PerEndpointLimiter \<Rightarrow> string option" where
  "find_endpoint order path pel = find (\<lambda>p. matchPath p path) (filter (\<lambda>p. limiters pel p \<noteq> None) order)"

definition PerEndpointLimiter_Middleware ::
  "'l limiter_lib \<Rightarrow> string list \<Rightarrow> 's http_handler \<Rightarrow> time \<Rightarrow> request \<Rightarrow> 'l PerEndpointLimiter \<Rightarrow> 's \<Rightarrow>
   (wr_call list option \<times> 'l PerEndpointLimiter) \<times> 's" where
  "PerEndpointLimiter_Middleware L order next_handler t r pel s =
     (let pattern = find_endpoint order (Path r) pel;
          limiter = (case pattern of None \<Rightarrow> defaults pel | Some p \<Rightarrow> the (limiters pel p));
          store = (\<lambda>rl. case pattern of None \<Rightarrow> pel\<lparr>defaults := rl\<rparr>
                          | Some p \<Rightarrow> pel\<lparr>limiters := (limiters pel)(p \<mapsto> rl)\<rparr>)
      in case getClientID r of
           None \<Rightarrow> ((None, pel), s)
         | Some clientID \<Rightarrow>
             (case allow_client L limiter clientID t of (ok, rl1) \<Rightarrow>
              if \<not> ok
              then ((Some (http_Error ''Rate limit exceeded. Please try again later.'' 429), store rl1), s)
              else (case next_handler r s of (calls, s1) \<Rightarrow> ((calls, store rl1), s1))))"

subsection \<open>Clients are limited separately\<close>

definition client_limiter :: "'l limiter_lib \<Rightarrow> 'l RateLimiter \<Rightarrow> string \<Rightarrow> 'l" where
  "client_limiter L rl c =
     (case clients rl c of None \<Rightarrow> NewLimiter L (rl_rate rl) (rl_burst rl) | Some cl \<Rightarrow> cl_limiter cl)"

lemma allow_client_eq:
  assumes "allow_client L rl c t = (ok, rl1)"
  shows "Allow L (client_limiter L rl c) t = (ok, client_limiter L rl1 c)"
    and "rl_rate rl1 = rl_rate rl" and "rl_burst rl1 = rl_burst rl" and "rl_ttl rl1 = rl_ttl rl"
    and "c' \<noteq> c \<Longrightarrow> clients rl1 c' = clients rl c'"
    and "clients rl1 c \<noteq> None"
  using assms
  by (auto simp: allow_client_def getLimiter_def client_limiter_def Let_def split: prod.splits option.splits)

lemma client_limiter_other:
  assumes "allow_client L rl c t = (ok, rl1)" and "c' \<noteq> c"
  shows "client_limiter L rl1 c' = client_limiter L rl c'"
  using allow_client_eq(2,3,5) [OF assms(1)] assms(2) by (simp add: client_limiter_def split: option.split)

text \<open>The cleanup drops exactly the clients that were idle for longer than the ttl.\<close>

lemma cleanup_clients:
  "clients (cleanup t rl) c = Some cl \<longleftrightarrow> clients rl c = Some cl \<and> t - lastSeen cl \<le> rl_ttl rl"
  by (auto simp: cleanup_def split: option.splits)

text \<open>A client that is dropped starts again with a full bucket, any other keeps its limiter.\<close>

lemma cleanup_limiter:
  "client_limiter L (cleanup t rl) c =
     (case clients rl c of
        Some cl \<Rightarrow> if t - lastSeen cl > rl_ttl rl then NewLimiter L (rl_rate rl) (rl_burst rl) else cl_limiter cl
      | None \<Rightarrow> NewLimiter L (rl_rate rl) (rl_burst rl))"
  by (simp add: client_limiter_def cleanup_def split: option.split)

text \<open>The limit header of a burst below 128 is one character, not the number.\<close>

lemma rune_string_small: "0 \<le> n \<Longrightarrow> n < 128 \<Longrightarrow> rune_string n = [char_of (nat n)]"
proof -
  assume n: "0 \<le> n" "n < 128"
  then have "sint (word_of_int n :: 32 word) = n"
    by (simp add: sint_sbintrunc' signed_take_bit_int_eq_self)
  with n show ?thesis by (simp add: rune_string_def Let_def)
qed

subsection \<open>Patterns\<close>

lemma matchPath_star: "matchPath (pre @ ''*'') path \<longleftrightarrow> take (length pre) path = pre"
proof
  assume "matchPath (pre @ ''*'') path"
  then show "take (length pre) path = pre" by (auto simp: matchPath_def)
next
  assume *: "take (length pre) path = pre"
  then have "length pre \<le> length path" by (metis length_take min.cobounded1 min_def)
  with * show "matchPath (pre @ ''*'') path" by (simp add: matchPath_def)
qed

lemma find_endpoint_Some:
  assumes "find_endpoint order path pel = Some p"
  shows "matchPath p path" and "limiters pel p \<noteq> None"
  using find_SomeD [OF assms [unfolded find_endpoint_def]] by auto

lemma find_endpoint_None:
  assumes "find_endpoint order path pel = None" and "dom (limiters pel) \<subseteq> set order"
  shows "matchPath p path \<Longrightarrow> limiters pel p = None"
  using assms by (auto simp: find_endpoint_def find_None_iff)

end
