(* ===== verification/Rate_Bounds.thy ===== *)
theory Rate_Bounds
  imports Rate_Limit
begin

section \<open>How much of one client a limiter lets through\<close>

text \<open>
  The runs of one \<open>RateLimiter\<close>: requests of any clients in the order they take the mutex, and
  the ticks of the cleanup goroutine between them. The law of the locale \<open>token_bucket\<close> speaks
  of one bucket; here it is carried over to a client, whose bucket the cleanup may throw away
  and make anew.
\<close>

text \<open>
  What reaches one limiter: requests of clients, and the ticks of its cleanup goroutine.
\<close>

datatype limiter_event = Request string time | Cleanup time

fun event_time :: "limiter_event \<Rightarrow> time" where
  "event_time (Request c t) = t"
| "event_time (Cleanup t) = t"

text \<open>The times of one client's requests, and what was decided on them.\<close>

fun request_times :: "string \<Rightarrow> limiter_event list \<Rightarrow> time list" where
  "request_times c [] = []"
| "request_times c (Request d t # evs) = (if d = c then t # request_times c evs else request_times c evs)"
| "request_times c (Cleanup t # evs) = request_times c evs"

fun request_decisions :: "'l limiter_lib \<Rightarrow> 'l RateLimiter \<Rightarrow> string \<Rightarrow> limiter_event list \<Rightarrow> bool list" where
  "request_decisions L rl c [] = []"
| "request_decisions L rl c (Request d t # evs) =
     (case allow_client L rl d t of (ok, rl1) \<Rightarrow>
        (if d = c then ok # request_decisions L rl1 c evs else request_decisions L rl1 c evs))"
| "request_decisions L rl c (Cleanup t # evs) = request_decisions L (cleanup t rl) c evs"

text \<open>The limiter of a client after the given requests.\<close>

fun limiter_after :: "'l limiter_lib \<Rightarrow> 'l \<Rightarrow> time list \<Rightarrow> 'l" where
  "limiter_after L l [] = l"
| "limiter_after L l (t # ts) = limiter_after L (snd (Allow L l t)) ts"

lemma limiter_after_append: "limiter_after L l (ts @ us) = limiter_after L (limiter_after L l ts) us"
  by (induction ts arbitrary: l) simp_all

lemma count_true_append: "count_true (as @ bs) = count_true as + count_true bs"
  by (simp add: count_true_def)

lemma allow_all_append:
  "allow_all L l (ts @ us) = allow_all L l ts @ allow_all L (limiter_after L l ts) us"
  by (induction ts arbitrary: l) (simp_all split: prod.split)

lemma allow_client_entry:
  assumes "allow_client L rl c t = (ok, rl1)"
  shows "clients rl1 c = Some \<lparr>cl_limiter = limiter_after L (client_limiter L rl c) [t], lastSeen = t\<rparr>"
  using assms
  by (auto simp: allow_client_def getLimiter_def client_limiter_def Let_def split: prod.splits option.splits)

lemma cleanup_simps [simp]:
  "rl_rate (cleanup t rl) = rl_rate rl" "rl_burst (cleanup t rl) = rl_burst rl" "rl_ttl (cleanup t rl) = rl_ttl rl"
  by (simp_all add: cleanup_def)

lemma seconds_le: "t \<le> u \<Longrightarrow> u \<le> v \<Longrightarrow> seconds t u \<le> seconds t v"
  by (simp add: seconds_def divide_right_mono)

text \<open>
  What is allowed from a state on: of a client without a limiter, and of one whose limiter has
  already decided on \<open>ts\<close>.
\<close>

definition bounded_new :: "'l limiter_lib \<Rightarrow> 'l RateLimiter \<Rightarrow> string \<Rightarrow> limiter_event list \<Rightarrow> bool" where
  "bounded_new L rl c evs \<longleftrightarrow>
     (case request_times c evs of
        [] \<Rightarrow> request_decisions L rl c evs = []
      | u # us \<Rightarrow> of_nat (count_true (request_decisions L rl c evs))
                    \<le> of_int (rl_burst rl) + rl_rate rl * seconds u (last (u # us)))"

definition bounded_known :: "'l limiter_lib \<Rightarrow> 'l RateLimiter \<Rightarrow> string \<Rightarrow> time list \<Rightarrow> limiter_event list \<Rightarrow> bool" where
  "bounded_known L rl c ts evs \<longleftrightarrow>
     of_nat (count_true (allow_all L (NewLimiter L (rl_rate rl) (rl_burst rl)) ts)
             + count_true (request_decisions L rl c evs))
       \<le> of_int (rl_burst rl) + rl_rate rl * seconds (hd ts) (last (last ts # request_times c evs))"

definition known :: "'l limiter_lib \<Rightarrow> 'l RateLimiter \<Rightarrow> string \<Rightarrow> time list \<Rightarrow> bool" where
  "known L rl c ts \<longleftrightarrow> ts \<noteq> [] \<and> sorted ts
     \<and> clients rl c = Some \<lparr>cl_limiter = limiter_after L (NewLimiter L (rl_rate rl) (rl_burst rl)) ts,
                            lastSeen = last ts\<rparr>"

lemma request_times_ge: "t \<in> set (request_times c evs) \<Longrightarrow> t \<in> set (map event_time evs)"
  by (induction c evs rule: request_times.induct) (auto split: if_splits)

text \<open>
  A client that is dropped starts with a full bucket again, but only after an idle time in
  which its old bucket would have been filled anyway, if the ttl is long enough for that.
\<close>

lemma dropped_bound:
  assumes new: "bounded_new L rl c evs"
    and old: "of_nat n \<le> of_int (rl_burst rl) + rl_rate rl * seconds t v"
    and idle: "rl_ttl rl < u - v" and later: "\<forall>w \<in> set (request_times c evs). u \<le> w"
    and ttl: "of_int (rl_burst rl) \<le> rl_rate rl * (of_int (rl_ttl rl) / 1000000000)"
    and nonneg: "0 \<le> rl_rate rl"
  shows "of_nat (n + count_true (request_decisions L rl c evs))
           \<le> of_int (rl_burst rl) + rl_rate rl * seconds t (last (v # request_times c evs))"
proof (cases "request_times c evs")
  case Nil
  with new old show ?thesis by (simp add: bounded_new_def)
next
  case (Cons w ws)
  let ?m = "of_nat (count_true (request_decisions L rl c evs)) :: rat" and ?e = "last (w # ws)"
  have "(of_int (rl_ttl rl) / 1000000000 :: rat) \<le> seconds v w"
    using idle later Cons by (auto simp: seconds_def intro!: divide_right_mono)
  then have "rl_rate rl * (of_int (rl_ttl rl) / 1000000000) \<le> rl_rate rl * seconds v w"
    using nonneg by (rule mult_left_mono)
  with ttl have "of_int (rl_burst rl) \<le> rl_rate rl * seconds v w" by linarith
  moreover have "?m \<le> of_int (rl_burst rl) + rl_rate rl * seconds w ?e"
    using new Cons by (simp add: bounded_new_def)
  moreover have "rl_rate rl * seconds t v + rl_rate rl * seconds v w + rl_rate rl * seconds w ?e
      = rl_rate rl * seconds t ?e"
    by (simp add: seconds_add flip: distrib_left)
  ultimately have "of_nat n + ?m \<le> of_int (rl_burst rl) + rl_rate rl * seconds t ?e"
    using old by linarith
  with Cons show ?thesis by simp
qed

lemma sorted_snoc: "sorted ts \<Longrightarrow> ts \<noteq> [] \<Longrightarrow> last ts \<le> (t :: time) \<Longrightarrow> sorted (ts @ [t])"
proof (induction ts)
  case (Cons x xs)
  then show ?case by (cases xs) auto
qed simp

context token_bucket
begin

lemma known_bound:
  assumes "known L rl c ts" and "0 \<le> rl_rate rl" and "0 \<le> rl_burst rl"
  shows "of_nat (count_true (allow_all L (NewLimiter L (rl_rate rl) (rl_burst rl)) ts))
           \<le> of_int (rl_burst rl) + rl_rate rl * seconds (hd ts) (last ts)"
  using assms bucket [of "hd ts" "tl ts"] by (simp add: known_def)

lemma events_bound:
  assumes "0 \<le> rl_rate rl" and "0 \<le> rl_burst rl"
    and "of_int (rl_burst rl) \<le> rl_rate rl * (of_int (rl_ttl rl) / 1000000000)"
    and "sorted (map event_time evs)"
  shows "(clients rl c = None \<longrightarrow> bounded_new L rl c evs)
    \<and> (\<forall>ts. known L rl c ts \<longrightarrow> (\<forall>e \<in> set evs. last ts \<le> event_time e) \<longrightarrow> bounded_known L rl c ts evs)"
  using assms
proof (induction evs arbitrary: rl)
  case Nil
  then show ?case using known_bound by (simp add: bounded_new_def bounded_known_def)
next
  case (Cons ev evs)
  from Cons.prems(4) have sorted: "sorted (map event_time evs)" and first: "\<forall>e \<in> set evs. event_time ev \<le> event_time e"
    by auto
  show ?case
  proof (cases ev)
    case (Request d t)
    obtain ok rl1 where step: "allow_client L rl d t = (ok, rl1)" by force
    note keep = allow_client_eq(2-4) [OF step]
    note IH = Cons.IH [of rl1, unfolded keep, OF Cons.prems(1-3) sorted]
    show ?thesis
    proof (cases "d = c")
      case False
      with IH allow_client_eq(5) [OF step, of c] first show ?thesis
        by (auto simp: Request step bounded_new_def bounded_known_def known_def keep split: list.splits)
    next
      case True
      note step' = step [unfolded True]
      note entry = allow_client_entry [OF step'] allow_client_eq(1) [OF step']
      have "bounded_new L rl c (ev # evs)" if "clients rl c = None"
      proof -
        have "known L rl1 c [t]"
          using that entry(1) by (simp add: known_def client_limiter_def keep)
        with IH first Request have "bounded_known L rl1 c [t] evs" by simp
        then show ?thesis
          using that entry(2)
          by (auto simp: bounded_known_def bounded_new_def Request True step' keep client_limiter_def split: if_splits)
      qed
      moreover have "bounded_known L rl c ts (ev # evs)"
        if k: "known L rl c ts" and later: "\<forall>e \<in> set (ev # evs). last ts \<le> event_time e" for ts
      proof -
        have "known L rl1 c (ts @ [t])"
          using k entry(1) later Request
          by (auto simp: known_def client_limiter_def keep limiter_after_append intro: sorted_snoc)
        with IH first Request have "bounded_known L rl1 c (ts @ [t]) evs" by simp
        then show ?thesis
          using k entry(2)
          by (auto simp: bounded_known_def Request True step' keep client_limiter_def known_def
              allow_all_append count_true_append split: if_splits)
      qed
      ultimately show ?thesis by blast
    qed
  next
    case (Cleanup t)
    note IH = Cons.IH [of "cleanup t rl", unfolded cleanup_simps, OF Cons.prems(1-3) sorted]
    have "bounded_known L rl c ts (ev # evs)"
      if k: "known L rl c ts" and later: "\<forall>e \<in> set (ev # evs). last ts \<le> event_time e" for ts
    proof (cases "rl_ttl rl < t - last ts")
      case True
      with k have "clients (cleanup t rl) c = None" by (simp add: cleanup_def known_def)
      with IH have "bounded_new L (cleanup t rl) c evs" by blast
      from dropped_bound [OF this, of _ "hd ts" "last ts" t] known_bound [OF k] Cons.prems(1-3) True
        first Cleanup request_times_ge
      show ?thesis by (fastforce simp: bounded_known_def Cleanup)
    next
      case False
      with k have "known L (cleanup t rl) c ts" by (simp add: cleanup_def known_def)
      with IH later show ?thesis by (simp add: bounded_known_def Cleanup)
    qed
    moreover have "clients (cleanup t rl) c = None" if "clients rl c = None"
      using that by (simp add: cleanup_def)
    moreover have "bounded_new L rl c (ev # evs)" if "bounded_new L (cleanup t rl) c evs"
      using that by (cases "request_times c evs") (simp_all add: bounded_new_def Cleanup)
    ultimately show ?thesis using IH by blast
  qed
qed

text \<open>
  A client that the limiter does not know yet, whatever the other clients send and whenever the
  cleanup runs.
\<close>

lemma new_client_bound:
  assumes "clients rl c = None" and "request_times c evs = u # us" and "sorted (map event_time evs)"
    and "0 \<le> rl_rate rl" and "0 \<le> rl_burst rl"
    and "of_int (rl_burst rl) \<le> rl_rate rl * (of_int (rl_ttl rl) / 1000000000)"
  shows "of_nat (count_true (request_decisions L rl c evs))
           \<le> of_int (rl_burst rl) + rl_rate rl * seconds u (last (u # us))"
  using events_bound [OF assms(4-6,3), of c] assms(1,2) by (simp add: bounded_new_def split: if_splits)

end
end
