(* ===== verification/Server.thy ===== *)
theory Server
  imports Process Api_Safety Replay Rate_Bounds
begin

section \<open>cmd/main.go: probes, routes and middleware\<close>

text \<open>
  The two probes, the route table with the chain in front of the protected routes, and the
  middleware in front of every route, composed in the order of \<open>main\<close>. A \<open>server\<close> is what
  \<open>main\<close> builds and never changes; \<open>process\<close> is the state it keeps, the clients of its limiters
  and the lines it logged; the database and the calls made on it are the \<open>session\<close>.
\<close>

subsection \<open>Header and size middleware, probes\<close>

type_synonym handler = "request \<Rightarrow> (wr_call list) answer"

definition security_headers :: "wr_call list" where
  "security_headers =
     [SetHeader ''X-Content-Type-Options'' ''nosniff'', SetHeader ''X-Frame-Options'' ''DENY'',
      SetHeader ''X-XSS-Protection'' ''1; mode=block'',
      SetHeader ''Referrer-Policy'' ''strict-origin-when-cross-origin'']"

definition securityHeaders :: "'s http_handler \<Rightarrow> 's http_handler" where
  "securityHeaders next_handler r s =
     (case next_handler r s of (calls, s1) \<Rightarrow> (map_option (\<lambda>cs. security_headers @ cs) calls, s1))"

text \<open>
  \<open>http.MaxBytesReader\<close>: reading stops after one megabyte. It then also reports an error, which
  the decoders meet as the end of a truncated text.
\<close>

definition requestSizeLimiter :: "'s http_handler \<Rightarrow> 's http_handler" where
  "requestSizeLimiter next_handler r s = next_handler (r\<lparr>Body := take 1048576 (Body r)\<rparr>) s"

text \<open>\<open>dbConn.PingContext\<close>\<close>

definition Ping :: "world \<Rightarrow> unit op" where
  "Ping W s =
     (case fault W (tick s) of
        NoFault \<Rightarrow> (Inr (), s\<lparr>tick := Suc (tick s)\<rparr>)
      | Fail err \<Rightarrow> (Inl err, s\<lparr>tick := Suc (tick s)\<rparr>)
      | LostReply err \<Rightarrow> (Inl err, s\<lparr>tick := Suc (tick s)\<rparr>))"

text \<open>The map of the probe, encoded with its keys sorted.\<close>

definition health_json :: "string \<Rightarrow> string \<Rightarrow> string \<Rightarrow> json" where
  "health_json status uptime dbcheck =
     JObject [(''checks'', JObject [(''database'', JString dbcheck)]), (''status'', JString status),
              (''uptime'', JString uptime), (''version'', JString ''1.0.0'')]"

definition health :: "world \<Rightarrow> string \<Rightarrow> handler" where
  "health W uptime r s =
     (case Ping W s of
        (Inl err, s1) \<Rightarrow>
          ([WriteHeader 503, SetHeader ''Content-Type'' ''application/json'',
            WriteBody (json_encode (health_json ''unhealthy'' uptime (''failed: '' @ error_text err)) @ [CHR 0x0A])],
           s1)
      | (Inr _, s1) \<Rightarrow>
          ([SetHeader ''Content-Type'' ''application/json'',
            WriteBody (json_encode (health_json ''healthy'' uptime ''connected'') @ [CHR 0x0A])], s1))"

definition ready :: "world \<Rightarrow> handler" where
  "ready W r s =
     (case Ping W s of
        (Inl err, s1) \<Rightarrow> ([WriteHeader 503, WriteBody ''database not ready''], s1)
      | (Inr _, s1) \<Rightarrow> ([WriteHeader 200, WriteBody ''ready''], s1))"

text \<open>The failing probe sets its content type after the status line: it is not sent.\<close>

lemma health_client:
  "client_status (fst (health W uptime r s)) = (if fault W (tick s) = NoFault then 200 else 503)"
  "client_headers (fst (health W uptime r s))
   = (if fault W (tick s) = NoFault then [(''Content-Type'', ''application/json'')] else [])"
  by (simp_all add: health_def Ping_def client_status_def client_headers_def wr_run_def new_writer_def
      Let_def split: fault.split)

subsection \<open>Routes\<close>

text \<open>
  One constructor per registered route with a handler of the program. Which one a request is
  matched to, and the parameters of its path, are the work of the chi router.
\<close>

datatype route =
    PostRegister | PostLogin | GetHealth | GetReady
  | PostAccounts | GetAccounts | GetAccountById | PostDeposit | PostWithdraw | PostTransfers
  | GetAccountEntries | GetReconcile | GetTransactionById

definition protected_handler :: "'d deps \<Rightarrow> world \<Rightarrow> route \<Rightarrow> handler" where
  "protected_handler X W rt =
     (case rt of
        PostAccounts \<Rightarrow> Handler_CreateAccount X W
      | GetAccounts \<Rightarrow> Handler_ListAccounts X W
      | GetAccountById \<Rightarrow> Handler_GetAccount X W
      | PostDeposit \<Rightarrow> Handler_Deposit X W
      | PostWithdraw \<Rightarrow> Handler_Withdraw X W
      | PostTransfers \<Rightarrow> Handler_Transfer X W
      | GetAccountEntries \<Rightarrow> Handler_GetEntries X W
      | GetReconcile \<Rightarrow> Handler_ReconcileAccount X W
      | _ \<Rightarrow> Handler_GetTransactions X W)"

text \<open>
  What a server is built from: the environment of the process, the parameters, the token secret,
  the pair of \<open>jwtauth\<close> middleware in front of the protected routes (the response they give
  instead of passing the request on, or \<open>None\<close>), the text of its uptime, the limiter package,
  the order in which the runtime ranges over the map of patterns at a given call, the identifier
  chi gives a request, the status and the number of bytes its wrapped writer reports for the
  calls of a handler, and the CORS package.
\<close>

type_synonym cors_lib = "cors_options \<Rightarrow> request \<Rightarrow> (string \<times> string) list \<times> int option"

record ('d, 'l) server =
  srv_env :: env
  srv_deps :: "'d deps"
  srv_token :: "string option"
  srv_rejects :: "request \<Rightarrow> wr_call list option"
  srv_uptime :: "time \<Rightarrow> string"
  srv_limiter :: "'l limiter_lib"
  srv_order :: "nat \<Rightarrow> string list"
  srv_request_id :: "request \<Rightarrow> nat \<Rightarrow> string"
  srv_wrapped :: "wr_call list \<Rightarrow> int \<times> nat"
  srv_cors :: cors_lib

text \<open>
  The state of the process next to the session: the two limiters of \<open>main\<close>, and the lines of
  \<open>loggingMiddleware\<close>, one when a request arrives and one when it was answered.
\<close>

datatype log_line =
    Received (log_request_id: string) (log_method: string) (log_path: string) (log_remote: string) (log_agent: string)
  | Completed (log_status: int) (log_bytes: nat) (log_duration: time) (log_request_id: string)

record 'l process =
  prc_global :: "'l RateLimiter"
  prc_endpoint :: "'l PerEndpointLimiter"
  prc_log :: "log_line list"

text \<open>The group of protected routes: \<open>jwtauth\<close>, the endpoint limiter, the idempotency middleware.\<close>

definition protected_chain ::
  "('d, 'l) server \<Rightarrow> world \<Rightarrow> route \<Rightarrow> ('l PerEndpointLimiter \<times> session) http_handler" where
  "protected_chain S W rt r st =
     (case st of (pel, s) \<Rightarrow>
      case srv_rejects S r of
        Some resp \<Rightarrow> (Some resp, (pel, s))
      | None \<Rightarrow>
          (case PerEndpointLimiter_Middleware (srv_limiter S) (srv_order S (tick s))
                  (\<lambda>r s. case IdempotencyMiddleware (srv_deps S) W (protected_handler (srv_deps S) W rt) r s of
                           (calls, s1) \<Rightarrow> (Some calls, s1))
                  (now W (tick s)) r pel s of
             ((calls, pel1), s1) \<Rightarrow> (calls, (pel1, s1))))"

definition public_route :: "handler \<Rightarrow> ('p \<times> session) http_handler" where
  "public_route h r st = (case st of (p, s) \<Rightarrow> case h r s of (calls, s1) \<Rightarrow> (Some calls, (p, s1)))"

definition serve_route ::
  "('d, 'l) server \<Rightarrow> world \<Rightarrow> route \<Rightarrow> ('l PerEndpointLimiter \<times> session) http_handler" where
  "serve_route S W rt =
     (case rt of
        PostRegister \<Rightarrow> public_route (Handler_Register (srv_deps S) W (srv_token S))
      | PostLogin \<Rightarrow> public_route (Handler_Login (srv_deps S) W (srv_token S))
      | GetHealth \<Rightarrow> public_route (\<lambda>r s. health W (srv_uptime S (now W (tick s))) r s)
      | GetReady \<Rightarrow> public_route (ready W)
      | _ \<Rightarrow> protected_chain S W rt)"

text \<open>A request behind the global limiter.\<close>

definition limited_route :: "('d, 'l) server \<Rightarrow> world \<Rightarrow> route \<Rightarrow> ('l process \<times> session) http_handler" where
  "limited_route S W rt r st =
     (case st of (prc, s) \<Rightarrow>
      case RateLimiter_Middleware (srv_limiter S) (serve_route S W rt) (now W (tick s)) r
             (prc_global prc) (prc_endpoint prc, s) of
        ((calls, rl), (pel, s1)) \<Rightarrow> (calls, (prc\<lparr>prc_global := rl, prc_endpoint := pel\<rparr>, s1)))"

text \<open>
  \<open>cors.Handler\<close>: the headers the package sets for the request, and the status with which it
  answers a preflight request itself. These headers come before those of the handler.
\<close>

definition cors_Handler :: "cors_lib \<Rightarrow> cors_options \<Rightarrow> 's http_handler \<Rightarrow> 's http_handler" where
  "cors_Handler C opts next_handler r s =
     (case C opts r of
        (hs, Some code) \<Rightarrow> (Some (map (\<lambda>(k, v). SetHeader k v) hs @ [WriteHeader code]), s)
      | (hs, None) \<Rightarrow>
          (case next_handler r s of
             (calls, s1) \<Rightarrow> (map_option (\<lambda>cs. map (\<lambda>(k, v). SetHeader k v) hs @ cs) calls, s1)))"

text \<open>A panic of the handler passes through without the second line.\<close>

definition loggingMiddleware ::
  "('d, 'l) server \<Rightarrow> world \<Rightarrow> ('l process \<times> session) http_handler \<Rightarrow> ('l process \<times> session) http_handler" where
  "loggingMiddleware S W next_handler r st =
     (case st of (prc, s) \<Rightarrow>
     (let reqID = srv_request_id S r (tick s);
          start = now W (tick s);
          line = Received reqID (Method r) (Path r) (RemoteAddr r) (Header r ''User-Agent'')
      in case next_handler r (prc\<lparr>prc_log := prc_log prc @ [line]\<rparr>, s) of
           (None, st1) \<Rightarrow> (None, st1)
         | (Some calls, (prc1, s1)) \<Rightarrow>
             (case srv_wrapped S calls of (status, bytes) \<Rightarrow>
                (Some calls,
                 (prc1\<lparr>prc_log := prc_log prc1 @ [Completed status bytes (now W (tick s1) - start) reqID]\<rparr>, s1)))))"

definition serve ::
  "('d, 'l) server \<Rightarrow> world \<Rightarrow> route \<Rightarrow> ('l process \<times> session) http_handler" where
  "serve S W rt =
     securityHeaders (requestSizeLimiter (loggingMiddleware S W
       (cors_Handler (srv_cors S) (corsOptions (srv_env S)) (limited_route S W rt))))"

lemmas middleware_defs =
  securityHeaders_def requestSizeLimiter_def loggingMiddleware_def cors_Handler_def Let_def

text \<open>
  One process: the requests it serves one after the other (those it serves at the same time are
  in the world), and the ticks of its limiters' cleanup goroutines. \<open>None\<close> in place of a
  response is a panic of a limiter.
\<close>

datatype limiter_name = GlobalLimiter | DefaultLimiter | EndpointLimiter string

datatype server_event = Incoming route request | CleanupTick limiter_name

definition cleanup_process :: "time \<Rightarrow> limiter_name \<Rightarrow> 'l process \<Rightarrow> 'l process" where
  "cleanup_process t name prc =
     (let pel = prc_endpoint prc in
      case name of
        GlobalLimiter \<Rightarrow> prc\<lparr>prc_global := cleanup t (prc_global prc)\<rparr>
      | DefaultLimiter \<Rightarrow> prc\<lparr>prc_endpoint := pel\<lparr>defaults := cleanup t (defaults pel)\<rparr>\<rparr>
      | EndpointLimiter p \<Rightarrow>
          prc\<lparr>prc_endpoint := pel\<lparr>limiters := (limiters pel)(p := map_option (cleanup t) (limiters pel p))\<rparr>\<rparr>)"

fun serve_all ::
  "('d, 'l) server \<Rightarrow> world \<Rightarrow> server_event list \<Rightarrow> 'l process \<times> session \<Rightarrow>
   wr_call list option list \<times> 'l process \<times> session" where
  "serve_all S W [] st = ([], st)"
| "serve_all S W (Incoming rt r # evs) st =
     (case serve S W rt r st of (resp, st1) \<Rightarrow>
      case serve_all S W evs st1 of (rest, st2) \<Rightarrow> (resp # rest, st2))"
| "serve_all S W (CleanupTick name # evs) (prc, s) =
     serve_all S W evs (cleanup_process (now W (tick s)) name prc, s)"

text \<open>
  The limiters \<open>main\<close> configures. \<open>base\<close> is the result of the constructor of the endpoint
  limiter, which the package does not declare under the name that \<open>main\<close> calls.
\<close>

definition globalLimiter :: "'l RateLimiter" where
  "globalLimiter = NewRateLimiter 100 50 (seconds_ns (10 * 60))"

definition endpointLimiter :: "'l PerEndpointLimiter \<Rightarrow> 'l PerEndpointLimiter" where
  "endpointLimiter base =
     SetEndpointRate ''/accounts/*'' 200 100 (seconds_ns (5 * 60))
       (SetEndpointRate ''/register'' 3 2 (seconds_ns (30 * 60))
         (SetEndpointRate ''/login'' 5 3 (seconds_ns (15 * 60)) base))"

text \<open>
  Every configured limiter refills its burst within the ttl, so that throwing an idle bucket
  away gives nothing to its client.
\<close>

lemma globalLimiter_refills:
  "clients globalLimiter c = None" "0 \<le> rl_rate globalLimiter" "0 \<le> rl_burst globalLimiter"
  "of_int (rl_burst globalLimiter) \<le> rl_rate globalLimiter * (of_int (rl_ttl globalLimiter) / 1000000000)"
  by (simp_all add: globalLimiter_def NewRateLimiter_def seconds_ns_def)

lemma endpointLimiter_refills:
  assumes "limiters base = Map.empty" and "limiters (endpointLimiter base) p = Some rl"
  shows "of_int (rl_burst rl) \<le> rl_rate rl * (of_int (rl_ttl rl) / 1000000000)"
  using assms by (auto simp: endpointLimiter_def SetEndpointRate_def NewRateLimiter_def seconds_ns_def split: if_splits)

definition main_process :: "'l PerEndpointLimiter \<Rightarrow> 'l process" where
  "main_process base = \<lparr>prc_global = globalLimiter, prc_endpoint = endpointLimiter base, prc_log = []\<rparr>"

text \<open>
  The paths of the accounts have their own limit; the list of accounts, the transfers and the
  transactions fall back to the default, and the entries for login and registration never
  apply, because the endpoint limiter only stands in front of the protected routes.
\<close>

lemma endpoint_limits:
  assumes "limiters base = Map.empty" and "set order = {''/login'', ''/register'', ''/accounts/*''}"
  shows "find_endpoint order (''/accounts/'' @ rest) (endpointLimiter base) = Some ''/accounts/*''"
    and "find_endpoint order ''/accounts'' (endpointLimiter base) = None"
    and "find_endpoint order ''/transfers'' (endpointLimiter base) = None"
proof -
  have lim: "limiters (endpointLimiter base) p \<noteq> None \<longleftrightarrow> p \<in> set order" for p
    using assms by (auto simp: endpointLimiter_def SetEndpointRate_def)
  have star: "matchPath ''/accounts/*'' path \<longleftrightarrow> take 10 path = ''/accounts/''" for path
  proof -
    have len: "length ''/accounts/'' = (10 :: nat)" by simp
    show ?thesis using matchPath_star [of "''/accounts/''" path] unfolding len by (simp only: append.simps)
  qed
  have plain: "matchPath ''/login'' path \<longleftrightarrow> path = ''/login''"
    "matchPath ''/register'' path \<longleftrightarrow> path = ''/register''" for path
    by (auto simp: matchPath_def)
  have none: "find_endpoint order path (endpointLimiter base) = None"
    if "path \<noteq> ''/login''" "path \<noteq> ''/register''" "take 10 path \<noteq> ''/accounts/''" for path
  proof -
    have "\<forall>p \<in> set order. \<not> matchPath p path" using that by (simp add: assms(2) star plain)
    then show ?thesis by (auto simp: find_endpoint_def find_None_iff)
  qed
  show "find_endpoint order ''/accounts'' (endpointLimiter base) = None"
    and "find_endpoint order ''/transfers'' (endpointLimiter base) = None" by (rule none; simp)+
  show "find_endpoint order (''/accounts/'' @ rest) (endpointLimiter base) = Some ''/accounts/*''"
  proof (cases "find_endpoint order (''/accounts/'' @ rest) (endpointLimiter base)")
    case None
    have "dom (limiters (endpointLimiter base)) \<subseteq> set order" using lim by (simp add: dom_def subset_eq)
    moreover have "matchPath ''/accounts/*'' (''/accounts/'' @ rest)" by (simp add: star)
    ultimately have "limiters (endpointLimiter base) ''/accounts/*'' = None"
      by (rule find_endpoint_None [OF None])
    with lim [of "''/accounts/*''"] assms(2) show ?thesis by simp
  next
    case (Some p)
    have "p \<in> {''/login'', ''/register'', ''/accounts/*''}"
      using find_endpoint_Some(2) [OF Some] lim [of p] assms(2) by blast
    moreover have "p \<noteq> ''/login''" "p \<noteq> ''/register''"
      using find_endpoint_Some(1) [OF Some] plain [of "''/accounts/'' @ rest"] by auto
    ultimately show ?thesis using Some by simp
  qed
qed

subsection \<open>What a request does, from what its calls do\<close>

context protected_rel
begin

lemma protected_handler_rel: "protected_handler X W rt r s = (x, s') \<Longrightarrow> R s s'"
  by (cases rt) (auto simp: protected_handler_def
      dest: account_handlers_rel money_handlers_rel entries_handlers_rel)

end

text \<open>
  A whole server: the relation may depend on the request, which the middleware only changes in
  its body.
\<close>

locale request_rel = public_rel R W X
  for R :: "session \<Rightarrow> session \<Rightarrow> bool" and W :: world and X :: "'d deps" +
  fixes P :: "request \<Rightarrow> bool"
  assumes P_body: "P (r\<lparr>Body := b\<rparr>) \<longleftrightarrow> P r"
    and protected_handlers: "P r \<Longrightarrow> protected_handler X W rt r s = (x, s') \<Longrightarrow> R s s'"
begin

lemma Ping_rel: "Ping W s = (x, s') \<Longrightarrow> R s s'"
  by (auto simp: Ping_def split: fault.splits intro: one_tick)

lemma probe_rel: "health W uptime r s = (x, s') \<Longrightarrow> R s s'" "ready W r s = (x, s') \<Longrightarrow> R s s'"
  by (auto simp: health_def ready_def split: prod.splits sum.splits dest: Ping_rel)

lemma IdempotencyMiddleware_protected_rel:
  "P r \<Longrightarrow> IdempotencyMiddleware X W (protected_handler X W rt) r s = (x, s') \<Longrightarrow> R s s'"
  by (rule IdempotencyMiddleware_rel [OF protected_handlers])

lemma PerEndpointLimiter_Middleware_rel:
  assumes "\<And>s x s'. h r s = (x, s') \<Longrightarrow> R s s'"
    and "PerEndpointLimiter_Middleware L order h t r pel s = (x, s')"
  shows "R s s'"
  using assms(2)
  by (auto simp: PerEndpointLimiter_Middleware_def Let_def split: option.splits prod.splits if_splits
      dest: assms(1) intro: refl)

lemma protected_chain_rel:
  assumes "srv_deps S = X" and "P r" and "protected_chain S W rt r (pel, s) = (x, (pel', s'))"
  shows "R s s'"
proof (cases "srv_rejects S r")
  case None
  let ?h = "\<lambda>r s. case IdempotencyMiddleware X W (protected_handler X W rt) r s of (calls, s1) \<Rightarrow> (Some calls, s1)"
  obtain y where "PerEndpointLimiter_Middleware (srv_limiter S) (srv_order S (tick s)) ?h (now W (tick s)) r pel s = (y, s')"
    using assms None by (auto simp: protected_chain_def split: prod.splits)
  then show ?thesis
    by (rule PerEndpointLimiter_Middleware_rel [rotated])
      (auto split: prod.splits dest: IdempotencyMiddleware_protected_rel [OF assms(2)])
qed (use assms(3) in \<open>simp add: protected_chain_def refl\<close>)

lemma public_route_rel:
  assumes "public_route h r (p, s) = (x, (p', s'))" and "\<And>s x s'. h r s = (x, s') \<Longrightarrow> R s s'"
  shows "R s s'"
  using assms(1) by (auto simp: public_route_def split: prod.splits dest: assms(2))

lemma serve_route_rel:
  assumes S: "srv_deps S = X" and P: "P r" and run: "serve_route S W rt r (pel, s) = (x, (pel', s'))"
  shows "R s s'"
  using run
  by (cases rt) (auto simp: serve_route_def S elim!: public_route_rel
      dest: user_handlers_rel probe_rel intro: protected_chain_rel [OF S P])

lemma limited_route_rel:
  assumes S: "srv_deps S = X" and P: "P r" and run: "limited_route S W rt r (prc, s) = (x, (prc', s'))"
  shows "R s s'"
  using run
  by (auto simp: limited_route_def RateLimiter_Middleware_def split: option.splits prod.splits if_splits
      dest: serve_route_rel [OF S P] intro: refl)

lemma serve_rel:
  assumes S: "srv_deps S = X" and P: "P r" and run: "serve S W rt r (prc, s) = (x, (prc', s'))"
  shows "R s s'"
  using run P_body [where r = r] P by (auto simp: serve_def middleware_defs split: prod.splits option.splits
      dest: limited_route_rel [OF S] intro: refl)

lemma serve_all_rel:
  assumes S: "srv_deps S = X" and "\<And>rt r. Incoming rt r \<in> set evs \<Longrightarrow> P r"
    and run: "serve_all S W evs (prc, s) = (xs, (prc', s'))"
  shows "R s s'"
  using assms(2) run
proof (induction evs arbitrary: prc s xs)
  case Nil
  then show ?case by (simp add: refl)
next
  case (Cons ev evs)
  show ?case
  proof (cases ev)
    case (Incoming rt r)
    with Cons.prems(2) obtain x prc1 s1 xs' where "serve S W rt r (prc, s) = (x, (prc1, s1))"
      and "serve_all S W evs (prc1, s1) = (xs', (prc', s'))"
      by (auto split: prod.splits)
    moreover have "P r" using Incoming Cons.prems(1) [of rt r] by simp
    ultimately show ?thesis using serve_rel [OF S] Cons.IH Cons.prems(1) by (meson list.set_intros(2) trans)
  next
    case (CleanupTick name)
    with Cons show ?thesis by simp
  qed
qed

end

sublocale api_rel \<subseteq> every: request_rel R W X "\<lambda>r. True"
  by unfold_locales (auto dest: protected_handler_rel)

subsection \<open>The other clients may be servers of this program\<close>

text \<open>
  A world in which, before every call, other instances of the server handle requests on the
  same database. What the service guarantees is what it relies on: such a world is again an
  environment.
\<close>

definition fresh_session :: "database \<Rightarrow> session" where
  "fresh_session d = \<lparr>sdb = d, tick = 0, tx_time = None, slept = 0\<rparr>"

definition peer_world ::
  "('d, 'l) server \<Rightarrow> (nat \<Rightarrow> 'l process) \<Rightarrow> (nat \<Rightarrow> server_event list) \<Rightarrow> world \<Rightarrow> world" where
  "peer_world S prc evs W =
     W\<lparr>interfere := \<lambda>t d. sdb (snd (snd (serve_all S W (evs t) (prc t, fresh_session (interfere W t d)))))\<rparr>"

context ledger_api
begin

lemmas protected_handler_guar = guarding.protected_handler_rel
  and serve_all_guar = guarding.every.serve_all_rel [OF _ TrueI]

lemma peer_world_rely:
  assumes "srv_deps S = X"
  shows "rely (peer_world S prc evs W)" and "commit_reports (peer_world S prc evs W)"
proof -
  have "db_steps d (interfere (peer_world S prc evs W) t d)" if inv: "ledger_inv d" for t d
  proof -
    obtain xs l s' where run: "serve_all S W (evs t) (prc t, fresh_session (interfere W t d)) = (xs, (l, s'))"
      by (metis prod.collapse)
    have "db_steps d (interfere W t d)" using rely inv by (simp add: rely_def)
    moreover from this have "ledger_inv (interfere W t d)" using inv by (rule db_steps_inv)
    ultimately show ?thesis
      using serve_all_guar [OF assms run] run
      by (auto simp: guar_def fresh_session_def peer_world_def intro: db_steps_trans)
  qed
  then show "rely (peer_world S prc evs W)" by (simp add: rely_def)
  show "commit_reports (peer_world S prc evs W)"
    using commit_reports by (simp add: commit_reports_def peer_world_def)
qed

sublocale peers: environment "peer_world
    \<lparr>srv_env = getenv, srv_deps = X, srv_token = ta, srv_rejects = rejects, srv_uptime = up,
      srv_limiter = L, srv_order = order, srv_request_id = rid, srv_wrapped = ww, srv_cors = cors\<rparr> prc evs W"
  for getenv ta rejects up order rid ww cors and L :: "'l limiter_lib" and prc evs
  by unfold_locales (simp_all add: peer_world_rely)

end

end
