(* ===== verification/Ledger_Effects.thy ===== *)
theory Ledger_Effects
  imports Ledger_Quiet
begin

section \<open>Balances after an operation, the settlement account, reconciliation\<close>

text \<open>
  Consequences of the invariant for the operations: what a successful deposit, withdrawal or
  transfer does to every balance when nothing interferes, that the settlement account, being
  the only one that may be overdrawn, is never in credit, and when \<open>ReconcileAccount\<close> agrees.
\<close>

subsection \<open>The settlement account\<close>

lemma inv_accounts:
  assumes "ledger_inv d" and "a \<in> set (accounts d)"
  shows "acc_Currency a = ''USD''" and "is_settlement a \<or> 0 \<le> acc_Balance a"
    and "\<bar>acc_Balance a\<bar> < numeric_limit" and "acc_Balance a = entry_sum (acc_ID a) (entries d)"
  using assms by (auto simp: ledger_inv_def inv_defs)

lemma inv_settlement:
  assumes "ledger_inv d"
  obtains st where "find is_settlement (accounts d) = Some st"
    and "\<And>a. a \<in> set (accounts d) \<Longrightarrow> is_settlement a \<longleftrightarrow> a = st"
proof -
  from assms have "settlement_ok d" by (simp add: ledger_inv_def)
  then obtain ident where id: "\<And>a. a \<in> set (accounts d) \<Longrightarrow> is_settlement a \<longleftrightarrow> acc_ID a = ident"
    and "\<exists>a \<in> set (accounts d). is_settlement a"
    unfolding settlement_ok_def by blast
  then obtain st where st: "find is_settlement (accounts d) = Some st"
    by (cases "find is_settlement (accounts d)") (auto simp: find_None_iff)
  from find_SomeD [OF st] have mem: "st \<in> set (accounts d)" "is_settlement st" by auto
  have only: "is_settlement a \<longleftrightarrow> a = st" if a: "a \<in> set (accounts d)" for a
  proof
    assume "is_settlement a"
    with id a mem have "acc_ID a = acc_ID st" by simp
    moreover have "account_of d (acc_ID a) = Some a" "account_of d (acc_ID st) = Some st"
      using account_of_in [OF inv_distinct [OF assms]] a mem(1) by blast+
    ultimately show "a = st" by (metis option.inject)
  qed (use mem in simp)
  show ?thesis by (rule that [OF st only])
qed

lemma settlement_not_positive:
  assumes "ledger_inv d" and "st \<in> set (accounts d)" and "is_settlement st"
  shows "acc_Balance st \<le> 0"
proof -
  obtain st' where "find is_settlement (accounts d) = Some st'"
    and only: "\<And>a. a \<in> set (accounts d) \<Longrightarrow> is_settlement a \<longleftrightarrow> a = st'"
    using inv_settlement [OF assms(1)] by blast
  have dist: "distinct (accounts d)"
    using inv_distinct [OF assms(1)] by (simp add: distinct_map)
  have "0 \<le> acc_Balance a" if "a \<in> set (remove1 st (accounts d))" for a
  proof -
    from that dist have a: "a \<in> set (accounts d)" "a \<noteq> st" by auto
    from only [OF assms(2)] assms(3) have "st = st'" by simp
    with only [OF a(1)] a(2) inv_accounts(2) [OF assms(1) a(1)] show ?thesis by simp
  qed
  then have "0 \<le> (\<Sum>a\<leftarrow>remove1 st (accounts d). acc_Balance a)"
    by (intro sum_list_nonneg) auto
  moreover have "total_balance d = acc_Balance st + (\<Sum>a\<leftarrow>remove1 st (accounts d). acc_Balance a)"
    unfolding total_balance_def by (rule sum_list_map_remove1 [OF assms(2)])
  ultimately show ?thesis using assms(1) by (simp add: ledger_inv_def)
qed

lemma withdrawn_not_settlement:
  assumes "ledger_inv d0" and "withdrawn accountID n d0 d1" and "account_of d0 accountID = Some a"
  shows "\<not> is_settlement a"
proof
  assume "is_settlement a"
  with assms(1,3) have "acc_Balance a \<le> 0"
    by (auto dest: account_of_SomeD intro: settlement_not_positive)
  with assms(2,3) show False by (auto simp: withdrawn_def posting_def)
qed

lemma transferred_not_settlement:
  assumes "ledger_inv d0" and "transferred fromID toID n d0 d1" and "account_of d0 fromID = Some a"
  shows "\<not> is_settlement a"
proof
  assume "is_settlement a"
  with assms(1,3) have "acc_Balance a \<le> 0"
    by (auto dest: account_of_SomeD intro: settlement_not_positive)
  with assms(2,3) show False by (auto simp: transferred_def posting_def)
qed

subsection \<open>Which account is the settlement account never changes\<close>

definition settlement_id :: "database \<Rightarrow> uuid option" where
  "settlement_id d = map_option acc_ID (find is_settlement (accounts d))"

lemma settlement_id_iff:
  assumes "ledger_inv d"
  shows "settlement_id d = Some i \<longleftrightarrow> (\<exists>a. account_of d i = Some a \<and> is_settlement a)"
proof -
  obtain st where st: "find is_settlement (accounts d) = Some st"
    and only: "\<And>a. a \<in> set (accounts d) \<Longrightarrow> is_settlement a \<longleftrightarrow> a = st"
    using inv_settlement [OF assms] by blast
  from find_SomeD [OF st] account_of_in [OF inv_distinct [OF assms]]
  have "account_of d (acc_ID st) = Some st" "is_settlement st" by auto
  with st only show ?thesis by (auto simp: settlement_id_def dest: account_of_SomeD)
qed

lemma find_map_same:
  "(\<And>x. P (f x) = P x) \<Longrightarrow> find P (map f xs) = map_option f (find P xs)"
  by (induction xs) auto

lemma account_of_posting:
  assumes "posting opt src dst n d d'"
  shows "account_of d' i = map_option (\<lambda>a. a\<lparr>acc_Balance := acc_Balance a + posting_delta src dst n i\<rparr>) (account_of d i)"
proof -
  have "account_of d' i = map_option (\<lambda>a. a\<lparr>acc_Balance := acc_Balance a + posting_delta src dst n (acc_ID a)\<rparr>) (account_of d i)"
    unfolding account_of_def posting_accounts [OF assms] by (rule find_map_same) simp
  then show ?thesis by (cases "account_of d i") (auto dest: account_of_SomeD)
qed

lemma db_step_settlement_id: "db_step d d' \<Longrightarrow> settlement_id d \<noteq> None \<Longrightarrow> settlement_id d' = settlement_id d"
proof (induction rule: db_step.induct)
  case (step_posting opt src dst n d d' a)
  have "find is_settlement (accounts d')
      = map_option (\<lambda>a. a\<lparr>acc_Balance := acc_Balance a + posting_delta src dst n (acc_ID a)\<rparr>)
          (find is_settlement (accounts d))"
    unfolding posting_accounts [OF step_posting.hyps(1)] by (rule find_map_same) simp
  then show ?case by (simp add: settlement_id_def option.map_comp comp_def)
next
  case (step_account a d ow)
  then show ?case by (auto simp: settlement_id_def find_append_Some)
qed (auto simp: settlement_id_def)

lemma db_steps_settlement_id: "db_steps d d' \<Longrightarrow> settlement_id d \<noteq> None \<Longrightarrow> settlement_id d' = settlement_id d"
  by (induction rule: db_steps.induct) (auto dest: db_step_settlement_id)

subsection \<open>Effects\<close>

text \<open>A posting of \<open>n\<close> from \<open>src\<close> to \<open>dst\<close> and nothing else.\<close>

definition moved :: "uuid \<Rightarrow> uuid \<Rightarrow> int \<Rightarrow> database \<Rightarrow> database \<Rightarrow> bool" where
  "moved src dst n d d' \<longleftrightarrow>
     (\<forall>i. balance_of d' i = map_option (\<lambda>b. b + (if i = dst then n else 0) - (if i = src then n else 0))
                                        (balance_of d i))
     \<and> length (entries d') = length (entries d) + 2 \<and> take (length (entries d)) (entries d') = entries d
     \<and> users d' = users d \<and> idempotency_keys d' = idempotency_keys d"

lemma posting_moved:
  assumes "posting opt src dst n d d'"
  shows "moved src dst n d d'"
proof -
  obtain e1 e2 where "entries d' = entries d @ [e1, e2]" using posting_frame(4) [OF assms] by blast
  then show ?thesis
    using posting_frame(1,2) [OF assms] posting_balance_of [OF assms]
    by (simp add: moved_def posting_delta_def add_diff_eq)
qed

context decimal_library
begin

lemma Withdraw_settlement:
  assumes "rely W" and "commit_reports W" and "ledger_inv (sdb s)"
    and "settlement_id (sdb s) = Some accountID"
  shows "\<nexists>u s'. Withdraw X W accountID amountStr s = (Inr u, s')"
proof
  assume "\<exists>u s'. Withdraw X W accountID amountStr s = (Inr u, s')"
  then obtain u s' where "Withdraw X W accountID amountStr s = (Inr u, s')" by blast
  from Withdraw_success [OF assms(1-3) this] obtain n d0 where "others W (sdb s) d0"
    and w: "withdrawn accountID n d0 (sdb s')" by blast
  then have steps: "db_steps (sdb s) d0" using assms(1,3) by (blast intro: others_db_steps)
  then have inv: "ledger_inv d0" using assms(3) by (rule db_steps_inv)
  have "settlement_id d0 = Some accountID" using db_steps_settlement_id [OF steps] assms(4) by simp
  with settlement_id_iff [OF inv] withdrawn_not_settlement [OF inv w] show False by blast
qed

lemma Transfer_settlement:
  assumes "rely W" and "commit_reports W" and "ledger_inv (sdb s)"
    and "settlement_id (sdb s) = Some fromID"
  shows "\<nexists>u s'. Transfer X W fromID toID amountStr s = (Inr u, s')"
proof
  assume "\<exists>u s'. Transfer X W fromID toID amountStr s = (Inr u, s')"
  then obtain u s' where "Transfer X W fromID toID amountStr s = (Inr u, s')" by blast
  from Transfer_success [OF assms(1-3) this] obtain n d0 where "others W (sdb s) d0"
    and w: "transferred fromID toID n d0 (sdb s')" by blast
  then have steps: "db_steps (sdb s) d0" using assms(1,3) by (blast intro: others_db_steps)
  then have inv: "ledger_inv d0" using assms(3) by (rule db_steps_inv)
  have "settlement_id d0 = Some fromID" using db_steps_settlement_id [OF steps] assms(4) by simp
  with settlement_id_iff [OF inv] transferred_not_settlement [OF inv w] show False by blast
qed

lemma deposit_tx_effect:
  assumes W: "quiet W" and inv: "ledger_inv (sdb s)" and fresh: "fresh_entries W (tick s) 8 (sdb s)"
    and a: "account_of (sdb s) accountID = Some a" and st: "settlement_id (sdb s) = Some sid"
    and n: "round4 (num amount) = n" "0 < n" "n < numeric_limit"
    and fits: "acc_Balance a + n < numeric_limit"
      "balance_of (sdb s) sid = Some sb" "- numeric_limit < sb - n"
  shows "\<exists>s2. deposit_tx X (in_tx W) accountID amount (begin_tx W s) = (Inr (), s2)
      \<and> posting ''deposit'' sid accountID n (sdb s) (sdb s2) \<and> db_step (sdb s) (sdb s2)"
proof -
  from st obtain t where t: "find is_settlement (accounts (sdb s)) = Some t" "acc_ID t = sid"
    by (auto simp: settlement_id_def)
  note t_mem = find_SomeD [OF t(1)] and a_mem = account_of_SomeD [OF a]
  have "account_of (sdb s) sid = Some t" using account_of_in [OF inv_distinct [OF inv]] t_mem t(2) by blast
  then have sb: "acc_Balance t = sb" using fits(2) by (simp add: balance_of_def)
  have "\<bar>acc_Balance a\<bar> < numeric_limit" "\<bar>acc_Balance t\<bar> < numeric_limit"
    using inv_accounts(3) [OF inv] t_mem a_mem by auto
  then have small: "\<bar>acc_Balance a + n\<bar> < numeric_limit" "\<bar>acc_Balance t - n\<bar> < numeric_limit"
    using fits(1,3) sb n(2) by linarith+
  have "acc_Currency a = acc_Currency t" using inv_accounts(1) [OF inv] t_mem a_mem by auto
  then obtain s2 where run: "deposit_tx X (in_tx W) accountID amount (begin_tx W s) = (Inr (), s2)"
    using deposit_tx_quiet [OF W fresh inv_distinct [OF inv] inv_in_range [OF inv] t(1) a _ n small(1)] small(2)
    by blast
  from ran_onceI [where fn = "deposit_tx X (in_tx W) accountID amount", OF run]
  have "ran_once (deposit_tx X (in_tx W) accountID amount) (sdb s) (sdb s2)" by (simp add: begin_tx_def)
  from deposit_ran_once [OF inv this] n(1)
  have d: "deposited accountID n (sdb s) (sdb s2)" and step: "db_step (sdb s) (sdb s2)" by simp_all
  from d inv_settlement [OF inv] t have "posting ''deposit'' sid accountID n (sdb s) (sdb s2)"
    unfolding deposited_def by (metis option.inject)
  with run step show ?thesis by blast
qed

lemma Deposit_effect:
  assumes W: "quiet W" and inv: "ledger_inv (sdb s)" and fresh: "fresh_entries W (tick s) 8 (sdb s)"
    and a: "account_of (sdb s) accountID = Some a" and st: "settlement_id (sdb s) = Some sid"
    and amt: "NewFromString X amountStr = Some amount" "0 < num amount"
    and n: "round4 (num amount) = n" "0 < n" "n < numeric_limit"
    and fits: "acc_Balance a + n < numeric_limit"
      "balance_of (sdb s) sid = Some sb" "- numeric_limit < sb - n"
  shows "\<exists>s'. Deposit X W accountID amountStr s = (Inr (), s') \<and> moved sid accountID n (sdb s) (sdb s')"
proof -
  obtain s2 where run: "deposit_tx X (in_tx W) accountID amount (begin_tx W s) = (Inr (), s2)"
    and post: "posting ''deposit'' sid accountID n (sdb s) (sdb s2)"
    using deposit_tx_effect [OF W inv fresh a st n fits] by blast
  from ExecTx_quiet_Inr [where fn = "deposit_tx X (in_tx W) accountID amount", OF W run] posting_moved [OF post]
  show ?thesis by (simp add: Deposit_runs [OF amt])
qed

lemma Withdraw_effect:
  assumes W: "quiet W" and inv: "ledger_inv (sdb s)" and fresh: "fresh_entries W (tick s) 8 (sdb s)"
    and a: "account_of (sdb s) accountID = Some a" and st: "settlement_id (sdb s) = Some sid"
    and amt: "NewFromString X amountStr = Some amount" "0 < num amount"
    and covers: "num amount \<le> of_int (acc_Balance a) / 10000"
    and n: "round4 (num amount) = n" "0 < n"
  shows "\<exists>s'. Withdraw X W accountID amountStr s = (Inr (), s') \<and> moved accountID sid n (sdb s) (sdb s')"
proof -
  from st obtain t where t: "find is_settlement (accounts (sdb s)) = Some t" "acc_ID t = sid"
    by (auto simp: settlement_id_def)
  note t_mem = find_SomeD [OF t(1)] and a_mem = account_of_SomeD [OF a]
  have le: "n \<le> acc_Balance a" using round4_le_units [OF covers] n(1) by simp
  have "acc_Balance t \<le> 0" using settlement_not_positive [OF inv] t_mem by blast
  moreover have "\<bar>acc_Balance a\<bar> < numeric_limit" "\<bar>acc_Balance t\<bar> < numeric_limit"
    using inv_accounts(3) [OF inv] t_mem a_mem by auto
  ultimately have small: "\<bar>acc_Balance a - n\<bar> < numeric_limit" "\<bar>acc_Balance t + n\<bar> < numeric_limit"
    "n < numeric_limit"
    using le n(2) by linarith+
  have "acc_Currency a = acc_Currency t" using inv_accounts(1) [OF inv] t_mem a_mem by auto
  then obtain s' where run: "Withdraw X W accountID amountStr s = (Inr (), s')"
    using Withdraw_quiet [OF W fresh inv_distinct [OF inv] inv_in_range [OF inv] t(1) a _ amt covers n small(3,1)]
      small(2) by blast
  from Withdraw_success [OF quiet_rely [OF W] quiet_commit_reports [OF W] inv run] amt n(1)
  obtain d0 where "others W (sdb s) d0" "withdrawn accountID n d0 (sdb s')" by auto
  with others_quiet W have "withdrawn accountID n (sdb s) (sdb s')" by blast
  with inv_settlement [OF inv] t have "posting ''withdrawal'' accountID sid n (sdb s) (sdb s')"
    unfolding withdrawn_def by (metis option.inject)
  with run show ?thesis by (blast intro: posting_moved)
qed

lemma Transfer_effect:
  assumes W: "quiet W" and inv: "ledger_inv (sdb s)" and fresh: "fresh_entries W (tick s) 8 (sdb s)"
    and a: "account_of (sdb s) fromID = Some a" and b: "account_of (sdb s) toID = Some b"
    and ne: "fromID \<noteq> toID"
    and amt: "NewFromString X amountStr = Some amount" "0 < num amount"
    and covers: "num amount \<le> of_int (acc_Balance a) / 10000"
    and n: "round4 (num amount) = n" "0 < n"
    and fits: "acc_Balance b + n < numeric_limit"
  shows "\<exists>s'. Transfer X W fromID toID amountStr s = (Inr (), s') \<and> moved fromID toID n (sdb s) (sdb s')"
proof -
  note a_mem = account_of_SomeD [OF a] and b_mem = account_of_SomeD [OF b]
  have le: "n \<le> acc_Balance a" using round4_le_units [OF covers] n(1) by simp
  moreover have "\<bar>acc_Balance a\<bar> < numeric_limit" "\<bar>acc_Balance b\<bar> < numeric_limit"
    using inv_accounts(3) [OF inv] a_mem b_mem by auto
  ultimately have small: "\<bar>acc_Balance a - n\<bar> < numeric_limit" "\<bar>acc_Balance b + n\<bar> < numeric_limit"
    "n < numeric_limit"
    using fits n(2) by linarith+
  have "acc_Currency a = acc_Currency b" using inv_accounts(1) [OF inv] a_mem b_mem by auto
  then obtain s' where run: "Transfer X W fromID toID amountStr s = (Inr (), s')"
    using Transfer_quiet [OF W fresh inv_distinct [OF inv] a b ne _ amt covers n small(3,1,2)] by blast
  from Transfer_success [OF quiet_rely [OF W] quiet_commit_reports [OF W] inv run] amt n(1)
  obtain d0 where "others W (sdb s) d0" "transferred fromID toID n d0 (sdb s')" by auto
  with others_quiet W have "transferred fromID toID n (sdb s) (sdb s')" by blast
  then have "posting ''transfer'' fromID toID n (sdb s) (sdb s')" by (auto simp: transferred_def)
  with run show ?thesis by (blast intro: posting_moved)
qed

subsection \<open>Reconciliation\<close>

text \<open>
  The two reads of \<open>ReconcileAccount\<close> are separate statements: the first sees the tables \<open>d1\<close>,
  the second \<open>d2\<close>. It agrees exactly when the balance stored in \<open>d1\<close> is the sum of the entries
  in \<open>d2\<close>.
\<close>

lemma ReconcileAccount_reads:
  assumes no_fault: "fault W (tick s) = NoFault" "fault W (Suc (tick s)) = NoFault"
    and d1: "interfere W (tick s) (sdb s) = d1" and d2: "interfere W (Suc (tick s)) d1 = d2"
    and a: "account_of d1 accountID = Some a"
    and range: "\<bar>entry_sum accountID (entries d2)\<bar> < numeric_limit"
  shows "ReconcileAccount X W accountID s =
      (if acc_Balance a = entry_sum accountID (entries d2) then Inr True
       else Inl (ErrorsNew (''balance mismatch: stored '' @ numeric_out (acc_Balance a)
              @ '', calculated '' @ numeric_out (entry_sum accountID (entries d2)))),
       s\<lparr>sdb := d2, tick := tick s + 2\<rparr>)"
proof -
  let ?n = "entry_sum accountID (entries d2)"
  have r1: "GetAccount W Pool accountID s = (Inr (scan_account a), s\<lparr>sdb := d1, tick := Suc (tick s)\<rparr>)"
    using no_fault(1) d1 a by (simp add: GetAccount_def run_stmt_Inr getAccount_Inr account_of_def)
  have r2: "GetAccountBalance W Pool accountID (s\<lparr>sdb := d1, tick := Suc (tick s)\<rparr>)
      = (Inr (numeric_out ?n), s\<lparr>sdb := d2, tick := Suc (Suc (tick s))\<rparr>)"
    using no_fault(2) d2 range by (simp add: GetAccountBalance_def run_stmt_Inr getAccountBalance_Inr)
  obtain c where c: "NewFromString X (numeric_out ?n) = Some c" "num c = of_int ?n / 10000"
    by (rule parse_cases)
  obtain b where b: "NewFromString X (numeric_out (acc_Balance a)) = Some b"
    "num b = of_int (acc_Balance a) / 10000"
    by (rule parse_cases)
  have "DecEqual X b c \<longleftrightarrow> acc_Balance a = ?n" by (simp add: equal c(2) b(2))
  then show ?thesis
    using c(1) b(1) by (auto simp: ReconcileAccount_def r1 r2 fixed c(2) return_ok_def return_err_def)
qed

lemma ReconcileAccount_quiet:
  assumes "quiet W" and "ledger_inv (sdb s)" and "account_of (sdb s) accountID = Some a"
  shows "ReconcileAccount X W accountID s = (Inr True, s\<lparr>tick := tick s + 2\<rparr>)"
proof -
  note a = account_of_SomeD [OF assms(3)]
  then have sum: "acc_Balance a = entry_sum accountID (entries (sdb s))"
    and "\<bar>acc_Balance a\<bar> < numeric_limit"
    using inv_accounts(3,4) [OF assms(2)] by auto
  with ReconcileAccount_reads [of W s "sdb s" "sdb s" accountID a] assms(1,3) show ?thesis by simp
qed

text \<open>Between the two reads another client posts: neither state alone has a mismatch, the two reads have one.\<close>

lemma ReconcileAccount_race:
  assumes no_fault: "fault W (tick s) = NoFault" "fault W (Suc (tick s)) = NoFault"
    and d: "interfere W (tick s) (sdb s) = d1" "interfere W (Suc (tick s)) d1 = d2"
    and inv: "ledger_inv d1" and step: "db_step d1 d2" and post: "posting opt src dst n d1 d2"
    and ids: "src \<noteq> dst" "accountID \<in> {src, dst}" and a: "account_of d1 accountID = Some a"
  shows "ReconcileAccount X W accountID s =
      (Inl (ErrorsNew (''balance mismatch: stored '' @ numeric_out (acc_Balance a) @ '', calculated ''
              @ numeric_out (acc_Balance a + (if accountID = src then - n else n)))),
       s\<lparr>sdb := d2, tick := tick s + 2\<rparr>)"
    and "ledger_inv d2"
    and "quiet V \<Longrightarrow> fst (ReconcileAccount X V accountID (s\<lparr>sdb := d1\<rparr>)) = Inr True
      \<and> fst (ReconcileAccount X V accountID (s\<lparr>sdb := d2\<rparr>)) = Inr True"
proof -
  let ?diff = "if accountID = src then - n else n"
  have n: "0 < n" using post by (simp add: posting_def)
  have delta: "posting_delta src dst n accountID = ?diff" using ids by (auto simp: posting_delta_def)
  show inv2: "ledger_inv d2" by (rule db_step_inv [OF step inv])
  have a2: "account_of d2 accountID = Some (a\<lparr>acc_Balance := acc_Balance a + ?diff\<rparr>)"
    using account_of_posting [OF post, of accountID] a account_of_SomeD [OF a] delta by simp
  have "acc_Balance a = entry_sum accountID (entries d1)"
    using inv_accounts(4) [OF inv] account_of_SomeD [OF a] by metis
  then have sum: "entry_sum accountID (entries d2) = acc_Balance a + ?diff"
    using posting_entries(1) [OF post] delta by simp
  have "\<bar>entry_sum accountID (entries d2)\<bar> < numeric_limit"
    using inv_accounts(3) [OF inv2, of "a\<lparr>acc_Balance := acc_Balance a + ?diff\<rparr>"] account_of_SomeD [OF a2] sum by simp
  from ReconcileAccount_reads [OF no_fault d a this] n show "ReconcileAccount X W accountID s =
      (Inl (ErrorsNew (''balance mismatch: stored '' @ numeric_out (acc_Balance a) @ '', calculated ''
              @ numeric_out (acc_Balance a + ?diff))), s\<lparr>sdb := d2, tick := tick s + 2\<rparr>)"
    unfolding sum by auto
  show "fst (ReconcileAccount X V accountID (s\<lparr>sdb := d1\<rparr>)) = Inr True
      \<and> fst (ReconcileAccount X V accountID (s\<lparr>sdb := d2\<rparr>)) = Inr True" if "quiet V"
    using ReconcileAccount_quiet [OF that, of "s\<lparr>sdb := d1\<rparr>"] ReconcileAccount_quiet [OF that, of "s\<lparr>sdb := d2\<rparr>"]
      inv inv2 a a2 by simp
qed

end

end
