(* ===== verification/Ownership.thy ===== *)
theory Ownership
  imports Server Ledger_Effects
begin

section \<open>Whose money a request can spend\<close>

text \<open>
  What a request of user \<open>u\<close> contributes to the database, among whatever the other clients do:
  postings whose source is owned by \<open>u\<close> or by nobody (the settlement account), and changes
  that move no money. \<open>acts_for\<close> collects such sequences. The handlers test the ownership in one
  statement and post in a later transaction; in between others act, but the owner of an account
  never changes.
\<close>

subsection \<open>Steps of one user\<close>

definition same_money :: "database \<Rightarrow> database \<Rightarrow> bool" where
  "same_money d d' \<longleftrightarrow> entries d' = entries d \<and> (\<exists>new. accounts d' = accounts d @ new)"

definition may_spend :: "uuid \<Rightarrow> database \<Rightarrow> uuid \<Rightarrow> bool" where
  "may_spend u d i \<longleftrightarrow> (\<exists>a. account_of d i = Some a \<and> acc_OwnerID a \<in> {None, Some u})"

inductive acts_for :: "world \<Rightarrow> uuid \<Rightarrow> database \<Rightarrow> database \<Rightarrow> bool" for W u where
  acts_none: "acts_for W u d d"
| acts_others: "acts_for W u d d1 \<Longrightarrow> acts_for W u d (interfere W t d1)"
| acts_same: "acts_for W u d d1 \<Longrightarrow> same_money d1 d2 \<Longrightarrow> acts_for W u d d2"
| acts_post: "acts_for W u d d1 \<Longrightarrow> may_spend u d1 src \<Longrightarrow> posting opt src dst n d1 d2 \<Longrightarrow> acts_for W u d d2"

lemma acts_trans: "acts_for W u d1 d2 \<Longrightarrow> acts_for W u d d1 \<Longrightarrow> acts_for W u d d2"
  by (induction rule: acts_for.induct) (auto intro: acts_for.intros)

lemma others_acts: "others W d d' \<Longrightarrow> acts_for W u d d'"
  by (induction rule: others.induct) (auto intro: acts_for.intros)

lemma same_money_account: "same_money d d' \<Longrightarrow> account_of d i = Some a \<Longrightarrow> account_of d' i = Some a"
  by (auto simp: same_money_def account_of_def find_append_Some)

lemma account_owner_posting:
  assumes "posting opt src dst n d d'" and "account_of d i = Some a"
  shows "account_of d' i = Some (a\<lparr>acc_Balance := acc_Balance a + posting_delta src dst n i\<rparr>)"
  using account_of_posting [OF assms(1)] assms(2) by simp

text \<open>The owner of an account is there for good.\<close>

lemma db_step_owner:
  "db_step d d' \<Longrightarrow> account_of d i = Some a \<Longrightarrow> \<exists>b. account_of d' i = Some b \<and> acc_OwnerID b = acc_OwnerID a"
proof (induction rule: db_step.induct)
  case (step_posting opt src dst n d d' x)
  from account_owner_posting [OF step_posting.hyps(1) step_posting.prems] show ?case by simp
qed (auto simp: account_of_def find_append_Some)

lemma db_steps_owner:
  "db_steps d d' \<Longrightarrow> account_of d i = Some a \<Longrightarrow> \<exists>b. account_of d' i = Some b \<and> acc_OwnerID b = acc_OwnerID a"
  by (induction rule: db_steps.induct) (auto dest!: db_step_owner)

lemma may_spend_later: "may_spend u d i \<Longrightarrow> db_steps d d' \<Longrightarrow> may_spend u d' i"
  unfolding may_spend_def by (metis db_steps_owner)

text \<open>
  Alone, such a request takes nothing from anybody else: the balances of the other users'
  accounts do not go down.
\<close>

lemma acts_for_spares:
  assumes "quiet W" and "acts_for W u d d'" and "account_of d i = Some a"
    and "acc_OwnerID a = Some ow" and "ow \<noteq> u"
  shows "\<exists>b. account_of d' i = Some b \<and> acc_OwnerID b = Some ow \<and> acc_Balance a \<le> acc_Balance b"
  using assms(2,3)
proof (induction rule: acts_for.induct)
  case (acts_none d)
  with assms(4) show ?case by simp
next
  case (acts_others d d1 t)
  with assms(1) show ?case by simp
next
  case (acts_same d d1 d2)
  then show ?case by (auto dest: same_money_account)
next
  case (acts_post d d1 src opt dst n d2)
  then obtain b where b: "account_of d1 i = Some b" "acc_OwnerID b = Some ow" "acc_Balance a \<le> acc_Balance b"
    by blast
  have "src \<noteq> i" using acts_post.hyps(2) b(1,2) assms(5) by (auto simp: may_spend_def)
  moreover have "0 < n" using acts_post.hyps(3) by (simp add: posting_def)
  ultimately have "0 \<le> posting_delta src dst n i" by (simp add: posting_delta_def)
  with account_owner_posting [OF acts_post.hyps(3) b(1)] b(2,3) show ?case by simp
qed

subsection \<open>The calls of a request\<close>

definition acting :: "world \<Rightarrow> uuid \<Rightarrow> session \<Rightarrow> session \<Rightarrow> bool" where
  "acting W u s s' \<longleftrightarrow> guar s s' \<and> (ledger_inv (sdb s) \<longrightarrow> acts_for W u (sdb s) (sdb s'))"

lemma acting_refl [simp]: "acting W u s s"
  by (simp add: acting_def acts_none)

lemma acting_trans: "acting W u s s1 \<Longrightarrow> acting W u s1 s2 \<Longrightarrow> acting W u s s2"
  unfolding acting_def by (auto simp: guar_def intro: acts_trans db_steps_inv guar_trans db_steps_trans)

definition neutral_stmt :: "'r stmt \<Rightarrow> bool" where
  "neutral_stmt st \<longleftrightarrow> (\<forall>v t d r d1. st v t d = Inr (r, d1) \<longrightarrow> same_money d d1)"

lemma neutral_stmts:
  "neutral_stmt (createUser cu)" "neutral_stmt (createAccount ca)" "neutral_stmt (createIdempotencyKey ck)"
  "neutral_stmt (getUserByEmail email)" "neutral_stmt (getAccount i)" "neutral_stmt (getAccountBalance i)"
  "neutral_stmt (listAccountsByOwner ow)" "neutral_stmt (listEntriesByAccount lp)"
  "neutral_stmt (listEntriesByTransaction tx)" "neutral_stmt (getIdempotencyKey gp)"
  by (auto simp: neutral_stmt_def same_money_def createUser_def createAccount_def createIdempotencyKey_def Let_def
      getUserByEmail_def getAccount_Inr getAccountBalance_Inr listAccountsByOwner_def
      listEntriesByAccount_def listEntriesByTransaction_def getIdempotencyKey_def
      split: option.splits if_splits)

lemma run_stmt_acts:
  assumes "neutral_stmt st" and "run_stmt W Pool st s = (x, s')"
  shows "acts_for W u (sdb s) (sdb s')"
proof -
  have seen: "acts_for W u (sdb s) (view W Pool s)" by (simp add: acts_none acts_others)
  have "sdb s' = view W Pool s \<or> same_money (view W Pool s) (sdb s')"
  proof (cases x)
    case (Inr r)
    with assms show ?thesis by (fastforce simp: run_stmt_Inr neutral_stmt_def)
  next
    case (Inl e)
    with run_stmt_Inl(2) [of W Pool st s e s'] assms show ?thesis by (fastforce simp: neutral_stmt_def)
  qed
  with seen show ?thesis by (auto intro: acts_same)
qed

subsection \<open>The operations on money\<close>

lemma settlement_unowned:
  assumes "ledger_inv d" and "st \<in> set (accounts d)" and "is_settlement st"
  shows "may_spend u d (acc_ID st)"
proof -
  have "acc_OwnerID st = None" using assms by (auto simp: ledger_inv_def settlement_ok_def)
  with account_of_in [OF inv_distinct [OF assms(1)] assms(2)] show ?thesis by (simp add: may_spend_def)
qed

definition request_of :: "'d deps \<Rightarrow> uuid \<Rightarrow> request \<Rightarrow> bool" where
  "request_of X u r \<longleftrightarrow> (case auth_user X r of Inr v \<Rightarrow> v = u | Inl resp \<Rightarrow> True)"

lemma request_of_body [simp]: "request_of X u (r\<lparr>Body := b\<rparr>) \<longleftrightarrow> request_of X u r"
  by (simp add: request_of_def auth_user_def)

context ledger_api
begin

lemma money_others:
  assumes "ledger_inv (sdb s)" and "others W (sdb s) d0"
  shows "ledger_inv d0" and "db_steps (sdb s) d0" and "acts_for W u (sdb s) d0"
  using others_db_steps [OF assms(2) rely assms(1)] assms by (auto intro: db_steps_inv others_acts)

lemma Deposit_acting:
  assumes "Deposit X W i a s = (x, s')"
  shows "acting W u s s'"
proof -
  have "acts_for W u (sdb s) (sdb s')" if inv: "ledger_inv (sdb s)"
  proof -
    from Deposit_cases [OF rely commit_reports inv assms] obtain d0 where d0: "others W (sdb s) d0"
      and "sdb s' = d0 \<or> (\<exists>n. deposited i n d0 (sdb s'))" by blast
    with money_others [OF inv d0] show ?thesis
      by (auto simp: deposited_def intro: acts_post settlement_unowned)
  qed
  with money_guar(1) [OF assms] show ?thesis by (simp add: acting_def)
qed

lemma Withdraw_acting:
  assumes "may_spend u (sdb s) i" and "Withdraw X W i a s = (x, s')"
  shows "acting W u s s'"
proof -
  have "acts_for W u (sdb s) (sdb s')" if inv: "ledger_inv (sdb s)"
  proof -
    from Withdraw_cases [OF rely commit_reports inv assms(2)] obtain d0 where d0: "others W (sdb s) d0"
      and "sdb s' = d0 \<or> (\<exists>n. withdrawn i n d0 (sdb s'))" by blast
    with money_others [OF inv d0] may_spend_later [OF assms(1), of d0] show ?thesis
      by (auto simp: withdrawn_def intro: acts_post)
  qed
  with money_guar(2) [OF assms(2)] show ?thesis by (simp add: acting_def)
qed

lemma Transfer_acting:
  assumes "may_spend u (sdb s) i" and "Transfer X W i j a s = (x, s')"
  shows "acting W u s s'"
proof -
  have "acts_for W u (sdb s) (sdb s')" if inv: "ledger_inv (sdb s)"
  proof -
    from Transfer_cases [OF rely commit_reports inv assms(2)] obtain d0 where d0: "others W (sdb s) d0"
      and "sdb s' = d0 \<or> (\<exists>n. transferred i j n d0 (sdb s'))" by blast
    with money_others [OF inv d0] may_spend_later [OF assms(1), of d0] show ?thesis
      by (auto simp: transferred_def intro: acts_post)
  qed
  with money_guar(3) [OF assms(2)] show ?thesis by (simp add: acting_def)
qed

lemma query_acting:
  "CreateUser W Pool cu s = (x1, s') \<Longrightarrow> acting W u s s'"
  "GetUserByEmail W Pool email s = (x2, s') \<Longrightarrow> acting W u s s'"
  "GetAccount W Pool i s = (x3, s') \<Longrightarrow> acting W u s s'"
  "GetAccountBalance W Pool i s = (x4, s') \<Longrightarrow> acting W u s s'"
  "ListAccountsByOwner W Pool ow s = (x5, s') \<Longrightarrow> acting W u s s'"
  "ListEntriesByAccount W Pool lp s = (x6, s') \<Longrightarrow> acting W u s s'"
  "ListEntriesByTransaction W Pool tx s = (x7, s') \<Longrightarrow> acting W u s s'"
  "CreateIdempotencyKey W Pool ck s = (x8, s') \<Longrightarrow> acting W u s s'"
  "GetIdempotencyKey W Pool gk s = (x9, s') \<Longrightarrow> acting W u s s'"
  unfolding acting_def query_defs
  by (blast intro: run_stmt_guar run_stmt_acts step_stmt_user step_stmt_key step_stmt_reads neutral_stmts)+

lemma CreateAccount_acting:
  "CreateAccount W Pool \<lparr>cap_OwnerID = Some ow, cap_Name = nm, cap_Currency = ''USD'', cap_IsSystem = False\<rparr> s
     = (x, s') \<Longrightarrow> acting W u s s'"
  using CreateAccount_guar [of ow nm s x s'] unfolding acting_def query_defs
  by (blast intro: run_stmt_acts neutral_stmts)

sublocale own: handler_rel "acting W u" W X for u
  by unfold_locales (simp_all only: acting_refl query_acting CreateAccount_acting, rule acting_trans)

text \<open>The ownership test: from here on the account may be spent.\<close>

lemma load_own_account_may_spend:
  assumes "load_own_account W nf u i s = (Inr acc, s1)"
  shows "may_spend u (sdb s1) i"
proof -
  from assms have get: "GetAccount W Pool i s = (Inr acc, s1)" and own: "\<not> access_denied acc u"
    by (auto simp: load_own_account_def split: prod.splits sum.splits if_splits)
  from get obtain a where "account_of (sdb s1) i = Some a" "acc = scan_account a"
    by (auto simp: GetAccount_def run_stmt_Inr getAccount_Inr account_of_def)
  with own show ?thesis by (auto simp: may_spend_def access_denied_def split: option.splits)
qed

lemma money_handlers_acting:
  assumes "request_of X u r"
  shows "Handler_Deposit X W r s = (x, s') \<Longrightarrow> acting W u s s'"
    and "Handler_Withdraw X W r s = (x, s') \<Longrightarrow> acting W u s s'"
    and "Handler_Transfer X W r s = (x, s') \<Longrightarrow> acting W u s s'"
  using assms
  by (auto simp: Handler_Deposit_def Handler_Withdraw_def Handler_Transfer_def request_of_def Let_def
      split: prod.splits sum.splits option.splits if_splits
      dest: own.load_own_account_rel load_own_account_may_spend Deposit_acting Withdraw_acting Transfer_acting
      intro: acting_trans)

lemma protected_handler_acting:
  assumes "request_of X u r" and "protected_handler X W rt r s = (x, s')"
  shows "acting W u s s'"
  using assms(2) by (cases rt) (auto simp: protected_handler_def
      dest: own.account_handlers_rel own.entries_handlers_rel money_handlers_acting [OF assms(1)])

sublocale spending: request_rel "acting W u" W X "request_of X u" for u
proof
  show "acting W u s (s\<lparr>tick := Suc (tick s)\<rparr>)" for s by (simp add: acting_def guar_same acts_none)
qed (simp_all only: query_acting request_of_body protected_handler_acting)

lemmas serve_acting = spending.serve_rel

end

end
