(* ===== verification/Locks.thy ===== *)
theory Locks
  imports Ledger_Service
begin

section \<open>Row locks: which transactions wait for which\<close>

text \<open>
  Each operation on money starts its transaction with two \<open>SELECT ... FOR UPDATE\<close>. The database
  holds such a row for the transaction until its end and makes every other one that asks for it
  wait. Which rows an operation asks for, and in which order, is found by running its callback:
  \<open>locking\<close> is a transaction that executes the queries and also writes down the rows they lock,
  and \<open>lock_plan\<close> is what it has written down after the callback of \<open>Deposit\<close>, \<open>Withdraw\<close> or
  \<open>Transfer\<close>. A state is the transactions that are open, each with the rows it holds and those it
  will still ask for. The locale \<open>lock_order\<close> is the classical criterion, that all ask in one
  order; deposits and withdrawals satisfy it, transfers do not.
\<close>

subsection \<open>A transaction that records its row locks\<close>

type_synonym locking_session = "session \<times> uuid list"

text \<open>
  A query runs as it is, and the row it locks is added to those asked for, unless the
  transaction has it already.
\<close>

definition asking :: "(session \<Rightarrow> uuid option) \<Rightarrow> 'a op \<Rightarrow> (locking_session, 'a) run" where
  "asking row m = (\<lambda>(s, rows). case m s of (r, s') \<Rightarrow>
     (r, s', case row s of None \<Rightarrow> rows | Some i \<Rightarrow> if i \<in> set rows then rows else rows @ [i]))"

definition stored_row :: "uuid \<Rightarrow> session \<Rightarrow> uuid option" where
  "stored_row i s = (if i \<in> acc_ID ` set (accounts (sdb s)) then Some i else None)"

definition settlement_row :: "session \<Rightarrow> uuid option" where
  "settlement_row s = map_option acc_ID (find is_settlement (accounts (sdb s)))"

text \<open>
  \<open>FOR UPDATE\<close> and \<open>UPDATE\<close> lock the rows of accounts they find, and a new entry locks the account
  it refers to.
\<close>

definition locking :: "world \<Rightarrow> locking_session tx_queries" where
  "locking W =
     \<lparr>tx_GetAccountForUpdate = (\<lambda>i. asking (stored_row i) (GetAccountForUpdate W InTx i)),
      tx_GetSettlementAccountForUpdate = asking settlement_row (GetSettlementAccountForUpdate W InTx),
      tx_CreateEntry = (\<lambda>p. asking (stored_row (cep_AccountID p)) (CreateEntry W InTx p)),
      tx_UpdateAccountBalance = (\<lambda>p. asking (stored_row (uab_ID p)) (UpdateAccountBalance W InTx p)),
      tx_uuid_New = asking (\<lambda>s. None) (uuid_New W)\<rparr>"

lemma locking_simps:
  "tx_GetAccountForUpdate (locking W) = (\<lambda>i. asking (stored_row i) (GetAccountForUpdate W InTx i))"
  "tx_GetSettlementAccountForUpdate (locking W) = asking settlement_row (GetSettlementAccountForUpdate W InTx)"
  "tx_CreateEntry (locking W) = (\<lambda>p. asking (stored_row (cep_AccountID p)) (CreateEntry W InTx p))"
  "tx_UpdateAccountBalance (locking W) = (\<lambda>p. asking (stored_row (uab_ID p)) (UpdateAccountBalance W InTx p))"
  "tx_uuid_New (locking W) = asking (\<lambda>s. None) (uuid_New W)"
  by (simp_all add: locking_def)

lemmas deposit_tx_locking = deposit_tx_def [where q = "locking W" for W, unfolded locking_simps]
lemmas withdraw_tx_locking = withdraw_tx_def [where q = "locking W" for W, unfolded locking_simps]
lemmas transfer_tx_locking = transfer_tx_def [where q = "locking W" for W, unfolded locking_simps]

datatype 'd money_call = DepositCall uuid 'd | WithdrawCall uuid 'd | TransferCall uuid uuid 'd

fun money_tx :: "'d deps \<Rightarrow> 's tx_queries \<Rightarrow> 'd money_call \<Rightarrow> ('s, unit) run" where
  "money_tx X q (DepositCall accountID amount) = deposit_tx X q accountID amount"
| "money_tx X q (WithdrawCall accountID amount) = withdraw_tx X q accountID amount"
| "money_tx X q (TransferCall fromID toID amount) = transfer_tx X q fromID toID amount"

definition lock_plan :: "'d deps \<Rightarrow> world \<Rightarrow> 'd money_call \<Rightarrow> session \<Rightarrow> uuid list" where
  "lock_plan X W c s = snd (snd (money_tx X (locking W) c (s, [])))"

text \<open>Recording does not change the run.\<close>

definition erases :: "(locking_session, 'a) run \<Rightarrow> 'a op \<Rightarrow> bool" where
  "erases m' m \<longleftrightarrow> (\<forall>s rows. \<exists>rows'. m' (s, rows) = (fst (m s), snd (m s), rows'))"

lemma erases_asking: "erases (asking row m) m"
  by (simp add: erases_def asking_def split: prod.split)

lemma erases_and_then:
  assumes "erases m' m" and "\<And>x. erases (f' x) (f x)"
  shows "erases (and_then m' f') (and_then m f)"
  unfolding erases_def
proof (intro allI)
  fix s rows
  obtain rows1 where m: "m' (s, rows) = (fst (m s), snd (m s), rows1)" using assms(1) by (auto simp: erases_def)
  show "\<exists>rows'. and_then m' f' (s, rows) = (fst (and_then m f s), snd (and_then m f s), rows')"
  proof (cases "m s")
    case (Pair r s1)
    show ?thesis
    proof (cases r)
      case (Inr x)
      with assms(2) [of x] m Pair show ?thesis by (auto simp: erases_def and_then_def)
    qed (use m Pair in \<open>simp add: and_then_def\<close>)
  qed
qed

lemma erases_wrap_err: "erases m' m \<Longrightarrow> erases (wrap_err pre m') (wrap_err pre m)"
  unfolding erases_def
proof (intro allI)
  fix s rows
  assume "\<forall>s rows. \<exists>rows'. m' (s, rows) = (fst (m s), snd (m s), rows')"
  then obtain rows1 where m: "m' (s, rows) = (fst (m s), snd (m s), rows1)" by blast
  then show "\<exists>rows'. wrap_err pre m' (s, rows) = (fst (wrap_err pre m s), snd (wrap_err pre m s), rows')"
    by (cases "fst (m s)"; cases "m s") (auto simp: wrap_err_def)
qed

lemma erases_return: "erases (return_ok x) (return_ok x)" "erases (return_err e) (return_err e)"
  by (simp_all add: erases_def op_defs)

lemma erases_if: "erases m' m \<Longrightarrow> erases n' n \<Longrightarrow> erases (if b then m' else n') (if b then m else n)"
  by simp

lemma erases_option:
  "erases m' m \<Longrightarrow> (\<And>x. erases (f' x) (f x)) \<Longrightarrow>
    erases (case v of None \<Rightarrow> m' | Some x \<Rightarrow> f' x) (case v of None \<Rightarrow> m | Some x \<Rightarrow> f x)"
  by (cases v) simp_all

lemmas erases_intros = erases_asking erases_and_then erases_wrap_err erases_return erases_if erases_option

theorem recorded_run: "erases (money_tx X (locking W) c) (money_tx X (in_tx W) c)"
proof (cases c)
  case (DepositCall i amount)
  show ?thesis unfolding DepositCall money_tx.simps deposit_tx_locking deposit_tx_run by (intro erases_intros)
next
  case (WithdrawCall i amount)
  show ?thesis unfolding WithdrawCall money_tx.simps withdraw_tx_locking withdraw_tx_run by (intro erases_intros)
next
  case (TransferCall i j amount)
  show ?thesis unfolding TransferCall money_tx.simps transfer_tx_locking transfer_tx_run by (intro erases_intros)
qed

subsection \<open>What the callbacks ask for\<close>

text \<open>A part of a callback that locks nothing but rows the transaction already has.\<close>

definition asks_only :: "uuid list \<Rightarrow> (locking_session, 'a) run \<Rightarrow> bool" where
  "asks_only rows m \<longleftrightarrow> (\<forall>s. snd (snd (m (s, rows))) = rows)"

lemma asks_only_asking:
  "(\<And>s i. row s = Some i \<Longrightarrow> i \<in> set rows) \<Longrightarrow> asks_only rows (asking row m)"
  by (auto simp: asks_only_def asking_def split: prod.split option.split)

lemma asks_only_and_then:
  assumes "asks_only rows m" and "\<And>x. asks_only rows (f x)"
  shows "asks_only rows (and_then m f)"
  unfolding asks_only_def
proof
  fix s
  obtain r s1 where "m (s, rows) = (r, s1, rows)"
    using assms(1) by (metis asks_only_def prod.collapse)
  with assms(2) show "snd (snd (and_then m f (s, rows))) = rows"
    by (cases r) (simp_all add: asks_only_def)
qed

lemma asks_only_return: "asks_only rows (return_ok x)" "asks_only rows (return_err e)"
  by (simp_all add: asks_only_def op_defs)

lemma asks_only_if: "asks_only rows m \<Longrightarrow> asks_only rows n \<Longrightarrow> asks_only rows (if b then m else n)"
  by simp

lemma asks_only_option:
  "asks_only rows m \<Longrightarrow> (\<And>x. asks_only rows (f x)) \<Longrightarrow> asks_only rows (case v of None \<Rightarrow> m | Some x \<Rightarrow> f x)"
  by (cases v) simp_all

lemma asks_only_stored: "i \<in> set rows \<Longrightarrow> asks_only rows (asking (stored_row i) m)"
  by (rule asks_only_asking) (auto simp: stored_row_def split: if_splits)

lemma asks_only_uuid: "asks_only rows (asking (\<lambda>s. None) m)"
  by (rule asks_only_asking) simp

lemmas asks_only_intros = asks_only_and_then asks_only_return asks_only_if asks_only_option asks_only_stored asks_only_uuid

text \<open>
  Two locks and a rest that asks for no more: the rows asked for are the first one, and the
  second one if the first query succeeds and the second row is another.
\<close>

lemma two_locks:
  assumes row1: "row1 s = Some i"
    and found1: "\<And>a s1. m1 s = (Inr a, s1) \<Longrightarrow> sdb s1 = sdb s"
    and found2: "\<And>b s1 s2. sdb s1 = sdb s \<Longrightarrow> m2 s1 = (Inr b, s2) \<Longrightarrow> stored_row j s1 = Some j"
    and rest: "\<And>a b rows s1. m1 s = (Inr a, s1) \<Longrightarrow> {i, j} \<subseteq> set rows \<Longrightarrow> asks_only rows (f a b)"
  shows "snd (snd (and_then (wrap_err e1 (asking row1 m1)) (\<lambda>a. and_then (wrap_err e2 (asking (stored_row j) m2)) (f a)) (s, [])))
      = (if (\<exists>a s1. m1 s = (Inr a, s1)) \<and> stored_row j s = Some j \<and> j \<noteq> i then [i, j] else [i])"
    and "snd (snd (and_then (asking row1 m1) (\<lambda>a. and_then (asking (stored_row j) m2) (f a)) (s, [])))
      = (if (\<exists>a s1. m1 s = (Inr a, s1)) \<and> stored_row j s = Some j \<and> j \<noteq> i then [i, j] else [i])"
proof -
  have same: "stored_row j s1 = stored_row j s" if "sdb s1 = sdb s" for s1 by (simp add: stored_row_def that)
  obtain r1 s1 where m1: "m1 s = (r1, s1)" by force
  obtain r2 s2 where m2: "m2 s1 = (r2, s2)" by force
  have "snd (snd (and_then (wrap_err e1 (asking row1 m1)) (\<lambda>a. and_then (wrap_err e2 (asking (stored_row j) m2)) (f a)) (s, [])))
      = (if (\<exists>a s1. m1 s = (Inr a, s1)) \<and> stored_row j s = Some j \<and> j \<noteq> i then [i, j] else [i])
    \<and> snd (snd (and_then (asking row1 m1) (\<lambda>a. and_then (asking (stored_row j) m2) (f a)) (s, [])))
      = (if (\<exists>a s1. m1 s = (Inr a, s1)) \<and> stored_row j s = Some j \<and> j \<noteq> i then [i, j] else [i])"
  proof (cases r1)
    case (Inl e)
    then show ?thesis by (simp add: and_then_def wrap_err_def asking_def m1 row1)
  next
    case (Inr a)
    let ?rows = "if stored_row j s = Some j \<and> j \<noteq> i then [i, j] else [i]"
    have sdb: "sdb s1 = sdb s" using found1 m1 Inr by blast
    have first: "asking row1 m1 (s, []) = (Inr a, s1, [i])" by (simp add: asking_def m1 row1 Inr)
    have "stored_row j s \<in> {None, Some j}" by (simp add: stored_row_def)
    then have second: "asking (stored_row j) m2 (s1, [i]) = (r2, s2, ?rows)"
      by (auto simp: asking_def m2 same [OF sdb])
    show ?thesis
    proof (cases r2)
      case (Inl e)
      with first second show ?thesis by (simp add: and_then_def wrap_err_def m1 Inr)
    next
      case (Inr b)
      then have "stored_row j s = Some j" using found2 [OF sdb, of b s2] m2 same [OF sdb] by simp
      then have "asks_only ?rows (f a b)" using rest [of a s1 ?rows b] m1 \<open>r1 = Inr a\<close> by auto
      with first second Inr show ?thesis
        by (simp add: and_then_def wrap_err_def m1 \<open>r1 = Inr a\<close> asks_only_def)
    qed
  qed
  then show "snd (snd (and_then (wrap_err e1 (asking row1 m1)) (\<lambda>a. and_then (wrap_err e2 (asking (stored_row j) m2)) (f a)) (s, [])))
      = (if (\<exists>a s1. m1 s = (Inr a, s1)) \<and> stored_row j s = Some j \<and> j \<noteq> i then [i, j] else [i])"
    and "snd (snd (and_then (asking row1 m1) (\<lambda>a. and_then (asking (stored_row j) m2) (f a)) (s, [])))
      = (if (\<exists>a s1. m1 s = (Inr a, s1)) \<and> stored_row j s = Some j \<and> j \<noteq> i then [i, j] else [i])"
    by simp_all
qed

lemma for_update_found:
  "GetAccountForUpdate W InTx i s = (Inr a, s1) \<Longrightarrow> sdb s1 = sdb s"
  "GetAccountForUpdate W InTx i s = (Inr a, s1) \<Longrightarrow> stored_row i s = Some i"
  "GetSettlementAccountForUpdate W InTx s = (Inr a, s1) \<Longrightarrow> sdb s1 = sdb s"
  "GetSettlementAccountForUpdate W InTx s = (Inr a, s1) \<Longrightarrow> settlement_row s = Some (acc_ID a)"
proof -
  show "GetAccountForUpdate W InTx i s = (Inr a, s1) \<Longrightarrow> sdb s1 = sdb s"
    and "GetAccountForUpdate W InTx i s = (Inr a, s1) \<Longrightarrow> stored_row i s = Some i"
    by (auto simp: GetAccountForUpdate_def run_stmt_Inr getAccountForUpdate_Inr stored_row_def dest!: find_SomeD)
  show "GetSettlementAccountForUpdate W InTx s = (Inr a, s1) \<Longrightarrow> sdb s1 = sdb s"
    and "GetSettlementAccountForUpdate W InTx s = (Inr a, s1) \<Longrightarrow> settlement_row s = Some (acc_ID a)"
    by (auto simp: GetSettlementAccountForUpdate_def run_stmt_Inr getSettlementAccountForUpdate_Inr settlement_row_def)
qed

text \<open>Deposits and withdrawals ask for the settlement account first, transfers for their source.\<close>

lemma settlement_plan:
  assumes "settlement_row s = Some st"
  shows "lock_plan X W (DepositCall i amount) s
    = (if (\<exists>a s1. GetSettlementAccountForUpdate W InTx s = (Inr a, s1)) \<and> stored_row i s = Some i \<and> i \<noteq> st
       then [st, i] else [st])"
    and "lock_plan X W (WithdrawCall i amount) s
    = (if (\<exists>a s1. GetSettlementAccountForUpdate W InTx s = (Inr a, s1)) \<and> stored_row i s = Some i \<and> i \<noteq> st
       then [st, i] else [st])"
proof -
  have st: "acc_ID a = st" if "GetSettlementAccountForUpdate W InTx s = (Inr a, s1)" for a s1
    using for_update_found(4) [OF that] assms by simp
  show "lock_plan X W (DepositCall i amount) s
    = (if (\<exists>a s1. GetSettlementAccountForUpdate W InTx s = (Inr a, s1)) \<and> stored_row i s = Some i \<and> i \<noteq> st
       then [st, i] else [st])"
    unfolding lock_plan_def money_tx.simps deposit_tx_locking
    by (rule two_locks(1) [where s = s and i = st], rule assms, erule for_update_found, erule for_update_found,
        intro asks_only_intros) (auto dest: st)
  show "lock_plan X W (WithdrawCall i amount) s
    = (if (\<exists>a s1. GetSettlementAccountForUpdate W InTx s = (Inr a, s1)) \<and> stored_row i s = Some i \<and> i \<noteq> st
       then [st, i] else [st])"
    unfolding lock_plan_def money_tx.simps withdraw_tx_locking
    by (rule two_locks(1) [where s = s and i = st], rule assms, erule for_update_found, erule for_update_found,
        intro asks_only_intros) (auto dest: st)
qed

lemma transfer_plan:
  assumes "fault W (tick s) = NoFault" and "stored_row a s = Some a" and "stored_row b s = Some b" and "a \<noteq> b"
  shows "lock_plan X W (TransferCall a b amount) s = [a, b]"
proof -
  have "a \<in> acc_ID ` set (accounts (sdb s))" using assms(2) by (simp add: stored_row_def split: if_splits)
  then have "find (\<lambda>r. acc_ID r = a) (accounts (sdb s)) \<noteq> None" by (auto simp: find_None_iff)
  then have "\<exists>r s1. GetAccountForUpdate W InTx a s = (Inr r, s1)"
    using assms(1) by (auto simp: GetAccountForUpdate_def run_stmt_Inr getAccountForUpdate_Inr)
  moreover have "lock_plan X W (TransferCall a b amount) s
    = (if (\<exists>r s1. GetAccountForUpdate W InTx a s = (Inr r, s1)) \<and> stored_row b s = Some b \<and> b \<noteq> a
       then [a, b] else [a])"
    unfolding lock_plan_def money_tx.simps transfer_tx_locking
    by (rule two_locks(2) [where s = s and i = a], rule assms, erule for_update_found, erule for_update_found,
        intro asks_only_intros) auto
  ultimately show ?thesis using assms by simp
qed

subsection \<open>Open transactions\<close>

record locker =
  held :: "uuid list"
  todo :: "uuid list"

type_synonym lock_state = "nat \<rightharpoonup> locker"

definition waits_for :: "lock_state \<Rightarrow> nat \<Rightarrow> nat \<Rightarrow> bool" where
  "waits_for s t u \<longleftrightarrow> t \<noteq> u \<and>
     (\<exists>x y r rs. s t = Some x \<and> todo x = r # rs \<and> s u = Some y \<and> r \<in> set (held y))"

text \<open>
  A transaction begins with one of the calls \<open>C\<close>, on tables \<open>u\<close> and in a world \<open>W\<close> of its own, where
  \<open>settlement\<close> is the settlement account; it takes the row it asks for next if no other one holds
  it, and ends at any time, by a commit or by a rollback, which frees its rows.
\<close>

inductive lock_step :: "'d deps \<Rightarrow> ('d money_call \<Rightarrow> bool) \<Rightarrow> uuid \<Rightarrow> lock_state \<Rightarrow> lock_state \<Rightarrow> bool"
  for X :: "'d deps" and C :: "'d money_call \<Rightarrow> bool" and settlement :: uuid where
  lock_begin: "C c \<Longrightarrow> s t = None \<Longrightarrow> settlement_row u = Some settlement \<Longrightarrow>
    lock_step X C settlement s (s(t \<mapsto> \<lparr>held = [], todo = lock_plan X W c u\<rparr>))"
| lock_take: "s t = Some x \<Longrightarrow> todo x = r # rs \<Longrightarrow> (\<And>u. \<not> waits_for s t u) \<Longrightarrow>
    lock_step X C settlement s (s(t \<mapsto> \<lparr>held = r # held x, todo = rs\<rparr>))"
| lock_end: "s t = Some x \<Longrightarrow> lock_step X C settlement s (s(t := None))"

inductive lock_reachable :: "'d deps \<Rightarrow> ('d money_call \<Rightarrow> bool) \<Rightarrow> uuid \<Rightarrow> lock_state \<Rightarrow> bool"
  for X :: "'d deps" and C :: "'d money_call \<Rightarrow> bool" and settlement :: uuid where
  lock_empty: "lock_reachable X C settlement Map.empty"
| lock_more: "lock_reachable X C settlement s \<Longrightarrow> lock_step X C settlement s s' \<Longrightarrow> lock_reachable X C settlement s'"

definition deadlocked :: "lock_state \<Rightarrow> bool" where
  "deadlocked s \<longleftrightarrow> (\<exists>t. (waits_for s)\<^sup>+\<^sup>+ t t)"

subsection \<open>Exclusive rows\<close>

definition exclusive :: "lock_state \<Rightarrow> bool" where
  "exclusive s \<longleftrightarrow> (\<forall>t u x y r. s t = Some x \<and> s u = Some y \<and> r \<in> set (held x) \<and> r \<in> set (held y) \<longrightarrow> t = u)"

lemma exclusiveD:
  "exclusive s \<Longrightarrow> s t = Some x \<Longrightarrow> s u = Some y \<Longrightarrow> r \<in> set (held x) \<Longrightarrow> r \<in> set (held y) \<Longrightarrow> t = u"
  unfolding exclusive_def by blast

lemma lock_step_exclusive: "lock_step X C settlement s s' \<Longrightarrow> exclusive s \<Longrightarrow> exclusive s'"
proof (induction rule: lock_step.induct)
  case (lock_begin c s t u W)
  then show ?case by (auto simp: exclusive_def)
next
  case (lock_take s t x r rs)
  have "r \<notin> set (held y)" if "s u = Some y" "u \<noteq> t" for u y
    using lock_take.hyps that unfolding waits_for_def by metis
  with lock_take.hyps(1) show ?case
    unfolding exclusive_def by (auto dest: exclusiveD [OF lock_take.prems] split: if_splits)
next
  case (lock_end s t x)
  then show ?case by (auto simp: exclusive_def)
qed

lemma lock_reachable_exclusive: "lock_reachable X C settlement s \<Longrightarrow> exclusive s"
  by (induction rule: lock_reachable.induct) (simp add: exclusive_def, rule lock_step_exclusive)

lemma lock_reachable_finite: "lock_reachable X C settlement s \<Longrightarrow> finite (dom s)"
proof (induction rule: lock_reachable.induct)
  case (lock_more s s')
  from lock_more.hyps(2) lock_more.IH show ?case by (induction rule: lock_step.induct) simp_all
qed simp

subsection \<open>One order for all\<close>

locale lock_order =
  fixes rank :: "uuid \<Rightarrow> nat" and X :: "'d deps" and C :: "'d money_call \<Rightarrow> bool" and settlement :: uuid
  assumes rank_inj: "rank a = rank b \<Longrightarrow> a = b"
    and ordered: "C c \<Longrightarrow> settlement_row u = Some settlement \<Longrightarrow> sorted (map rank (lock_plan X W c u))"
begin

definition in_order :: "locker \<Rightarrow> bool" where
  "in_order x \<longleftrightarrow> sorted (map rank (rev (held x) @ todo x))"

lemma in_order_next: "in_order x \<Longrightarrow> todo x = r # rs \<Longrightarrow> h \<in> set (held x) \<Longrightarrow> rank h \<le> rank r"
  by (auto simp: in_order_def sorted_append)

lemma lock_reachable_in_order: "lock_reachable X C settlement s \<Longrightarrow> s t = Some x \<Longrightarrow> in_order x"
proof (induction arbitrary: t x rule: lock_reachable.induct)
  case (lock_more s s')
  from lock_more.hyps(2) lock_more.IH lock_more.prems show ?case
  proof (induction rule: lock_step.induct)
    case (lock_begin c s u v W)
    then show ?case by (auto simp: in_order_def ordered split: if_splits)
  next
    case (lock_take s u y r rs)
    have "in_order y" by (rule lock_take.prems(1) [OF lock_take.hyps(1)])
    with lock_take show ?case by (auto simp: in_order_def split: if_splits)
  next
    case (lock_end s u y)
    then show ?case by (auto split: if_splits)
  qed
qed simp

text \<open>The row a transaction waits for comes before the one its holder waits for.\<close>

definition wanted :: "lock_state \<Rightarrow> nat \<Rightarrow> nat" where
  "wanted s t = rank (hd (todo (the (s t))))"

lemma wanted_less:
  assumes reach: "lock_reachable X C settlement s" and "waits_for s t u" and "waits_for s u v"
  shows "wanted s t < wanted s u"
proof -
  from assms(2) obtain x y r rs where t: "s t = Some x" "todo x = r # rs" and u: "s u = Some y" "r \<in> set (held y)"
    unfolding waits_for_def by blast
  from assms(3) u(1) obtain z r' rs' where v: "u \<noteq> v" "todo y = r' # rs'" "s v = Some z" "r' \<in> set (held z)"
    unfolding waits_for_def by auto
  have "rank r \<le> rank r'"
    by (rule in_order_next [OF lock_reachable_in_order [OF reach u(1)] v(2) u(2)])
  moreover have "r \<noteq> r'"
    using exclusiveD [OF lock_reachable_exclusive [OF reach] u(1) v(3) u(2)] v(1,4) by blast
  ultimately have "rank r < rank r'" using rank_inj [of r r'] by (auto simp: le_less)
  then show ?thesis using t u(1) v(2) by (simp add: wanted_def)
qed

lemma wanted_chain:
  assumes reach: "lock_reachable X C settlement s"
  shows "(waits_for s)\<^sup>+\<^sup>+ t u \<Longrightarrow> waits_for s u v \<Longrightarrow> wanted s t < wanted s u"
proof (induction arbitrary: v rule: tranclp_induct)
  case (base u)
  then show ?case using wanted_less [OF reach] by blast
next
  case (step u u')
  from step.IH [OF step.hyps(2)] wanted_less [OF reach step.hyps(2) step.prems] show ?case by simp
qed

theorem never_deadlocked: "lock_reachable X C settlement s \<Longrightarrow> \<not> deadlocked s"
proof
  assume reach: "lock_reachable X C settlement s" and "deadlocked s"
  then obtain t where cycle: "(waits_for s)\<^sup>+\<^sup>+ t t" unfolding deadlocked_def by blast
  then obtain v where "waits_for s t v" by (meson tranclpD)
  from wanted_chain [OF reach cycle this] show False by simp
qed

text \<open>So as long as transactions are open, one of them does not wait.\<close>

lemma some_not_waiting:
  assumes reach: "lock_reachable X C settlement s" and "s \<noteq> Map.empty"
  obtains t where "t \<in> dom s" and "\<And>u. \<not> waits_for s t u"
proof -
  let ?waiting = "{t \<in> dom s. \<exists>u. waits_for s t u}"
  have dom: "u \<in> dom s" if "waits_for s t u" for t u using that by (auto simp: waits_for_def)
  have "finite ?waiting" using lock_reachable_finite [OF reach] by simp
  have "\<exists>t \<in> dom s. \<forall>u. \<not> waits_for s t u"
  proof (rule ccontr)
    assume none: "\<not> ?thesis"
    then have all: "?waiting = dom s" by blast
    with assms(2) have "?waiting \<noteq> {}" by auto
    then have "Max (wanted s ` ?waiting) \<in> wanted s ` ?waiting" using \<open>finite ?waiting\<close> by (intro Max_in) auto
    then obtain t where t: "t \<in> ?waiting" and "Max (wanted s ` ?waiting) = wanted s t" by (rule imageE)
    then have max: "wanted s u \<le> wanted s t" if "u \<in> ?waiting" for u
      using Max_ge [of "wanted s ` ?waiting" "wanted s u"] \<open>finite ?waiting\<close> that by simp
    from t obtain u where u: "waits_for s t u" by blast
    with dom all obtain v where v: "waits_for s u v" by blast
    from u v dom have "u \<in> ?waiting" by (auto simp: waits_for_def)
    from wanted_less [OF reach u v] max [OF this] show False by simp
  qed
  with that show ?thesis by blast
qed

end

subsection \<open>Deposits and withdrawals\<close>

definition no_transfer :: "'d money_call \<Rightarrow> bool" where
  "no_transfer c \<longleftrightarrow> (case c of TransferCall fromID toID amount \<Rightarrow> False | _ \<Rightarrow> True)"

text \<open>The settlement account first, then the others in any fixed order.\<close>

definition settlement_first :: "uuid \<Rightarrow> uuid \<Rightarrow> nat" where
  "settlement_first settlement i = (if i = settlement then 0 else Suc (unat i))"

interpretation settlement_locks: lock_order "settlement_first settlement" X no_transfer settlement
  for settlement :: uuid and X :: "'d deps"
proof
  show "settlement_first settlement a = settlement_first settlement b \<Longrightarrow> a = b" for a b
    by (auto simp: settlement_first_def split: if_splits intro: word_unat_eq_iff [THEN iffD2])
  show "sorted (map (settlement_first settlement) (lock_plan X W c u))"
    if "no_transfer c" and "settlement_row u = Some settlement" for c :: "'d money_call" and u W
    using that(1) by (cases c) (simp_all add: no_transfer_def settlement_plan [OF that(2)] settlement_first_def)
qed

subsection \<open>Two opposite transfers\<close>

text \<open>Each has locked its source and asks for its destination.\<close>

definition crossed :: "uuid \<Rightarrow> uuid \<Rightarrow> lock_state" where
  "crossed a b = [0 \<mapsto> \<lparr>held = [a], todo = [b]\<rparr>, 1 \<mapsto> \<lparr>held = [b], todo = [a]\<rparr>]"

lemma crossed_reachable:
  assumes plans: "lock_plan X W c u = [a, b]" "lock_plan X W' c' u' = [b, a]"
    and calls: "C c" "C c'" and settled: "settlement_row u = Some settlement" "settlement_row u' = Some settlement"
    and "a \<noteq> b"
  shows "lock_reachable X C settlement (crossed a b)"
proof -
  let ?s1 = "[0 \<mapsto> \<lparr>held = [], todo = [a, b]\<rparr>] :: lock_state"
  let ?s2 = "?s1(1 \<mapsto> \<lparr>held = [], todo = [b, a]\<rparr>)"
  let ?s3 = "?s2(0 \<mapsto> \<lparr>held = [a], todo = [b]\<rparr>)"
  have "lock_step X C settlement Map.empty ?s1"
    using lock_begin [where X = X and C = C and c = c and s = Map.empty and t = 0 and u = u and W = W] plans(1) calls(1) settled(1) by simp
  moreover have "lock_step X C settlement ?s1 ?s2"
    using lock_begin [where X = X and C = C and c = c' and s = ?s1 and t = 1 and u = u' and W = W'] plans(2) calls(2) settled(2) by simp
  moreover have "lock_step X C settlement ?s2 ?s3"
    using lock_take [of ?s2 0 "\<lparr>held = [], todo = [a, b]\<rparr>" a "[b]" X C settlement]
    by (auto simp: waits_for_def split: if_splits)
  moreover have "lock_step X C settlement ?s3 (crossed a b)"
    using lock_take [of ?s3 1 "\<lparr>held = [], todo = [b, a]\<rparr>" b "[a]" X C settlement] assms(7)
    by (auto simp: waits_for_def crossed_def fun_upd_twist split: if_splits)
  ultimately show ?thesis by (rule lock_more [OF lock_more [OF lock_more [OF lock_more [OF lock_empty]]]])
qed

lemma crossed_waits: "waits_for (crossed a b) 0 1" "waits_for (crossed a b) 1 0"
  by (auto simp: waits_for_def crossed_def)

lemma crossed_deadlocked: "deadlocked (crossed a b)"
  unfolding deadlocked_def using crossed_waits [of a b] by (meson tranclp.intros)

end
