(* ===== verification/Api_Behaviour.thy ===== *)
theory Api_Behaviour
  imports Server Ledger_Effects
begin

section \<open>What the handlers answer\<close>

text \<open>
  The status codes of every handler, the refusals (no token, another's account), the page
  parameters, and that a handler never touches the idempotency table, so that the contract of
  the middleware holds for the protected routes as they are.
\<close>

subsection \<open>Every answer is one JSON response\<close>

definition answers :: "int set \<Rightarrow> wr_call list \<Rightarrow> bool" where
  "answers codes calls \<longleftrightarrow> (\<exists>code data. calls = respondJSON code data \<and> code \<in> codes)"

lemma answers_respond [simp]:
  "answers codes (respondJSON code data) \<longleftrightarrow> code \<in> codes"
  "answers codes (respondError code msg) \<longleftrightarrow> code \<in> codes"
proof -
  show respond: "answers codes (respondJSON code data) \<longleftrightarrow> code \<in> codes" for data
    unfolding answers_def by (auto simp: respondJSON_def)
  show "answers codes (respondError code msg) \<longleftrightarrow> code \<in> codes"
    unfolding respondError_def by (rule respond)
qed

lemma client_respondJSON [simp]:
  "client_status (respondJSON code data) = code"
  "client_body (respondJSON code data) = json_encode data @ [CHR 0x0A]"
  "client_headers (respondJSON code data) = [(''Content-Type'', ''application/json'')]"
  by (simp_all add: respondJSON_def client_status_def client_body_def client_headers_def wr_run_def new_writer_def)

lemma client_respondError [simp]: "client_status (respondError code msg) = code"
  by (simp add: respondError_def)

lemma answers_client:
  assumes "answers codes calls" and "0 \<notin> codes"
  shows "sends_once False calls" and "client_body calls \<noteq> []" and "client_status calls \<in> codes"
proof -
  from assms obtain code data where c: "calls = respondJSON code data" "code \<in> codes" "code \<noteq> 0"
    unfolding answers_def by blast
  then show "sends_once False calls" by (simp add: respondJSON_def)
  show "client_body calls \<noteq> []" "client_status calls \<in> codes" using c by simp_all
qed

lemma auth_user_answers: "auth_user X r = Inl resp \<Longrightarrow> answers {401} resp"
  by (auto simp: auth_user_def split: sum.splits option.splits json.splits)

lemma load_own_account_answers:
  "load_own_account W nf u i s = (Inl resp, s') \<Longrightarrow> answers {403, 404} resp"
  by (auto simp: load_own_account_def split: prod.splits sum.splits if_splits)

lemma answers_mono: "answers A calls \<Longrightarrow> A \<subseteq> B \<Longrightarrow> answers B calls"
  by (auto simp: answers_def)

lemmas answers_rules = auth_user_answers [THEN answers_mono] load_own_account_answers [THEN answers_mono]

lemma error_code_range [simp]:
  "deposit_code e \<in> {200, 400, 401, 403, 404, 500}" "withdraw_code e \<in> {200, 400, 401, 403, 404, 500}"
  by (simp_all add: deposit_code_def withdraw_code_def)

lemma account_answers:
  "Handler_CreateAccount X W r s = (x, s') \<Longrightarrow> answers {201, 400, 401, 500} x"
  "Handler_ListAccounts X W r s = (x, s') \<Longrightarrow> answers {200, 401, 500} x"
  "Handler_GetAccount X W r s = (x, s') \<Longrightarrow> answers {200, 400, 401, 403, 404} x"
  by (auto simp: Handler_CreateAccount_def Handler_ListAccounts_def Handler_GetAccount_def
      split: prod.splits sum.splits option.splits if_splits intro: answers_rules)

lemma money_answers:
  "Handler_Deposit X W r s = (x, s') \<Longrightarrow> answers {200, 400, 401, 403, 404, 500} x"
  "Handler_Withdraw X W r s = (x, s') \<Longrightarrow> answers {200, 400, 401, 403, 404, 500} x"
  "Handler_Transfer X W r s = (x, s') \<Longrightarrow> answers {200, 400, 401, 403, 404} x"
  by (auto simp del: insert_iff simp: Handler_Deposit_def Handler_Withdraw_def Handler_Transfer_def Let_def
      split: prod.splits sum.splits option.splits if_splits intro: answers_rules; simp)+

lemma entries_answers:
  "Handler_GetEntries X W r s = (x, s') \<Longrightarrow> answers {200, 400, 401, 403, 404, 500} x"
  "Handler_GetTransactions X W r s = (x, s') \<Longrightarrow> answers {200, 400, 401, 403, 404, 500} x"
  "Handler_ReconcileAccount X W r s = (x, s') \<Longrightarrow> answers {200, 400, 401, 403, 404, 500} x"
  by (auto simp: Handler_GetEntries_def Handler_GetTransactions_def Handler_ReconcileAccount_def
      split: prod.splits sum.splits option.splits if_splits intro: answers_rules)

lemma protected_answers:
  assumes "protected_handler X W rt r s = (x, s')"
  shows "answers {200, 201, 400, 401, 403, 404, 500} x"
  using assms
  by (cases rt) (auto simp: protected_handler_def
      dest!: account_answers money_answers entries_answers intro: answers_mono)

subsection \<open>Refusals\<close>

lemma no_token:
  assumes "auth_user X r = Inl resp"
  shows "protected_handler X W rt r s = (resp, s)"
  using assms
  by (cases rt) (simp_all add: protected_handler_def Handler_CreateAccount_def Handler_ListAccounts_def
      Handler_GetAccount_def Handler_Deposit_def Handler_Withdraw_def Handler_Transfer_def
      Handler_GetEntries_def Handler_GetTransactions_def Handler_ReconcileAccount_def)

lemma auth_user_Query: "auth_user X (r\<lparr>Query := q\<rparr>) = auth_user X r"
  by (simp add: auth_user_def)

lemma load_foreign:
  assumes "fault W (tick s) = NoFault" and "account_of (interfere W (tick s) (sdb s)) i = Some a"
    and "acc_OwnerID a = Some ow" and "ow \<noteq> u"
  shows "load_own_account W nf u i s
    = (Inl (respondError 403 ''access denied''),
       s\<lparr>sdb := interfere W (tick s) (sdb s), tick := Suc (tick s)\<rparr>)"
proof -
  have "GetAccount W Pool i s
      = (Inr (scan_account a), s\<lparr>sdb := interfere W (tick s) (sdb s), tick := Suc (tick s)\<rparr>)"
    using assms(1,2) by (simp add: GetAccount_def run_stmt_Inr getAccount_Inr account_of_def)
  then show ?thesis using assms(3,4) by (simp add: load_own_account_def access_denied_def)
qed

lemma load_ownerless:
  assumes "fault W (tick s) = NoFault" and "account_of (interfere W (tick s) (sdb s)) i = Some a"
    and "acc_OwnerID a = None \<or> acc_OwnerID a = Some u"
  shows "load_own_account W nf u i s
    = (Inr (scan_account a), s\<lparr>sdb := interfere W (tick s) (sdb s), tick := Suc (tick s)\<rparr>)"
proof -
  have "GetAccount W Pool i s
      = (Inr (scan_account a), s\<lparr>sdb := interfere W (tick s) (sdb s), tick := Suc (tick s)\<rparr>)"
    using assms(1,2) by (simp add: GetAccount_def run_stmt_Inr getAccount_Inr account_of_def)
  then show ?thesis using assms(3) by (auto simp: load_own_account_def access_denied_def)
qed

text \<open>An account without an owner, so the settlement account, is shown to every user with a token.\<close>

lemma GetAccount_ownerless:
  assumes "auth_user X r = Inr u" and "uuid_Parse X (URLParam r ''id'') = Some i"
    and "fault W (tick s) = NoFault" and "account_of (interfere W (tick s) (sdb s)) i = Some a"
    and "acc_OwnerID a = None"
  shows "fst (Handler_GetAccount X W r s)
    = respondJSON 200 (account_json X (toAccountResponse X (scan_account a)))"
  using load_ownerless [OF assms(3,4), of u] assms(5) by (simp add: Handler_GetAccount_def assms(1,2))

text \<open>The routes with an account identifier in the path.\<close>

definition account_route :: "route \<Rightarrow> bool" where
  "account_route rt \<longleftrightarrow> rt \<in> {GetAccountById, PostDeposit, PostWithdraw, GetAccountEntries, GetReconcile}"

lemma foreign_account:
  assumes "account_route rt" and "auth_user X r = Inr u" and "uuid_Parse X (URLParam r ''id'') = Some i"
    and "fault W (tick s) = NoFault" and "account_of (interfere W (tick s) (sdb s)) i = Some a"
    and "acc_OwnerID a = Some ow" and "ow \<noteq> u"
  shows "protected_handler X W rt r s
    = (respondError 403 ''access denied'', s\<lparr>sdb := interfere W (tick s) (sdb s), tick := Suc (tick s)\<rparr>)"
  using assms(1,2,3) load_foreign [OF assms(4-7)]
  by (auto simp: account_route_def protected_handler_def Handler_GetAccount_def Handler_Deposit_def
      Handler_Withdraw_def Handler_GetEntries_def Handler_ReconcileAccount_def)

subsection \<open>Pages of entries\<close>

lemma entries_limit_range: "0 < entries_limit t \<and> entries_limit t \<le> 100"
  by (auto simp: entries_limit_def split: option.splits)

lemma entries_offset_range: "0 \<le> entries_offset t \<and> entries_offset t < 2 ^ 63"
  by (auto simp: entries_offset_def Atoi_def Let_def split: option.splits prod.splits if_splits)

lemma sint_small: "0 \<le> v \<Longrightarrow> v < 2 ^ 31 \<Longrightarrow> sint (word_of_int v :: 32 word) = v"
  by (simp add: sint_sbintrunc' signed_take_bit_int_eq_self)

lemma GetEntries_page:
  assumes "auth_user X r = Inr u" and "uuid_Parse X (URLParam r ''id'') = Some i"
    and "quiet W" and "account_of (sdb s) i = Some a" and "acc_OwnerID a = Some u"
  shows "Handler_GetEntries X W r s =
    (let offset = sint (word_of_int (entries_offset (Query r ''offset'')) :: 32 word)
     in (if offset < 0 then respondError 500 ''failed to fetch entries''
         else respondJSON 200 (JArray (map (\<lambda>e. entry_json X (toEntryResponse X (scan_entry e)))
                (take (nat (entries_limit (Query r ''limit''))) (drop (nat offset)
                  (order_by_desc ent_CreatedAt (filter (\<lambda>e. ent_AccountID e = i) (entries (sdb s))))))))),
     s\<lparr>tick := tick s + 2\<rparr>)"
proof -
  have limit: "sint (word_of_int (entries_limit (Query r ''limit'')) :: 32 word) = entries_limit (Query r ''limit'')"
    using entries_limit_range [of "Query r ''limit''"] by (intro sint_small) auto
  have load: "load_own_account W ''account not found'' u i s = (Inr (scan_account a), s\<lparr>tick := Suc (tick s)\<rparr>)"
    using load_ownerless [of W s i a u] assms(3-5) by simp
  show ?thesis
    using entries_limit_range [of "Query r ''limit''"] assms(3)
    by (simp add: Handler_GetEntries_def assms(1,2) load ListEntriesByAccount_def run_stmt_quiet
        listEntriesByAccount_def limit Let_def comp_def)
qed

text \<open>The conversion to \<open>int32\<close> wraps: an offset in the upper half of 32 bits becomes negative.\<close>

lemma sint_wrap:
  assumes "2 ^ 31 \<le> v" and "v < 2 ^ 32"
  shows "sint (word_of_int v :: 32 word) = v - 2 ^ 32"
proof -
  have "(word_of_int v :: 32 word) = word_of_int (v - 2 ^ 32)"
    by (simp add: word_of_int_eq_iff take_bit_eq_mod)
  moreover have "sint (word_of_int (v - 2 ^ 32) :: 32 word) = v - 2 ^ 32"
    using assms unfolding sint_sbintrunc' by (subst signed_take_bit_int_eq_self) simp_all
  ultimately show ?thesis by (simp only:)
qed

lemma GetEntries_offset_wrap:
  assumes "auth_user X r = Inr u" and "uuid_Parse X (URLParam r ''id'') = Some i"
    and "quiet W" and "account_of (sdb s) i = Some a" and "acc_OwnerID a = Some u"
    and "2 ^ 31 \<le> entries_offset (Query r ''offset'')" and "entries_offset (Query r ''offset'') < 2 ^ 32"
  shows "client_status (fst (Handler_GetEntries X W r s)) = 500"
  unfolding GetEntries_page [OF assms(1-5)] sint_wrap [OF assms(6,7)] using assms(6,7)
  by (simp add: Let_def)

subsection \<open>Who may read a transaction\<close>

lemma authorize_entries_quiet:
  assumes "quiet W" and "authorize_entries W u es s = (Inr True, s')"
  shows "\<exists>e a. e \<in> set es \<and> account_of (sdb s) (ent_AccountID e) = Some a \<and> acc_OwnerID a = Some u"
  using assms(2)
proof (induction es arbitrary: s)
  case Nil
  then show ?case by simp
next
  case (Cons e es)
  from Cons.prems obtain acc s1 where get: "GetAccount W Pool (ent_AccountID e) s = (Inr acc, s1)"
    and rest: "acc_OwnerID acc = Some u \<or> authorize_entries W u es s1 = (Inr True, s')"
    by (auto split: prod.splits sum.splits if_splits)
  from get assms(1) obtain a where a: "account_of (sdb s) (ent_AccountID e) = Some a"
    "acc = scan_account a" "sdb s1 = sdb s"
    by (auto simp: GetAccount_def run_stmt_Inr getAccount_Inr account_of_def)
  with rest Cons.IH [of s1] show ?case by auto
qed

lemma GetTransactions_owner:
  assumes "quiet W" and "auth_user X r = Inr u" and "uuid_Parse X (URLParam r ''id'') = Some tx"
    and "Handler_GetTransactions X W r s = (x, s')" and "client_status x = 200"
  shows "\<exists>e a. e \<in> set (entries (sdb s)) \<and> ent_TransactionID e = tx
           \<and> account_of (sdb s) (ent_AccountID e) = Some a \<and> acc_OwnerID a = Some u"
proof -
  let ?es = "map scan_entry (order_by_asc ent_CreatedAt
            (filter (\<lambda>e. ent_TransactionID e = tx) (entries (sdb s))))"
  have list: "ListEntriesByTransaction W Pool tx s = (Inr ?es, s\<lparr>tick := Suc (tick s)\<rparr>)"
    using assms(1) by (simp add: ListEntriesByTransaction_def run_stmt_quiet listEntriesByTransaction_def)
  obtain r2 s2 where auth: "authorize_entries W u ?es (s\<lparr>tick := Suc (tick s)\<rparr>) = (r2, s2)" by force
  from assms(4,5) have "r2 = Inr True"
    by (auto simp: Handler_GetTransactions_def assms(2,3) list auth split: if_splits sum.splits)
  with authorize_entries_quiet [OF assms(1)] auth show ?thesis by fastforce
qed

subsection \<open>Users and accounts\<close>

lemma Register_quiet:
  assumes "quiet W" and "decode_auth r = (True, \<lparr>aur_Email = email, aur_Password = pw\<rparr>)"
    and "email \<noteq> []" and "pw \<noteq> []" and "bcrypt_Generate X (tick s) pw = Some h"
    and "fresh W (tick s) \<notin> usr_ID ` set (users (sdb s))"
    and "Handler_Register X W ta r s = (x, s')"
  shows "if zero_byte email \<or> zero_byte h \<or> email \<in> usr_Email ` set (users (sdb s))
         then x = respondError 409 ''user already exists or failed'' \<and> sdb s' = sdb s
         else sdb s' = (sdb s)\<lparr>users := users (sdb s) @ [\<lparr>usr_ID = fresh W (tick s), usr_Email = email,
                usr_HashedPassword = h, usr_CreatedAt = Some (stmt_time W s)\<rparr>]\<rparr> \<and> client_status x \<in> {201, 500}"
proof -
  have "createUser \<lparr>cup_Email = email, cup_HashedPassword = h\<rparr> (fresh W (tick s)) (stmt_time W s) (sdb s)
      = (if zero_byte email \<or> zero_byte h then Inl untranslatable
         else if email \<in> usr_Email ` set (users (sdb s)) then Inl unique_violation
         else Inr (\<lparr>cur_ID = fresh W (tick s), cur_Email = email, cur_CreatedAt = Some (stmt_time W s)\<rparr>,
                (sdb s)\<lparr>users := users (sdb s) @ [\<lparr>usr_ID = fresh W (tick s), usr_Email = email,
                usr_HashedPassword = h, usr_CreatedAt = Some (stmt_time W s)\<rparr>]\<rparr>))"
    using assms(6) by (simp add: createUser_def)
  then show ?thesis
    using assms(7) assms(1)
    by (auto simp: Handler_Register_def assms(2-5) CreateUser_def run_stmt_quiet GenerateToken_def Let_def
        split: if_splits option.splits)
qed

lemma Login_quiet:
  assumes "quiet W" and "decode_auth r = (True, \<lparr>aur_Email = email, aur_Password = pw\<rparr>)"
    and "Handler_Login X W ta r s = (x, s')"
  shows "sdb s' = sdb s \<and> (client_status x = 200 \<longrightarrow> (\<exists>u. u \<in> set (users (sdb s)) \<and> usr_Email u = email
           \<and> bcrypt_Compare X (usr_HashedPassword u) pw))"
  using assms(3) assms(1)
  by (auto simp: Handler_Login_def assms(2) GetUserByEmail_def run_stmt_quiet getUserByEmail_def
      GenerateToken_def Let_def split: if_splits option.splits dest!: find_SomeD)

lemma CreateAccount_quiet:
  assumes "quiet W" and "auth_user X r = Inr u" and "decode_create_account r = (True, nm)" and "nm \<noteq> []"
    and "\<not> zero_byte nm" and "u \<in> usr_ID ` set (users (sdb s))" and "fresh W (tick s) \<notin> acc_ID ` set (accounts (sdb s))"
  shows "\<exists>a s'. Handler_CreateAccount X W r s
             = (respondJSON 201 (account_json X (toAccountResponse X (scan_account a))), s')
           \<and> sdb s' = (sdb s)\<lparr>accounts := accounts (sdb s) @ [a]\<rparr>
           \<and> acc_ID a = fresh W (tick s) \<and> acc_OwnerID a = Some u \<and> acc_Name a = nm \<and> acc_Balance a = 0
           \<and> acc_Currency a = ''USD'' \<and> \<not> acc_IsSystem a"
proof -
  let ?a = "\<lparr>acc_ID = fresh W (tick s), acc_OwnerID = Some u, acc_Name = nm, acc_Balance = 0,
             acc_Currency = ''USD'', acc_IsSystem = False, acc_CreatedAt = Some (stmt_time W s)\<rparr>"
  have "Handler_CreateAccount X W r s
      = (respondJSON 201 (account_json X (toAccountResponse X (scan_account ?a))),
         s\<lparr>sdb := (sdb s)\<lparr>accounts := accounts (sdb s) @ [?a]\<rparr>, tick := Suc (tick s)\<rparr>)"
    using assms(5-7)
    by (simp add: Handler_CreateAccount_def assms(2,3,4) CreateAccount_def run_stmt_quiet [OF assms(1)]
        createAccount_def Let_def)
  then show ?thesis by (intro exI [of _ ?a] exI, intro conjI, assumption) simp_all
qed

lemma ListAccounts_quiet:
  assumes "quiet W" and "auth_user X r = Inr u"
  shows "Handler_ListAccounts X W r s =
    (respondJSON 200 (JArray (map (\<lambda>a. account_json X (toAccountResponse X (scan_account a)))
       (order_by_desc acc_CreatedAt (filter (\<lambda>a. acc_OwnerID a = Some u) (accounts (sdb s)))))),
     s\<lparr>tick := Suc (tick s)\<rparr>)"
  by (simp add: Handler_ListAccounts_def assms(2) ListAccountsByOwner_def run_stmt_quiet [OF assms(1)]
      listAccountsByOwner_def comp_def)

subsection \<open>Handlers leave the idempotency table alone\<close>

definition keeps_keys :: "session \<Rightarrow> session \<Rightarrow> bool" where
  "keeps_keys s s' \<longleftrightarrow>
     (ledger_inv (sdb s) \<longrightarrow> ledger_inv (sdb s') \<and> idempotency_keys (sdb s') = idempotency_keys (sdb s))"

lemma keeps_keys_refl [intro, simp]: "keeps_keys s s"
  by (simp add: keeps_keys_def)

lemma keeps_keys_trans: "keeps_keys s s1 \<Longrightarrow> keeps_keys s1 s2 \<Longrightarrow> keeps_keys s s2"
  by (auto simp: keeps_keys_def)

locale quiet_api = decimal_library X num
  for W :: world and X :: "'d deps" and num :: "'d \<Rightarrow> rat" +
  assumes quiet: "quiet W"

sublocale quiet_api \<subseteq> ledger_api W X num
  using quiet by unfold_locales (simp_all add: quiet_rely quiet_commit_reports)

context quiet_api
begin

lemma stmt_keeps_keys:
  assumes "step_stmt st" and "run_stmt W Pool st s = (x, s')"
    and "\<And>u t d r d1. st u t d = Inr (r, d1) \<Longrightarrow> idempotency_keys d1 = idempotency_keys d"
  shows "keeps_keys s s'"
proof -
  have "guar s s'" by (rule run_stmt_guar [OF assms(1,2)])
  moreover have "idempotency_keys (sdb s') = idempotency_keys (sdb s)"
    using assms(2,3) quiet by (auto simp: run_stmt_quiet split: sum.splits)
  ultimately show ?thesis by (auto simp: guar_def keeps_keys_def intro: db_steps_inv)
qed

lemma query_keeps_keys:
  "GetAccount W Pool i s = (x1, s') \<Longrightarrow> keeps_keys s s'"
  "GetAccountBalance W Pool i s = (x2, s') \<Longrightarrow> keeps_keys s s'"
  "ListAccountsByOwner W Pool ow s = (x3, s') \<Longrightarrow> keeps_keys s s'"
  "ListEntriesByAccount W Pool lp s = (x4, s') \<Longrightarrow> keeps_keys s s'"
  "ListEntriesByTransaction W Pool tx s = (x5, s') \<Longrightarrow> keeps_keys s s'"
  unfolding query_defs
  by (erule stmt_keeps_keys [OF step_stmt_reads(2)] stmt_keeps_keys [OF step_stmt_reads(3)]
        stmt_keeps_keys [OF step_stmt_reads(4)] stmt_keeps_keys [OF step_stmt_reads(5)]
        stmt_keeps_keys [OF step_stmt_reads(6)],
      auto simp: getAccount_Inr getAccountBalance_Inr listAccountsByOwner_def listEntriesByAccount_def
        listEntriesByTransaction_def split: if_splits)+

lemma CreateAccount_keeps_keys:
  "CreateAccount W Pool \<lparr>cap_OwnerID = Some ow, cap_Name = nm, cap_Currency = ''USD'', cap_IsSystem = False\<rparr> s
     = (x, s') \<Longrightarrow> keeps_keys s s'"
  unfolding query_defs
  by (erule stmt_keeps_keys [rotated]) (auto intro: step_stmt_account simp: createAccount_def Let_def split: if_splits)

lemma posting_keys: "posting opt src dst n d d' \<Longrightarrow> idempotency_keys d' = idempotency_keys d"
  by (rule posting_frame(2))

lemma money_keeps_keys:
  "Deposit X W i a s = (x, s') \<Longrightarrow> keeps_keys s s'"
  "Withdraw X W i a s = (x, s') \<Longrightarrow> keeps_keys s s'"
  "Transfer X W i j a s = (x, s') \<Longrightarrow> keeps_keys s s'"
proof -
  note env = quiet_rely [OF quiet] quiet_commit_reports [OF quiet]
  show "Deposit X W i a s = (x, s') \<Longrightarrow> keeps_keys s s'"
    using Deposit_cases [OF env] Deposit_steps [OF env] others_quiet quiet
    by (fastforce simp: keeps_keys_def deposited_def intro: db_steps_inv dest: posting_keys)
  show "Withdraw X W i a s = (x, s') \<Longrightarrow> keeps_keys s s'"
    using Withdraw_cases [OF env] Withdraw_steps [OF env] others_quiet quiet
    by (fastforce simp: keeps_keys_def withdrawn_def intro: db_steps_inv dest: posting_keys)
  show "Transfer X W i j a s = (x, s') \<Longrightarrow> keeps_keys s s'"
    using Transfer_cases [OF env] Transfer_steps [OF env] others_quiet quiet
    by (fastforce simp: keeps_keys_def transferred_def intro: db_steps_inv dest: posting_keys)
qed

sublocale keeping: protected_rel keeps_keys W X
proof
  show "keeps_keys s s1 \<Longrightarrow> keeps_keys s1 s2 \<Longrightarrow> keeps_keys s s2" for s s1 s2 by (rule keeps_keys_trans)
qed (simp_all only: keeps_keys_refl query_keeps_keys CreateAccount_keeps_keys money_keeps_keys)

lemmas protected_keeps_keys = keeping.protected_handler_rel

end

subsection \<open>The idempotency contract on the protected routes\<close>

lemma protected_replayed:
  assumes "decimal_library X num" and W: "quiet W" and inv: "ledger_inv (sdb s)"
    and key: "tracking_key X r = Some (h, u)" and unused: "h \<notin> idk_ID ` set (idempotency_keys (sdb s))"
    and first: "IdempotencyMiddleware X W (protected_handler X W rt) r s = (x, s1)"
    and ok: "client_status x < 500"
    and key': "tracking_key X r' = Some (h, u)" and W': "rely W'" "fault W' (tick s2) = NoFault"
    and later: "db_steps (sdb s1) (sdb s2)"
  shows "\<exists>k. IdempotencyMiddleware X W' (protected_handler X W' rt') r' s2
           = (replay k, s2\<lparr>sdb := interfere W' (tick s2) (sdb s2), tick := Suc (tick s2)\<rparr>)
         \<and> client_status (replay k) = client_status x \<and> client_body (replay k) = client_body x"
proof -
  have api: "quiet_api W X num"
    by (intro quiet_api.intro quiet_api_axioms.intro assms(1) W)
  then have ledger: "ledger_api W X num"
    using assms(1) W
    by (intro ledger_api.intro environment.intro) (simp_all add: quiet_rely quiet_commit_reports)
  obtain calls t where run: "protected_handler X W rt r (s\<lparr>tick := Suc (tick s)\<rparr>) = (calls, t)" by force
  note ans = protected_answers [OF run]
  have miss: "stored_key (sdb s) (h, u) = None"
    using unused by (auto simp: stored_key_def find_None_iff)
  have x: "x = calls"
  proof -
    have "GetIdempotencyKey W Pool \<lparr>gik_ID = h, gik_UserID = u\<rparr> s = (Inl ErrNoRows, s\<lparr>tick := Suc (tick s)\<rparr>)"
      using W miss by (simp add: GetIdempotencyKey_def run_stmt_quiet getIdempotencyKey_def stored_key_def)
    with first run show ?thesis by (auto simp: middleware_tracked [OF key] Let_def split: if_splits)
  qed
  have inv1: "ledger_inv (sdb s1)"
    using ledger_api.IdempotencyMiddleware_guar [OF ledger _ first]
      ledger_api.protected_handler_guar [OF ledger] inv
    by (metis guar_def db_steps_inv)
  have inv2: "ledger_inv (sdb s2)" using later inv1 by (rule db_steps_inv)
  have unused': "h \<notin> idk_ID ` set (idempotency_keys (sdb t))"
    using quiet_api.protected_keeps_keys [OF api run] inv unused by (simp add: keeps_keys_def)
  have once: "sends_once False calls" and body: "client_body calls \<noteq> []"
    and "client_status calls \<in> {200, 201, 400, 401, 403, 404, 500}"
    using answers_client [OF ans] by simp_all
  then have code: "0 \<le> client_status calls" "client_status calls < 500" using ok x by auto
  from replayed [where next_handler = "protected_handler X W rt"
      and other_handler = "protected_handler X W' rt'",
      OF W key miss run once code body unused' first key' W' later inv2] x
  show ?thesis by simp
qed

end
