(* ===== verification/Frames.thy ===== *)
theory Frames
  imports Ledger_Refinement
begin

section \<open>What an operation depends on, and what it draws\<close>

text \<open>
  Two frame conditions, each closed under the sequencing of the code: an operation depends on
  the world only through the calls it makes, so that it runs in the same way in a world that
  differs elsewhere; and the identifiers of the entries it adds are among those it drew.
\<close>

subsection \<open>What an operation depends on\<close>

text \<open>The world answers the call number \<open>t\<close> in the same way.\<close>

definition same_call :: "world \<Rightarrow> world \<Rightarrow> nat \<Rightarrow> bool" where
  "same_call W W' t \<longleftrightarrow>
     fault W' t = fault W t \<and> fresh W' t = fresh W t \<and> now W' t = now W t
     \<and> interfere W' t = interfere W t \<and> cancelled W' t = cancelled W t"

text \<open>An operation depends on the world only through the calls it makes.\<close>

definition local_op :: "(world \<Rightarrow> 'a op) \<Rightarrow> bool" where
  "local_op F \<longleftrightarrow>
     (\<forall>W s. tick s \<le> tick (snd (F W s))
        \<and> (\<forall>W'. (\<forall>t. tick s \<le> t \<and> t < tick (snd (F W s)) \<longrightarrow> same_call W W' t) \<longrightarrow> F W' s = F W s))"

lemma local_opI:
  assumes "\<And>W s r s'. F W s = (r, s') \<Longrightarrow> tick s \<le> tick s'"
    and "\<And>W W' s r s'. F W s = (r, s') \<Longrightarrow> \<forall>t. tick s \<le> t \<and> t < tick s' \<longrightarrow> same_call W W' t \<Longrightarrow> F W' s = (r, s')"
  shows "local_op F"
  unfolding local_op_def using assms by (metis prod.collapse)

lemma local_tick: "local_op F \<Longrightarrow> F W s = (r, s') \<Longrightarrow> tick s \<le> tick s'"
  unfolding local_op_def by (metis snd_conv)

lemma local_same:
  "local_op F \<Longrightarrow> F W s = (r, s') \<Longrightarrow> \<forall>t. tick s \<le> t \<and> t < tick s' \<longrightarrow> same_call W W' t \<Longrightarrow> F W' s = (r, s')"
  unfolding local_op_def by (metis snd_conv)

lemma local_and_then:
  assumes F: "local_op F" and G: "\<And>x. local_op (\<lambda>W. G W x)"
  shows "local_op (\<lambda>W. and_then (F W) (G W))"
proof (rule local_opI)
  fix W s r s'
  assume run: "and_then (F W) (G W) s = (r, s')"
  obtain y s1 where first: "F W s = (y, s1)" by force
  note le = local_tick [OF F first]
  show "tick s \<le> tick s'"
  proof (cases y)
    case (Inr x)
    with run first have "G W x s1 = (r, s')" by simp
    from le local_tick [OF G this] show ?thesis by simp
  qed (use run first le in simp)
  fix W'
  assume same: "\<forall>t. tick s \<le> t \<and> t < tick s' \<longrightarrow> same_call W W' t"
  show "and_then (F W') (G W') s = (r, s')"
  proof (cases y)
    case (Inl e)
    with run first have "r = Inl e" "s' = s1" by auto
    with local_same [OF F first] same Inl show ?thesis by simp
  next
    case (Inr x)
    with run first have second: "G W x s1 = (r, s')" by simp
    have "F W' s = (y, s1)" using local_same [OF F first] same local_tick [OF G second] by simp
    moreover have "G W' x s1 = (r, s')" using local_same [OF G second] same le by simp
    ultimately show ?thesis using Inr by simp
  qed
qed

lemma local_wrap_err: "local_op F \<Longrightarrow> local_op (\<lambda>W. wrap_err pre (F W))"
proof (rule local_opI)
  fix W s r s'
  assume F: "local_op F" and run: "wrap_err pre (F W) s = (r, s')"
  then obtain y where first: "F W s = (y, s')" and r: "r = (case y of Inl e \<Rightarrow> Inl (Errorf pre e []) | Inr x \<Rightarrow> Inr x)"
    by (auto simp: wrap_err_def split: prod.splits sum.splits)
  from local_tick [OF F first] show "tick s \<le> tick s'" .
  fix W'
  assume "\<forall>t. tick s \<le> t \<and> t < tick s' \<longrightarrow> same_call W W' t"
  from local_same [OF F first this] show "wrap_err pre (F W') s = (r, s')"
    by (simp add: wrap_err_def r split: sum.split)
qed

lemma local_return: "local_op (\<lambda>W. return_ok x)" "local_op (\<lambda>W. return_err e)"
  by (rule local_opI; simp add: op_defs)+

lemma local_if: "local_op F \<Longrightarrow> local_op G \<Longrightarrow> local_op (\<lambda>W. if b then F W else G W)"
  by (cases b) simp_all

lemma local_option:
  "local_op F \<Longrightarrow> (\<And>x. local_op (\<lambda>W. G W x)) \<Longrightarrow> local_op (\<lambda>W. case v of None \<Rightarrow> F W | Some x \<Rightarrow> G W x)"
  by (cases v) simp_all

lemma local_uuid_New: "local_op uuid_New"
  by (rule local_opI) (auto simp: uuid_New_def same_call_def)

lemma run_stmt_tick: "run_stmt W q st s = (r, s') \<Longrightarrow> tick s' = Suc (tick s)"
  by (auto simp: run_stmt_def Let_def split: sum.splits fault.splits prod.splits)

lemma local_run_stmt: "local_op (\<lambda>W. run_stmt W q st)"
proof (rule local_opI)
  fix W s r s'
  assume run: "run_stmt W q st s = (r, s')"
  note tick = run_stmt_tick [OF run]
  show "tick s \<le> tick s'" by (simp add: tick)
  fix W'
  assume "\<forall>t. tick s \<le> t \<and> t < tick s' \<longrightarrow> same_call W W' t"
  then have same: "same_call W W' (tick s)" by (simp add: tick)
  then have "view W' q s = view W q s" "stmt_time W' s = stmt_time W s"
    by (auto simp: view_def stmt_time_def same_call_def split: DBTX.split option.split)
  with same run show "run_stmt W' q st s = (r, s')"
    by (auto simp: run_stmt_def Let_def same_call_def split: sum.splits prod.splits)
qed

lemmas local_intros = local_and_then local_wrap_err local_return local_if local_option local_uuid_New local_run_stmt

lemma local_deposit_tx: "local_op (\<lambda>W. deposit_tx X (in_tx W) accountID amount)"
  unfolding deposit_tx_run query_defs by (intro local_intros)

subsection \<open>Which identifiers an operation draws\<close>

definition draws :: "world \<Rightarrow> session \<Rightarrow> session \<Rightarrow> bool" where
  "draws W s s' \<longleftrightarrow> tick s \<le> tick s'
     \<and> ent_ID ` set (entries (sdb s')) \<subseteq> ent_ID ` set (entries (sdb s)) \<union> fresh W ` {tick s..<tick s'}"

interpretation drawing: session_rel "draws W" for W
proof
  show "draws W s s" for s by (simp add: draws_def)
  show "draws W s s2" if "draws W s s1" "draws W s1 s2" for s s1 s2
  proof -
    have "fresh W ` {tick s..<tick s1} \<union> fresh W ` {tick s1..<tick s2} \<subseteq> fresh W ` {tick s..<tick s2}"
      using that by (auto simp: draws_def)
    moreover have "C \<subseteq> B \<union> G \<Longrightarrow> B \<subseteq> A \<union> F \<Longrightarrow> F \<union> G \<subseteq> H \<Longrightarrow> C \<subseteq> A \<union> H" for A B C F G H :: "uuid set"
      by blast
    ultimately show ?thesis using that unfolding draws_def by (meson order.trans)
  qed
qed

lemma draws_run_stmt:
  assumes "\<And>u t d r d1. st u t d = Inr (r, d1) \<Longrightarrow> ent_ID ` set (entries d1) \<subseteq> insert u (ent_ID ` set (entries d))"
  shows "stays (draws W) (run_stmt W InTx st)"
proof (rule staysI)
  fix s r s'
  assume run: "run_stmt W InTx st s = (r, s')"
  have "ent_ID ` set (entries (sdb s')) \<subseteq> insert (fresh W (tick s)) (ent_ID ` set (entries (sdb s)))"
  proof (cases r)
    case (Inl e)
    with run_stmt_Inl(2) [of W InTx st s e s'] run assms show ?thesis by fastforce
  next
    case (Inr x)
    with run assms show ?thesis by (fastforce simp: run_stmt_Inr)
  qed
  with run_stmt_tick [OF run] show "draws W s s'" by (auto simp: draws_def)
qed

lemma draws_statements:
  "stays (draws W) (run_stmt W InTx (getAccountForUpdate i))"
  "stays (draws W) (run_stmt W InTx getSettlementAccountForUpdate)"
  "stays (draws W) (run_stmt W InTx (createEntry p))"
  "stays (draws W) (run_stmt W InTx (updateAccountBalance b))"
  "stays (draws W) (uuid_New W)"
proof -
  show "stays (draws W) (run_stmt W InTx (createEntry p))"
  proof (rule draws_run_stmt)
    fix u t d r d1
    assume run: "createEntry p u t d = Inr (r, d1)"
    from createEntry_Inr_numeric [OF run] obtain dr cr
      where "numeric_column (cep_Debit p) = Inr dr" "numeric_column (cep_Credit p) = Inr cr" by blast
    from createEntry_Inr [OF this] run
    show "ent_ID ` set (entries d1) \<subseteq> insert u (ent_ID ` set (entries d))" by auto
  qed
  show "stays (draws W) (run_stmt W InTx (updateAccountBalance b))"
    by (rule draws_run_stmt) (auto simp: updateAccountBalance_def split: option.splits sum.splits)
  show "stays (draws W) (uuid_New W)"
    by (rule staysI) (auto simp: uuid_New_def draws_def)
qed (rule draws_run_stmt, auto simp: getAccountForUpdate_Inr getSettlementAccountForUpdate_Inr)+

lemma deposit_tx_draws: "stays (draws W) (deposit_tx X (in_tx W) accountID amount)"
  unfolding deposit_tx_run query_defs by (intro drawing.stays_intros draws_statements)

lemma deposit_tx_ticks: "deposit_tx X (in_tx W) accountID amount s = (Inr u, s') \<Longrightarrow> tick s' = tick s + 7"
  unfolding deposit_tx_run query_defs
  by (auto simp: op_inversion uuid_New_Inr dest!: run_stmt_tick split: if_splits)

end
