(* ===== verification/Duplicates.thy ===== *)
theory Duplicates
  imports Api_Behaviour Frames
begin

section \<open>When a tracked request is executed twice\<close>

text \<open>
  The limits of the idempotency middleware, for a deposit: it reserves nothing before it runs
  the handler, and stores nothing after an answer of 500. So two requests with the same key
  that overlap are both executed, and so is the repetition of a request whose commit succeeded
  but whose answer was lost. Both are runs in worlds that differ from a quiet one in a single
  call, so that the frame lemmas carry the rest of the run over.
\<close>

subsection \<open>A tracked deposit\<close>

text \<open>A tracked request to deposit, of user \<open>u\<close> into account \<open>i\<close>, of an amount that rounds to \<open>n\<close>.\<close>

definition deposit_request :: "'d deps \<Rightarrow> ('d \<Rightarrow> rat) \<Rightarrow> request \<Rightarrow> string \<Rightarrow> uuid \<Rightarrow> uuid \<Rightarrow> int \<Rightarrow> bool" where
  "deposit_request X num r h u i n \<longleftrightarrow>
     tracking_key X r = Some (h, u) \<and> auth_user X r = Inr u \<and> uuid_Parse X (URLParam r ''id'') = Some i
     \<and> (\<exists>amountStr amount. decodeAmountFromBody X r = Inr amountStr
          \<and> NewFromString X amountStr = Some amount \<and> 0 < num amount \<and> round4 (num amount) = n)
     \<and> 0 < n"

text \<open>The account exists, is the user's, and both balances have room for \<open>n\<close>.\<close>

definition can_deposit :: "database \<Rightarrow> uuid \<Rightarrow> uuid \<Rightarrow> uuid \<Rightarrow> int \<Rightarrow> bool" where
  "can_deposit d sid i u n \<longleftrightarrow>
     ledger_inv d \<and> settlement_id d = Some sid
     \<and> (\<exists>a sb. account_of d i = Some a \<and> acc_OwnerID a = Some u \<and> acc_Balance a + n < numeric_limit
          \<and> balance_of d sid = Some sb \<and> - numeric_limit < sb - n)"

lemma can_deposit_less: "can_deposit d sid i u n \<Longrightarrow> m \<le> n \<Longrightarrow> can_deposit d sid i u m"
  unfolding can_deposit_def by force

lemma can_deposit_small:
  assumes "can_deposit d sid i u n"
  shows "n < numeric_limit"
proof -
  from assms obtain sb where d: "ledger_inv d" "settlement_id d = Some sid" "balance_of d sid = Some sb"
    "- numeric_limit < sb - n"
    unfolding can_deposit_def by blast
  from settlement_id_iff [OF d(1)] d(2) obtain st where "account_of d sid = Some st" "is_settlement st" by blast
  with settlement_not_positive [OF d(1)] d(3) have "sb \<le> 0"
    by (auto simp: balance_of_def dest: account_of_SomeD)
  with d(4) show ?thesis by linarith
qed

lemma can_deposit_after:
  assumes "can_deposit d sid i u (m + n)" and "0 \<le> m" and "0 \<le> n"
    and "posting opt sid i n d d'" and "db_step d d'"
  shows "can_deposit d' sid i u m"
proof -
  from assms(1) obtain a sb where d: "ledger_inv d" "settlement_id d = Some sid" "account_of d i = Some a"
    "acc_OwnerID a = Some u" "acc_Balance a + (m + n) < numeric_limit" "balance_of d sid = Some sb"
    "- numeric_limit < sb - (m + n)"
    unfolding can_deposit_def by blast
  have "settlement_id d' = Some sid" using db_step_settlement_id [OF assms(5)] d(2) by simp
  moreover have "account_of d' i = Some (a\<lparr>acc_Balance := acc_Balance a + posting_delta sid i n i\<rparr>)"
    using account_of_posting [OF assms(4)] d(3) by simp
  moreover have "balance_of d' sid = Some (sb + posting_delta sid i n sid)"
    using posting_balance_of [OF assms(4)] d(6) by simp
  moreover have "ledger_inv d'" by (rule db_step_inv [OF assms(5) d(1)])
  ultimately show ?thesis
    using d(4,5,7) assms(2,3) unfolding can_deposit_def by (auto simp: posting_delta_def)
qed

lemma create_key_tables:
  assumes "CreateIdempotencyKey W Pool p s = (x, s')"
  shows "sdb s' = (interfere W (tick s) (sdb s))\<lparr>idempotency_keys := idempotency_keys (sdb s')\<rparr>"
  using assms
  by (auto simp: CreateIdempotencyKey_def run_stmt_def createIdempotencyKey_def Let_def
      split: sum.splits fault.splits option.splits if_splits)

context decimal_library
begin

text \<open>
  The deposit of one attempt in a world \<open>V\<close> that answers its statements as the quiet world \<open>W\<close>
  does: eight calls, from \<open>BEGIN\<close> on, and the commit is the ninth.
\<close>

lemma deposit_attempt:
  assumes W: "quiet W" and same: "\<forall>t. tick s \<le> t \<and> t < tick s + 8 \<longrightarrow> same_call W V t"
    and can: "can_deposit (sdb s) sid i u n" and fresh: "fresh_entries W (tick s) 8 (sdb s)"
    and n: "round4 (num amount) = n" "0 < n"
  shows "\<exists>s2. deposit_tx X (in_tx V) i amount (begin_tx V s) = (Inr (), s2) \<and> tick s2 = tick s + 8
    \<and> posting ''deposit'' sid i n (sdb s) (sdb s2) \<and> db_step (sdb s) (sdb s2)
    \<and> ent_ID ` set (entries (sdb s2)) \<subseteq> ent_ID ` set (entries (sdb s)) \<union> fresh W ` {tick s..<tick s + 8}"
proof -
  from can obtain a sb where d: "ledger_inv (sdb s)" "settlement_id (sdb s) = Some sid"
    "account_of (sdb s) i = Some a" "acc_Balance a + n < numeric_limit" "balance_of (sdb s) sid = Some sb"
    "- numeric_limit < sb - n"
    unfolding can_deposit_def by blast
  obtain s2 where run: "deposit_tx X (in_tx W) i amount (begin_tx W s) = (Inr (), s2)"
    and post: "posting ''deposit'' sid i n (sdb s) (sdb s2)" "db_step (sdb s) (sdb s2)"
    using deposit_tx_effect [OF W d(1) fresh d(3,2) n can_deposit_small [OF can] d(4-6)] by blast
  from deposit_tx_ticks [OF run] have tick: "tick s2 = tick s + 8" by simp
  have "draws W (begin_tx W s) s2" by (rule staysD [OF deposit_tx_draws run])
  then have "ent_ID ` set (entries (sdb s2)) \<subseteq> ent_ID ` set (entries (sdb s)) \<union> fresh W ` {Suc (tick s)..<tick s + 8}"
    by (simp add: draws_def tick)
  moreover have "fresh W ` {Suc (tick s)..<tick s + 8} \<subseteq> fresh W ` {tick s..<tick s + 8}" by auto
  ultimately have ids: "ent_ID ` set (entries (sdb s2)) \<subseteq> ent_ID ` set (entries (sdb s)) \<union> fresh W ` {tick s..<tick s + 8}"
    by (meson Un_mono order.trans subset_refl)
  have "begin_tx V s = begin_tx W s" using same by (simp add: begin_tx_def same_call_def)
  moreover have "deposit_tx X (in_tx V) i amount (begin_tx W s) = (Inr (), s2)"
    by (rule local_same [OF local_deposit_tx run]) (use same tick in simp)
  ultimately show ?thesis using tick post ids by metis
qed

end

text \<open>
  The whole tracked request, in a world \<open>V\<close> whose look-up finds nothing, whose next call sees the
  tables \<open>d\<close>, and which then answers as the quiet world \<open>W\<close> does until the commit, call number 10.
\<close>

definition deposit_done :: "wr_call list" where
  "deposit_done = respondJSON 200 (message_json ''deposit successful'')"

definition commit_lost :: "string \<Rightarrow> wr_call list" where
  "commit_lost msg = respondError 500 (error_text (Errorf ''commit failed: '' (DriverError msg) []))"

text \<open>What changed, the idempotency table aside.\<close>

definition moved_money :: "uuid \<Rightarrow> uuid \<Rightarrow> int \<Rightarrow> database \<Rightarrow> database \<Rightarrow> bool" where
  "moved_money src dst n d d' \<longleftrightarrow> moved src dst n d (d'\<lparr>idempotency_keys := idempotency_keys d\<rparr>)"

lemma moved_money_posting:
  assumes "posting opt src dst n d d1" and "d' = d1\<lparr>idempotency_keys := ks\<rparr>"
  shows "moved_money src dst n d d'"
proof -
  have "d1\<lparr>idempotency_keys := idempotency_keys d\<rparr> = d1" using posting_frame(2) [OF assms(1)] by simp
  then show ?thesis using posting_moved [OF assms(1)] by (simp add: moved_money_def assms(2))
qed

lemma fresh_entries_later:
  assumes "fresh_entries W n (k + m) d"
    and "ent_ID ` set (entries d') \<subseteq> ent_ID ` set (entries d) \<union> fresh W ` {n..<n + k}"
  shows "fresh_entries W (n + k) m d'"
proof -
  have inj: "inj_on (fresh W) {n..<n + (k + m)}" and new: "\<forall>t \<in> {n..<n + (k + m)}. fresh W t \<notin> ent_ID ` set (entries d)"
    using assms(1) by (auto simp: fresh_entries_def)
  have "fresh W t \<notin> ent_ID ` set (entries d')" if t: "t \<in> {n + k..<n + k + m}" for t
  proof
    assume "fresh W t \<in> ent_ID ` set (entries d')"
    with assms(2) new t obtain t' where "t' \<in> {n..<n + k}" "fresh W t = fresh W t'" by force
    with inj_onD [OF inj, of t t'] t show False by auto
  qed
  moreover have "inj_on (fresh W) {n + k..<n + k + m}"
    by (rule inj_on_subset [OF inj]) auto
  ultimately show ?thesis by (simp add: fresh_entries_def)
qed

lemma fresh_entries_part: "fresh_entries W n k d \<Longrightarrow> n \<le> n' \<Longrightarrow> n' + k' \<le> n + k \<Longrightarrow> fresh_entries W n' k' d"
  unfolding fresh_entries_def by (auto intro: inj_on_subset)

lemma fresh_entries_disjoint:
  assumes "fresh_entries W n k d" and "ent_ID ` set (entries d') \<subseteq> ent_ID ` set (entries d) \<union> B"
    and "fresh W ` {n..<n + k} \<inter> B = {}"
  shows "fresh_entries W n k d'"
proof -
  have "fresh W t \<notin> ent_ID ` set (entries d')" if t: "t \<in> {n..<n + k}" for t
  proof
    assume "fresh W t \<in> ent_ID ` set (entries d')"
    moreover have "fresh W t \<notin> ent_ID ` set (entries d)" using assms(1) t by (simp add: fresh_entries_def)
    moreover have "fresh W t \<notin> B" using assms(3) t by blast
    ultimately show False using assms(2) by blast
  qed
  with assms(1) show ?thesis by (simp add: fresh_entries_def)
qed

lemma can_deposit_accounts:
  "can_deposit d sid i u n \<Longrightarrow> accounts d' = accounts d \<Longrightarrow> ledger_inv d' \<Longrightarrow> can_deposit d' sid i u n"
  by (simp add: can_deposit_def settlement_id_def account_of_def balance_of_def)

context decimal_library
begin

lemma tracked_deposit:
  assumes W: "quiet W" and req: "deposit_request X num r h u i n"
    and miss: "fault V (tick s) = NoFault" "interfere V (tick s) (sdb s) = sdb s"
      "h \<notin> idk_ID ` set (idempotency_keys (sdb s))"
    and load: "fault V (Suc (tick s)) = NoFault" "interfere V (Suc (tick s)) (sdb s) = d"
    and same: "\<forall>t. tick s + 2 \<le> t \<and> t < tick s + 10 \<longrightarrow> same_call W V t"
    and can: "can_deposit d sid i u n" and fresh: "fresh_entries W (tick s + 2) 8 d"
  shows "\<exists>s2. tick s2 = tick s + 10 \<and> posting ''deposit'' sid i n d (sdb s2) \<and> db_step d (sdb s2)
    \<and> ent_ID ` set (entries (sdb s2)) \<subseteq> ent_ID ` set (entries d) \<union> fresh W ` {tick s + 2..<tick s + 10}
    \<and> (fault V (tick s + 10) = NoFault \<longrightarrow>
         IdempotencyMiddleware X V (protected_handler X V PostDeposit) r s
         = (deposit_done, snd (CreateIdempotencyKey V Pool
              \<lparr>cik_ID = h, cik_UserID = u, cik_ResponseCode = 200, cik_ResponseBody = Some (client_body deposit_done)\<rparr>
              (end_tx (sdb s2) s2))))
    \<and> (fault V (tick s + 10) = LostReply (DriverError msg) \<longrightarrow>
         IdempotencyMiddleware X V (protected_handler X V PostDeposit) r s
         = (commit_lost msg, end_tx (sdb s2) s2))"
proof -
  from req obtain amountStr amount where r: "tracking_key X r = Some (h, u)" "auth_user X r = Inr u"
    "uuid_Parse X (URLParam r ''id'') = Some i" "decodeAmountFromBody X r = Inr amountStr"
    and amt: "NewFromString X amountStr = Some amount" "0 < num amount" and n: "round4 (num amount) = n" "0 < n"
    unfolding deposit_request_def by blast
  from can obtain a where a: "account_of d i = Some a" "acc_OwnerID a = Some u"
    unfolding can_deposit_def by blast
  let ?s1 = "s\<lparr>tick := Suc (tick s)\<rparr>"
  have get: "GetIdempotencyKey V Pool \<lparr>gik_ID = h, gik_UserID = u\<rparr> s = (Inl ErrNoRows, ?s1)"
  proof -
    have "find (\<lambda>k. idk_ID k = h \<and> idk_UserID k = u) (idempotency_keys (sdb s)) = None"
      using miss(3) by (auto simp: find_None_iff)
    then show ?thesis using miss(1,2) by (simp add: GetIdempotencyKey_def run_stmt_def getIdempotencyKey_def Let_def)
  qed
  let ?s2 = "s\<lparr>sdb := d, tick := tick s + 2\<rparr>"
  have load: "load_own_account V nf u i ?s1 = (Inr (scan_account a), ?s2)" for nf
    using load_ownerless [of V ?s1 i a u nf] load a by simp
  obtain s2 where run: "deposit_tx X (in_tx V) i amount (begin_tx V ?s2) = (Inr (), s2)" and tick: "tick s2 = tick s + 10"
    and post: "posting ''deposit'' sid i n d (sdb s2)" "db_step d (sdb s2)"
      "ent_ID ` set (entries (sdb s2)) \<subseteq> ent_ID ` set (entries d) \<union> fresh W ` {tick s + 2..<tick s + 10}"
    using deposit_attempt [OF W, of ?s2 V sid i u n amount] same can fresh n by (auto simp: add.commute [of 10])
  have "same_call W V (tick s + 2)" using same by simp
  then have start: "fault V (tick ?s2) = NoFault" "interfere V (tick ?s2) (sdb ?s2) = sdb ?s2"
    using W by (simp_all add: same_call_def)
  note handler = protected_handler_def Handler_Deposit_def r(2-4) load Deposit_runs [OF amt]
  have ok: "protected_handler X V PostDeposit r ?s1 = (deposit_done, end_tx (sdb s2) s2)"
    if "fault V (tick s + 10) = NoFault"
    using ExecTx_first_Inr [where fn = "deposit_tx X (in_tx V) i amount", OF start run] that
    by (simp add: handler tick deposit_done_def)
  have lost: "protected_handler X V PostDeposit r ?s1 = (commit_lost msg, end_tx (sdb s2) s2)"
    if "fault V (tick s + 10) = LostReply (DriverError msg)"
    using ExecTx_lost_commit [where fn = "deposit_tx X (in_tx V) i amount", OF start run, of "DriverError msg"] that
    by (simp add: handler tick commit_lost_def deposit_code_def isSerializationError_def)
  have once: "sends_once False deposit_done" "sends_once False (commit_lost msg)"
    by (simp_all add: deposit_done_def commit_lost_def respondError_def respondJSON_def)
  have body: "client_body deposit_done \<noteq> []" by (simp add: deposit_done_def)
  have code: "client_status deposit_done = 200" "client_status (commit_lost msg) = 500"
    by (simp_all add: deposit_done_def commit_lost_def)
  note middleware = middleware_tracked [OF r(1)] get icpt_status [OF once(1)] icpt_status [OF once(2)] code
    icpt_client_body buffer_bytes_def body
  show ?thesis
    using tick post ok lost by (intro exI [of _ s2]) (simp add: middleware Let_def)
qed

text \<open>In a quiet world it is done, and leaves room for \<open>m\<close> more if there was room for both.\<close>

lemma tracked_deposit_quiet:
  assumes W: "quiet W" and req: "deposit_request X num r h u i n"
    and can: "can_deposit (sdb s) sid i u (m + n)" "0 \<le> m"
    and unused: "h \<notin> idk_ID ` set (idempotency_keys (sdb s))"
    and fresh: "fresh_entries W (tick s + 2) 8 (sdb s)"
  shows "\<exists>t. IdempotencyMiddleware X W (protected_handler X W PostDeposit) r s = (deposit_done, t)
    \<and> moved_money sid i n (sdb s) (sdb t) \<and> can_deposit (sdb t) sid i u m
    \<and> ent_ID ` set (entries (sdb t)) \<subseteq> ent_ID ` set (entries (sdb s)) \<union> fresh W ` {tick s + 2..<tick s + 10}"
proof -
  have n: "0 < n" using req by (simp add: deposit_request_def)
  have can1: "can_deposit (sdb s) sid i u n" by (rule can_deposit_less [OF can(1)]) (use can(2) in simp)
  have quiet: "fault W k = NoFault" "interfere W k d = d" "\<forall>k. same_call W W k" for k d
    using W by (simp_all add: same_call_def)
  obtain t1 where t1: "posting ''deposit'' sid i n (sdb s) (sdb t1)" "db_step (sdb s) (sdb t1)"
    and ids: "ent_ID ` set (entries (sdb t1)) \<subseteq> ent_ID ` set (entries (sdb s)) \<union> fresh W ` {tick s + 2..<tick s + 10}"
    and run: "IdempotencyMiddleware X W (protected_handler X W PostDeposit) r s
      = (deposit_done, snd (CreateIdempotencyKey W Pool
              \<lparr>cik_ID = h, cik_UserID = u, cik_ResponseCode = 200, cik_ResponseBody = Some (client_body deposit_done)\<rparr>
              (end_tx (sdb t1) t1)))"
    using tracked_deposit [OF W req quiet(1,2) unused quiet(1,2) _ can1 fresh] quiet by blast
  obtain x t where key: "CreateIdempotencyKey W Pool
              \<lparr>cik_ID = h, cik_UserID = u, cik_ResponseCode = 200, cik_ResponseBody = Some (client_body deposit_done)\<rparr>
              (end_tx (sdb t1) t1) = (x, t)" by force
  from create_key_tables [OF key] have t: "sdb t = (sdb t1)\<lparr>idempotency_keys := idempotency_keys (sdb t)\<rparr>"
    by (simp add: quiet)
  have rows: "accounts (sdb t) = accounts (sdb t1)" "entries (sdb t) = entries (sdb t1)" by (subst t, simp)+
  have api: "ledger_api W X num"
    using W by (intro ledger_api.intro environment.intro decimal_library_axioms) (simp_all add: quiet_rely quiet_commit_reports)
  have "guar s t"
    using ledger_api.IdempotencyMiddleware_guar [OF api ledger_api.protected_handler_guar [OF api]] run key by simp
  then have inv: "ledger_inv (sdb t)" using can(1) by (auto simp: guar_def can_deposit_def intro: db_steps_inv)
  have "can_deposit (sdb t1) sid i u m" using can_deposit_after [OF can _ t1] n by simp
  then have "can_deposit (sdb t) sid i u m" using rows(1) inv by (rule can_deposit_accounts)
  with run key ids rows moved_money_posting [OF t1(1) t] show ?thesis by auto
qed

end

subsection \<open>The answer to a commit is lost\<close>

text \<open>The world \<open>W\<close>, where the answer to call number \<open>k\<close> does not arrive.\<close>

definition lose_reply :: "world \<Rightarrow> nat \<Rightarrow> string \<Rightarrow> world" where
  "lose_reply W k msg = W\<lparr>fault := (fault W)(k := LostReply (DriverError msg))\<rparr>"

context decimal_library
begin

lemma lost_reply_twice:
  assumes W: "quiet W" and req: "deposit_request X num r h u i n"
    and can: "can_deposit (sdb s) sid i u (n + n)" and unused: "h \<notin> idk_ID ` set (idempotency_keys (sdb s))"
    and fresh: "fresh_entries W (tick s) 24 (sdb s)"
    and V: "V = lose_reply W (tick s + 10) msg"
  shows "\<exists>s1 s2. IdempotencyMiddleware X V (protected_handler X V PostDeposit) r s = (commit_lost msg, s1)
    \<and> IdempotencyMiddleware X W (protected_handler X W PostDeposit) r s1 = (deposit_done, s2)
    \<and> moved_money sid i n (sdb s) (sdb s1) \<and> moved_money sid i n (sdb s1) (sdb s2)"
proof -
  have n: "0 < n" using req by (simp add: deposit_request_def)
  have can1: "can_deposit (sdb s) sid i u n" by (rule can_deposit_less [OF can]) (use n in simp)
  have V_calls: "fault V (tick s) = NoFault" "interfere V t (sdb s) = sdb s" "fault V (Suc (tick s)) = NoFault"
    "fault V (tick s + 10) = LostReply (DriverError msg)" for t
    using W by (simp_all add: V lose_reply_def)
  have same: "\<forall>t. tick s + 2 \<le> t \<and> t < tick s + 10 \<longrightarrow> same_call W V t"
    by (auto simp: same_call_def V lose_reply_def)
  obtain t1 where t1: "tick t1 = tick s + 10" "posting ''deposit'' sid i n (sdb s) (sdb t1)"
    "db_step (sdb s) (sdb t1)"
    "ent_ID ` set (entries (sdb t1)) \<subseteq> ent_ID ` set (entries (sdb s)) \<union> fresh W ` {tick s + 2..<tick s + 10}"
    and run1: "IdempotencyMiddleware X V (protected_handler X V PostDeposit) r s = (commit_lost msg, end_tx (sdb t1) t1)"
    using tracked_deposit [OF W req V_calls(1,2) unused V_calls(3,2) same can1
        fresh_entries_part [OF fresh], of msg] V_calls(4) by auto
  let ?s1 = "end_tx (sdb t1) t1"
  have can2: "can_deposit (sdb t1) sid i u n"
    using can_deposit_after [OF can _ _ t1(2,3)] n by simp
  have unused2: "h \<notin> idk_ID ` set (idempotency_keys (sdb ?s1))"
    using unused posting_frame(2) [OF t1(2)] by simp
  have fresh2: "fresh_entries W (tick ?s1 + 2) 8 (sdb t1)"
  proof -
    have "fresh_entries W (tick s + 2) (8 + 14) (sdb s)" by (rule fresh_entries_part [OF fresh]) auto
    from fresh_entries_later [OF this] t1(4) have "fresh_entries W (tick s + 2 + 8) 14 (sdb t1)"
      by (simp add: algebra_simps)
    from fresh_entries_part [OF this] show ?thesis by (simp add: t1(1))
  qed
  have "can_deposit (sdb ?s1) sid i u (0 + n)" using can2 by simp
  from tracked_deposit_quiet [OF W req this _ unused2] fresh2 obtain s2
    where "IdempotencyMiddleware X W (protected_handler X W PostDeposit) r ?s1 = (deposit_done, s2)"
      and "moved_money sid i n (sdb ?s1) (sdb s2)" by auto
  moreover have "moved_money sid i n (sdb s) (sdb ?s1)" by (rule moved_money_posting [OF t1(2), of _ "idempotency_keys (sdb t1)"]) simp
  ultimately show ?thesis using run1 by blast
qed

end

subsection \<open>Two requests with the same key at once\<close>

text \<open>
  The world \<open>W\<close>, where another server handles the request \<open>r\<close> on the same database just before
  call number \<open>k\<close>; what that server's calls meet is the world \<open>V\<close>.
\<close>

definition overtaken :: "'d deps \<Rightarrow> world \<Rightarrow> nat \<Rightarrow> request \<Rightarrow> world \<Rightarrow> world" where
  "overtaken X W k r V =
     W\<lparr>interfere := (interfere W)(k := \<lambda>d.
          sdb (snd (IdempotencyMiddleware X V (protected_handler X V PostDeposit) r (fresh_session d))))\<rparr>"

context decimal_library
begin

lemma overtaken_twice:
  assumes W: "quiet W" and V: "quiet V" and req: "deposit_request X num r h u i n"
    and can: "can_deposit (sdb s) sid i u (n + n)" and unused: "h \<notin> idk_ID ` set (idempotency_keys (sdb s))"
    and fresh: "fresh_entries W (tick s) 10 (sdb s)" "fresh_entries V 0 10 (sdb s)"
      "fresh W ` {tick s..<tick s + 10} \<inter> fresh V ` {0..<10} = {}"
    and W': "W' = overtaken X W (Suc (tick s)) r V"
  shows "\<exists>t s'. IdempotencyMiddleware X V (protected_handler X V PostDeposit) r (fresh_session (sdb s)) = (deposit_done, t)
    \<and> IdempotencyMiddleware X W' (protected_handler X W' PostDeposit) r s = (deposit_done, s')
    \<and> moved_money sid i n (sdb s) (sdb t) \<and> moved_money sid i n (sdb t) (sdb s')"
proof -
  have n: "0 \<le> n" using req by (simp add: deposit_request_def)
  obtain t where run1: "IdempotencyMiddleware X V (protected_handler X V PostDeposit) r (fresh_session (sdb s)) = (deposit_done, t)"
    and first: "moved_money sid i n (sdb s) (sdb t)" and can_t: "can_deposit (sdb t) sid i u n"
    and ids: "ent_ID ` set (entries (sdb t)) \<subseteq> ent_ID ` set (entries (sdb s)) \<union> fresh V ` {2..<10}"
    using tracked_deposit_quiet [OF V req, of "fresh_session (sdb s)" sid n] can n unused
      fresh_entries_part [OF fresh(2), of 2 8] by (auto simp: fresh_session_def numeral_2_eq_2)
  have fresh_t: "fresh_entries W (tick s + 2) 8 (sdb t)"
  proof (rule fresh_entries_disjoint [OF _ ids])
    show "fresh_entries W (tick s + 2) 8 (sdb s)" by (rule fresh_entries_part [OF fresh(1)]) auto
    have "fresh W ` {tick s + 2..<tick s + 2 + 8} \<subseteq> fresh W ` {tick s..<tick s + 10}"
      and "fresh V ` {2..<10} \<subseteq> fresh V ` {0..<10}" by (auto intro!: image_mono)
    with fresh(3) show "fresh W ` {tick s + 2..<tick s + 2 + 8} \<inter> fresh V ` {2..<10} = {}" by blast
  qed
  have W'_calls: "fault W' k = NoFault" "interfere W' (Suc (tick s)) (sdb s) = sdb t"
    "k \<noteq> Suc (tick s) \<Longrightarrow> interfere W' k d = d" for k d
    using W run1 by (simp_all add: W' overtaken_def)
  have same: "\<forall>k. tick s + 2 \<le> k \<and> k < tick s + 10 \<longrightarrow> same_call W W' k"
    by (auto simp: same_call_def W' overtaken_def)
  obtain t2 where t2: "tick t2 = tick s + 10" "posting ''deposit'' sid i n (sdb t) (sdb t2)"
    and run2: "IdempotencyMiddleware X W' (protected_handler X W' PostDeposit) r s
      = (deposit_done, snd (CreateIdempotencyKey W' Pool
              \<lparr>cik_ID = h, cik_UserID = u, cik_ResponseCode = 200, cik_ResponseBody = Some (client_body deposit_done)\<rparr>
              (end_tx (sdb t2) t2)))"
    using tracked_deposit [OF W req W'_calls(1) W'_calls(3) unused W'_calls(1,2) same can_t fresh_t] W'_calls(1)
    by auto
  obtain y s' where key2: "CreateIdempotencyKey W' Pool
              \<lparr>cik_ID = h, cik_UserID = u, cik_ResponseCode = 200, cik_ResponseBody = Some (client_body deposit_done)\<rparr>
              (end_tx (sdb t2) t2) = (y, s')" by force
  from create_key_tables [OF key2] have "sdb s' = (sdb t2)\<lparr>idempotency_keys := idempotency_keys (sdb s')\<rparr>"
    by (simp add: W'_calls(3) t2(1))
  then have "moved_money sid i n (sdb t) (sdb s')" by (rule moved_money_posting [OF t2(2)])
  with first run1 run2 key2 show ?thesis by auto
qed

end

end
