(* ===== verification/Lock_Victims.thy ===== *)
theory Lock_Victims
  imports Locks Duplicates
begin

section \<open>What becomes of the victim of a deadlock\<close>

text \<open>
  The database ends a deadlock by failing one of the waiting statements with SQLSTATE 40P01.
  \<open>ExecTx\<close> only retries 40001, the handler answers every error of a transfer with 400, and the
  idempotency middleware stores every answer below 500. Here these three are put together.
\<close>

subsection \<open>The request\<close>

definition from_text :: "TransferRequest \<Rightarrow> string" where
  "from_text input =
     (if TrimSpace (trr_FromID input) = [] then TrimSpace (trr_FromAccountID input) else TrimSpace (trr_FromID input))"

definition to_text :: "TransferRequest \<Rightarrow> string" where
  "to_text input =
     (if TrimSpace (trr_ToID input) = [] then TrimSpace (trr_ToAccountID input) else TrimSpace (trr_ToID input))"

text \<open>A tracked request of user \<open>u\<close> to transfer a valid amount between two different accounts.\<close>

definition transfer_request :: "'d deps \<Rightarrow> request \<Rightarrow> string \<Rightarrow> uuid \<Rightarrow> uuid \<Rightarrow> uuid \<Rightarrow> bool" where
  "transfer_request X r h u fromID toID \<longleftrightarrow>
     tracking_key X r = Some (h, u) \<and> auth_user X r = Inr u \<and> fromID \<noteq> toID
     \<and> (\<exists>input amountStr amount. decode_transfer r = (True, input)
          \<and> from_text input \<noteq> [] \<and> uuid_Parse X (from_text input) = Some fromID
          \<and> to_text input \<noteq> [] \<and> uuid_Parse X (to_text input) = Some toID
          \<and> normalizeAmountInput X (trr_Amount input) = Inr amountStr
          \<and> validatePositiveAmount X amountStr = Inr amount)"

lemma Handler_Transfer_request:
  assumes "transfer_request X r h u fromID toID"
    and load: "load_own_account V ''from account not found'' u fromID s = (Inr acc, s1)"
  shows "\<exists>amount. Handler_Transfer X V r s =
     (case ExecTx V (transfer_tx X (in_tx V) fromID toID amount) s1 of
        (Inl err, s2) \<Rightarrow> (respondError 400 (error_text err), s2)
      | (Inr _, s2) \<Rightarrow> (respondJSON 200 (message_json ''transfer successful''), s2))"
proof -
  from assms(1) obtain input amountStr amount where r: "auth_user X r = Inr u" "decode_transfer r = (True, input)"
    and ids: "from_text input \<noteq> []" "uuid_Parse X (from_text input) = Some fromID"
      "to_text input \<noteq> []" "uuid_Parse X (to_text input) = Some toID" "fromID \<noteq> toID"
    and amt: "normalizeAmountInput X (trr_Amount input) = Inr amountStr" "validatePositiveAmount X amountStr = Inr amount"
    unfolding transfer_request_def by blast
  show ?thesis
    unfolding Handler_Transfer_def r sum.case prod.case Let_def from_text_def [symmetric] to_text_def [symmetric]
    by (intro exI [of _ amount]) (simp add: ids amt load Transfer_def)
qed

subsection \<open>One attempt\<close>

lemma ExecTx_fails_once:
  assumes "fault W (tick s) = NoFault" and "interfere W (tick s) (sdb s) = sdb s"
    and "fn (begin_tx W s) = (Inl e, s2)" and "fault W (tick s2) = NoFault" and "\<not> isSerializationError e"
  shows "ExecTx W fn s = (Inl e, end_tx (sdb s) s2)"
proof -
  have "execTxOnce W fn s = (Inl e, end_tx (sdb s) s2)"
    using assms by (simp add: execTxOnce_def Let_def begin_tx_def end_tx_def)
  from ExecTx_failed [OF conflicts_0 _ this assms(5)] show ?thesis by (simp add: maxAttempts_def)
qed

text \<open>The world \<open>W\<close>, where call number \<open>k\<close> is chosen as the victim.\<close>

definition victim_at :: "world \<Rightarrow> nat \<Rightarrow> string \<Rightarrow> world" where
  "victim_at W k msg = W\<lparr>fault := (fault W)(k := Fail (PqError ''40P01'' msg))\<rparr>"

lemma not_retried: "\<not> isSerializationError (PqError ''40P01'' msg)"
  by (simp add: isSerializationError_def)

lemma transfer_victim:
  assumes W: "quiet W" and V: "V = victim_at W (tick s + 2) msg"
    and a: "account_of (sdb s) fromID = Some a"
  shows "\<exists>s2. ExecTx V (transfer_tx X (in_tx V) fromID toID amount) s = (Inl (PqError ''40P01'' msg), s2)
    \<and> sdb s2 = sdb s \<and> tick s2 = tick s + 4"
proof -
  have V_calls: "fault V t = (if t = tick s + 2 then Fail (PqError ''40P01'' msg) else NoFault)" "interfere V t d = d" for t d
    using W by (simp_all add: V victim_at_def)
  let ?s1 = "begin_tx V s" and ?s2 = "(begin_tx V s)\<lparr>tick := tick s + 2\<rparr>"
  have first: "GetAccountForUpdate V InTx fromID ?s1 = (Inr (scan_account a), ?s2)"
    using a V_calls by (simp add: GetAccountForUpdate_def run_stmt_Inr getAccountForUpdate_Inr account_of_def)
  have second: "GetAccountForUpdate V InTx toID ?s2 = (Inl (PqError ''40P01'' msg), ?s2\<lparr>tick := tick s + 3\<rparr>)"
    using V_calls
    by (auto simp: GetAccountForUpdate_def run_stmt_def getAccountForUpdate_def Let_def split: option.split)
  have "transfer_tx X (in_tx V) fromID toID amount ?s1 = (Inl (PqError ''40P01'' msg), ?s2\<lparr>tick := tick s + 3\<rparr>)"
    by (simp only: transfer_tx_run and_then_def first second prod.case sum.case)
  from ExecTx_fails_once [where fn = "transfer_tx X (in_tx V) fromID toID amount", OF _ _ this _ not_retried] V_calls
  show ?thesis by simp
qed

subsection \<open>The stored refusal\<close>

lemma victim_stored:
  assumes W: "quiet W" and V: "V = victim_at W (tick s + 4) msg"
    and req: "transfer_request X r h u fromID toID"
    and a: "account_of (sdb s) fromID = Some a" "acc_OwnerID a = Some u"
    and unused: "h \<notin> idk_ID ` set (idempotency_keys (sdb s))"
    and run: "IdempotencyMiddleware X V (protected_handler X V PostTransfers) r s = (x, s1)"
  shows "x = respondError 400 msg
    \<and> (\<exists>k. sdb s1 = (sdb s)\<lparr>idempotency_keys := idempotency_keys (sdb s) @ [k]\<rparr> \<and> stored_key (sdb s1) (h, u) = Some k
         \<and> client_status (replay k) = 400 \<and> client_body (replay k) = client_body x)"
proof -
  have calm: "calm_at V t" if "t \<noteq> tick s + 4" for t
    using W that by (simp add: V victim_at_def calm_at_def)
  have key: "tracking_key X r = Some (h, u)" using req by (simp add: transfer_request_def)
  have miss: "stored_key (sdb s) (h, u) = None" using unused by (auto simp: stored_key_def find_None_iff)
  let ?s1 = "s\<lparr>tick := Suc (tick s)\<rparr>" and ?s2 = "s\<lparr>tick := tick s + 2\<rparr>"
  have load: "load_own_account V ''from account not found'' u fromID ?s1 = (Inr (scan_account a), ?s2)"
    using load_ownerless [of V ?s1 fromID a u] calm [of "Suc (tick s)"] a by (simp add: calm_at_def)
  from Handler_Transfer_request [OF req load] obtain amount where handler: "Handler_Transfer X V r ?s1 =
     (case ExecTx V (transfer_tx X (in_tx V) fromID toID amount) ?s2 of
        (Inl err, s2) \<Rightarrow> (respondError 400 (error_text err), s2)
      | (Inr _, s2) \<Rightarrow> (respondJSON 200 (message_json ''transfer successful''), s2))" by blast
  have V2: "V = victim_at W (tick ?s2 + 2) msg" by (simp add: V eval_nat_numeral)
  obtain s2 where tx: "ExecTx V (transfer_tx X (in_tx V) fromID toID amount) ?s2 = (Inl (PqError ''40P01'' msg), s2)"
    and s2: "sdb s2 = sdb s" "tick s2 = tick s + 6"
    using transfer_victim [OF W V2, where fromID = fromID and toID = toID and amount = amount and X = X and a = a] a(1) by auto
  have ran: "protected_handler X V PostTransfers r ?s1 = (respondError 400 msg, s2)"
    by (simp only: protected_handler_def route.case handler tx prod.case sum.case error_text.simps)
  have ans: "sends_once False (respondError 400 msg)" "client_body (respondError 400 msg) \<noteq> []"
    "client_status (respondError 400 msg) = 400"
    using answers_client [of "{400}" "respondError 400 msg"] by simp_all
  obtain t where m: "IdempotencyMiddleware X V (protected_handler X V PostTransfers) r s =
     (respondError 400 msg, s2\<lparr>sdb := (sdb s2)\<lparr>idempotency_keys := idempotency_keys (sdb s2) @
        [\<lparr>idk_ID = h, idk_UserID = u, idk_ResponseCode = word_of_int (client_status (respondError 400 msg)),
          idk_ResponseBody = client_body (respondError 400 msg), idk_CreatedAt = t\<rparr>]\<rparr>, tick := Suc (tick s2)\<rparr>)"
    using middleware_first [where next_handler = "protected_handler X V PostTransfers",
        OF calm [of "tick s"] calm [of "tick s2"] key miss ran ans(1) _ ans(2)] ans(3) unused s2 by auto
  let ?k = "\<lparr>idk_ID = h, idk_UserID = u, idk_ResponseCode = word_of_int (client_status (respondError 400 msg)),
          idk_ResponseBody = client_body (respondError 400 msg), idk_CreatedAt = t\<rparr>"
  have "sdb s1 = (sdb s)\<lparr>idempotency_keys := idempotency_keys (sdb s) @ [?k]\<rparr>" "x = respondError 400 msg"
    using run m s2(1) by auto
  moreover from this(1) have "stored_key (sdb s1) (h, u) = Some ?k" by (simp add: stored_key_new [OF unused])
  moreover have "client_status (replay ?k) = 400" "client_body (replay ?k) = client_body (respondError 400 msg)"
    by (simp_all add: replay_client ans(3) sint_status)
  ultimately show ?thesis by blast
qed

text \<open>Every later request with the key gets that refusal, whatever it asks for.\<close>

lemma victim_final:
  assumes "quiet W" and "V = victim_at W (tick s + 4) msg" and "ledger_inv (sdb s)"
    and req: "transfer_request X r h u fromID toID"
    and "account_of (sdb s) fromID = Some a" and "acc_OwnerID a = Some u"
    and unused: "h \<notin> idk_ID ` set (idempotency_keys (sdb s))"
    and "IdempotencyMiddleware X V (protected_handler X V PostTransfers) r s = (x, s1)"
    and later: "rely W'" "fault W' (tick t) = NoFault" "db_steps (sdb s1) (sdb t)"
  shows "x = respondError 400 msg \<and> accounts (sdb s1) = accounts (sdb s) \<and> entries (sdb s1) = entries (sdb s)
    \<and> (\<exists>k. IdempotencyMiddleware X W' next_handler r t
           = (replay k, t\<lparr>sdb := interfere W' (tick t) (sdb t), tick := Suc (tick t)\<rparr>)
         \<and> client_status (replay k) = 400 \<and> client_body (replay k) = client_body x)"
proof -
  from victim_stored [OF assms(1,2) req assms(5-8)] obtain k where x: "x = respondError 400 msg"
    and s1: "sdb s1 = (sdb s)\<lparr>idempotency_keys := idempotency_keys (sdb s) @ [k]\<rparr>" "stored_key (sdb s1) (h, u) = Some k"
    and k: "client_status (replay k) = 400" "client_body (replay k) = client_body x" by blast
  have "idk_ID k = h" using s1(2) by (auto simp: stored_key_def dest!: find_SomeD)
  with step_key [of k "sdb s"] unused s1(1) have "db_step (sdb s) (sdb s1)" by simp
  then have "ledger_inv (sdb t)" by (meson assms(3) db_step_inv db_steps_inv later(3))
  moreover have "tracking_key X r = Some (h, u)" using req by (simp add: transfer_request_def)
  ultimately show ?thesis using stored_replayed [OF s1(2) _ later] x s1(1) k by auto
qed

end
