(* ===== verification/Api_Document.thy ===== *)
theory Api_Document
  imports Externals
begin

section \<open>docs/docs.go: the description of the API\<close>

text \<open>
  The Swagger 2.0 document the server publishes, member by member: \<open>docTemplate\<close> with the fields
  of \<open>SwaggerInfo\<close> filled in. Each operation of a path is a definition named after the route
  that serves it; \<open>doc_ref\<close>, \<open>doc_type\<close> and \<open>doc_response\<close> abbreviate objects that recur.
\<close>

subsection \<open>Recurring objects\<close>

definition doc_ref :: "string \<Rightarrow> json" where
  "doc_ref name = JObject [(''$ref'', JString (''#/definitions/internal_api.'' @ name))]"

definition doc_type :: "string \<Rightarrow> json" where
  "doc_type name = JObject [(''type'', JString name)]"

definition doc_array :: "json \<Rightarrow> json" where
  "doc_array items = JObject [(''type'', JString ''array''), (''items'', items)]"

definition doc_response :: "string \<Rightarrow> json \<Rightarrow> json" where
  "doc_response description schema = JObject [(''description'', JString description), (''schema'', schema)]"

subsection \<open>Operations\<close>

definition doc_GetAccounts :: json where
  "doc_GetAccounts =
     JObject [(''security'', JArray [JObject [(''Bearer'', JArray [])]]),
       (''description'', JString ''Returns list of accounts owned by authenticated user''),
       (''produces'', JArray [JString ''application/json'']),
       (''tags'', JArray [JString ''accounts'']),
       (''summary'', JString ''List user accounts''),
       (''responses'', JObject [(''200'', doc_response ''OK'' (doc_array (doc_ref ''AccountResponse''))),
           (''401'', doc_response ''Unauthorized'' (doc_ref ''ErrorResponse'')),
           (''500'', doc_response ''Internal Server Error'' (doc_ref ''ErrorResponse''))])]"

definition doc_PostAccounts :: json where
  "doc_PostAccounts =
     JObject [(''security'', JArray [JObject [(''Bearer'', JArray [])]]),
       (''description'', JString ''Creates a new user-owned account with name and currency''),
       (''consumes'', JArray [JString ''application/json'']),
       (''produces'', JArray [JString ''application/json'']),
       (''tags'', JArray [JString ''accounts'']),
       (''summary'', JString ''Create a new account''),
       (''parameters'', JArray [JObject [(''description'', JString ''Account details''),
             (''name'', JString ''body''),
             (''in'', JString ''body''),
             (''required'', JBool True),
             (''schema'', doc_ref ''CreateAccountRequest'')]]),
       (''responses'', JObject [(''201'', doc_response ''Created'' (doc_ref ''AccountResponse'')),
           (''400'', doc_response ''Bad Request'' (doc_ref ''ErrorResponse'')),
           (''401'', doc_response ''Unauthorized'' (doc_ref ''ErrorResponse'')),
           (''500'', doc_response ''Internal Server Error'' (doc_ref ''ErrorResponse''))])]"

definition doc_GetAccountById :: json where
  "doc_GetAccountById =
     JObject [(''security'', JArray [JObject [(''Bearer'', JArray [])]]),
       (''description'', JString ''Returns details of a specific account''),
       (''produces'', JArray [JString ''application/json'']),
       (''tags'', JArray [JString ''accounts'']),
       (''summary'', JString ''Get account details''),
       (''parameters'', JArray [JObject [(''type'', JString ''string''),
             (''description'', JString ''Account ID''),
             (''name'', JString ''id''),
             (''in'', JString ''path''),
             (''required'', JBool True)]]),
       (''responses'', JObject [(''200'', doc_response ''OK'' (doc_ref ''AccountResponse'')),
           (''400'', doc_response ''Bad Request'' (doc_ref ''ErrorResponse'')),
           (''401'', doc_response ''Unauthorized'' (doc_ref ''ErrorResponse'')),
           (''403'', doc_response ''Forbidden'' (doc_ref ''ErrorResponse'')),
           (''404'', doc_response ''Not Found'' (doc_ref ''ErrorResponse''))])]"

definition doc_PostDeposit :: json where
  "doc_PostDeposit =
     JObject [(''security'', JArray [JObject [(''Bearer'', JArray [])]]),
       (''description'', JString ''Deposits fiat amount (mock) with double-entry ledger update''),
       (''consumes'', JArray [JString ''application/json'']),
       (''produces'', JArray [JString ''application/json'']),
       (''tags'', JArray [JString ''accounts'']),
       (''summary'', JString ''Deposit money into account''),
       (''parameters'', JArray [JObject [(''type'', JString ''string''),
             (''description'', JString ''Account ID''),
             (''name'', JString ''id''),
             (''in'', JString ''path''),
             (''required'', JBool True)],
           JObject [(''description'', JString ''Deposit amount''),
             (''name'', JString ''body''),
             (''in'', JString ''body''),
             (''required'', JBool True),
             (''schema'', doc_ref ''AmountRequest'')]]),
       (''responses'', JObject [(''200'', doc_response ''OK'' (doc_ref ''MessageResponse'')),
           (''400'', doc_response ''Bad Request'' (doc_ref ''ErrorResponse'')),
           (''401'', doc_response ''Unauthorized'' (doc_ref ''ErrorResponse'')),
           (''403'', doc_response ''Forbidden'' (doc_ref ''ErrorResponse'')),
           (''404'', doc_response ''Not Found'' (doc_ref ''ErrorResponse'')),
           (''500'', doc_response ''Internal Server Error'' (doc_ref ''ErrorResponse''))])]"

definition doc_GetAccountEntries :: json where
  "doc_GetAccountEntries =
     JObject [(''security'', JArray [JObject [(''Bearer'', JArray [])]]),
       (''description'', JString ''Returns list of ledger entries for an account (immutable history)''),
       (''produces'', JArray [JString ''application/json'']),
       (''tags'', JArray [JString ''accounts'']),
       (''summary'', JString ''Get account entries''),
       (''parameters'', JArray [JObject [(''type'', JString ''string''),
             (''description'', JString ''Account ID''),
             (''name'', JString ''id''),
             (''in'', JString ''path''),
             (''required'', JBool True)],
           JObject [(''type'', JString ''integer''),
             (''description'', JString ''Limit (default 20)''),
             (''name'', JString ''limit''),
             (''in'', JString ''query'')],
           JObject [(''type'', JString ''integer''),
             (''description'', JString ''Offset (default 0)''),
             (''name'', JString ''offset''),
             (''in'', JString ''query'')]]),
       (''responses'', JObject [(''200'', doc_response ''OK'' (doc_array (doc_ref ''EntryResponse''))),
           (''400'', doc_response ''Bad Request'' (doc_ref ''ErrorResponse'')),
           (''401'', doc_response ''Unauthorized'' (doc_ref ''ErrorResponse'')),
           (''403'', doc_response ''Forbidden'' (doc_ref ''ErrorResponse'')),
           (''404'', doc_response ''Not Found'' (doc_ref ''ErrorResponse'')),
           (''500'', doc_response ''Internal Server Error'' (doc_ref ''ErrorResponse''))])]"

definition doc_GetReconcile :: json where
  "doc_GetReconcile =
     JObject [(''security'', JArray [JObject [(''Bearer'', JArray [])]]),
       (''description'', JString ''Verifies stored balance matches sum of all ledger entries (credits - debits)''),
       (''produces'', JArray [JString ''application/json'']),
       (''tags'', JArray [JString ''accounts'']),
       (''summary'', JString ''Reconcile account balance''),
       (''parameters'', JArray [JObject [(''type'', JString ''string''),
             (''description'', JString ''Account ID''),
             (''name'', JString ''id''),
             (''in'', JString ''path''),
             (''required'', JBool True)]]),
       (''responses'', JObject [(''200'', doc_response ''OK'' (doc_ref ''ReconcileResponse'')),
           (''400'', doc_response ''Bad Request'' (doc_ref ''ErrorResponse'')),
           (''401'', doc_response ''Unauthorized'' (doc_ref ''ErrorResponse'')),
           (''403'', doc_response ''Forbidden'' (doc_ref ''ErrorResponse'')),
           (''404'', doc_response ''Not Found'' (doc_ref ''ErrorResponse'')),
           (''500'', doc_response ''Internal Server Error'' (doc_ref ''ErrorResponse''))])]"

definition doc_PostWithdraw :: json where
  "doc_PostWithdraw =
     JObject [(''security'', JArray [JObject [(''Bearer'', JArray [])]]),
       (''description'', JString ''Withdraws fiat amount (mock) with double-entry ledger update''),
       (''consumes'', JArray [JString ''application/json'']),
       (''produces'', JArray [JString ''application/json'']),
       (''tags'', JArray [JString ''accounts'']),
       (''summary'', JString ''Withdraw money from account''),
       (''parameters'', JArray [JObject [(''type'', JString ''string''),
             (''description'', JString ''Account ID''),
             (''name'', JString ''id''),
             (''in'', JString ''path''),
             (''required'', JBool True)],
           JObject [(''description'', JString ''Withdraw amount''),
             (''name'', JString ''body''),
             (''in'', JString ''body''),
             (''required'', JBool True),
             (''schema'', doc_ref ''AmountRequest'')]]),
       (''responses'', JObject [(''200'', doc_response ''OK'' (doc_ref ''MessageResponse'')),
           (''400'', doc_response ''Bad Request'' (doc_ref ''ErrorResponse'')),
           (''401'', doc_response ''Unauthorized'' (doc_ref ''ErrorResponse'')),
           (''403'', doc_response ''Forbidden'' (doc_ref ''ErrorResponse'')),
           (''404'', doc_response ''Not Found'' (doc_ref ''ErrorResponse'')),
           (''500'', doc_response ''Internal Server Error'' (doc_ref ''ErrorResponse''))])]"

definition doc_PostLogin :: json where
  "doc_PostLogin =
     JObject [(''description'', JString ''Authenticates user with email/password and returns JWT token''),
       (''consumes'', JArray [JString ''application/json'']),
       (''produces'', JArray [JString ''application/json'']),
       (''tags'', JArray [JString ''auth'']),
       (''summary'', JString ''Login user''),
       (''parameters'', JArray [JObject [(''description'', JString ''User login details''),
             (''name'', JString ''body''),
             (''in'', JString ''body''),
             (''required'', JBool True),
             (''schema'', doc_ref ''AuthRequest'')]]),
       (''responses'', JObject [(''200'', doc_response ''OK'' (doc_ref ''TokenResponse'')),
           (''400'', doc_response ''Bad Request'' (doc_ref ''ErrorResponse'')),
           (''401'', doc_response ''Unauthorized'' (doc_ref ''ErrorResponse'')),
           (''500'', doc_response ''Internal Server Error'' (doc_ref ''ErrorResponse''))])]"

definition doc_PostRegister :: json where
  "doc_PostRegister =
     JObject [(''description'', JString ''Creates a new user with email and hashed password, returns user details and JWT token''),
       (''consumes'', JArray [JString ''application/json'']),
       (''produces'', JArray [JString ''application/json'']),
       (''tags'', JArray [JString ''auth'']),
       (''summary'', JString ''Register a new user''),
       (''parameters'', JArray [JObject [(''description'', JString ''User registration details''),
             (''name'', JString ''body''),
             (''in'', JString ''body''),
             (''required'', JBool True),
             (''schema'', doc_ref ''AuthRequest'')]]),
       (''responses'', JObject [(''201'', doc_response ''Created'' (doc_ref ''RegisterResponse'')),
           (''400'', doc_response ''Bad Request'' (doc_ref ''ErrorResponse'')),
           (''409'', doc_response ''Conflict'' (doc_ref ''ErrorResponse'')),
           (''500'', doc_response ''Internal Server Error'' (doc_ref ''ErrorResponse''))])]"

definition doc_GetTransactionById :: json where
  "doc_GetTransactionById =
     JObject [(''security'', JArray [JObject [(''Bearer'', JArray [])]]),
       (''description'', JString ''Returns both entries (debit and credit) for a complete transaction view''),
       (''produces'', JArray [JString ''application/json'']),
       (''tags'', JArray [JString ''accounts'']),
       (''summary'', JString ''Get transaction details''),
       (''parameters'', JArray [JObject [(''type'', JString ''string''),
             (''description'', JString ''Transaction ID''),
             (''name'', JString ''id''),
             (''in'', JString ''path''),
             (''required'', JBool True)]]),
       (''responses'', JObject [(''200'', doc_response ''OK'' (doc_array (doc_ref ''EntryResponse''))),
           (''400'', doc_response ''Bad Request'' (doc_ref ''ErrorResponse'')),
           (''401'', doc_response ''Unauthorized'' (doc_ref ''ErrorResponse'')),
           (''403'', doc_response ''Forbidden'' (doc_ref ''ErrorResponse'')),
           (''404'', doc_response ''Not Found'' (doc_ref ''ErrorResponse'')),
           (''500'', doc_response ''Internal Server Error'' (doc_ref ''ErrorResponse''))])]"

definition doc_PostTransfers :: json where
  "doc_PostTransfers =
     JObject [(''security'', JArray [JObject [(''Bearer'', JArray [])]]),
       (''description'', JString ''Transfers funds between accounts with atomic double-entry updates.''),
       (''consumes'', JArray [JString ''application/json'']),
       (''produces'', JArray [JString ''application/json'']),
       (''tags'', JArray [JString ''accounts'']),
       (''summary'', JString ''Transfer money between accounts''),
       (''parameters'', JArray [JObject [(''description'', JString ''Transfer details''),
             (''name'', JString ''body''),
             (''in'', JString ''body''),
             (''required'', JBool True),
             (''schema'', doc_ref ''TransferRequest'')]]),
       (''responses'', JObject [(''200'', doc_response ''OK'' (doc_ref ''MessageResponse'')),
           (''400'', doc_response ''Bad Request'' (doc_ref ''ErrorResponse'')),
           (''401'', doc_response ''Unauthorized'' (doc_ref ''ErrorResponse'')),
           (''403'', doc_response ''Forbidden'' (doc_ref ''ErrorResponse'')),
           (''404'', doc_response ''Not Found'' (doc_ref ''ErrorResponse''))])]"

definition docPaths :: json where
  "docPaths = JObject
      [(''/accounts'', JObject [(''get'', doc_GetAccounts), (''post'', doc_PostAccounts)]),
       (''/accounts/{id}'', JObject [(''get'', doc_GetAccountById)]),
       (''/accounts/{id}/deposit'', JObject [(''post'', doc_PostDeposit)]),
       (''/accounts/{id}/entries'', JObject [(''get'', doc_GetAccountEntries)]),
       (''/accounts/{id}/reconcile'', JObject [(''get'', doc_GetReconcile)]),
       (''/accounts/{id}/withdraw'', JObject [(''post'', doc_PostWithdraw)]),
       (''/login'', JObject [(''post'', doc_PostLogin)]),
       (''/register'', JObject [(''post'', doc_PostRegister)]),
       (''/transactions/{id}'', JObject [(''get'', doc_GetTransactionById)]),
       (''/transfers'', JObject [(''post'', doc_PostTransfers)])]"

subsection \<open>Schemas\<close>

definition schema_AccountResponse :: json where
  "schema_AccountResponse =
     JObject [(''type'', JString ''object''),
       (''properties'', JObject [(''balance'', doc_type ''string''),
           (''created_at'', doc_type ''string''),
           (''currency'', doc_type ''string''),
           (''id'', doc_type ''string''),
           (''is_system'', doc_type ''boolean''),
           (''name'', doc_type ''string''),
           (''owner_id'', doc_type ''string'')])]"

definition schema_AmountRequest :: json where
  "schema_AmountRequest =
     JObject [(''type'', JString ''object''),
       (''required'', JArray [JString ''amount'']),
       (''properties'', JObject [(''amount'', doc_type ''string'')])]"

definition schema_AuthRequest :: json where
  "schema_AuthRequest =
     JObject [(''type'', JString ''object''),
       (''required'', JArray [JString ''email'', JString ''password'']),
       (''properties'', JObject [(''email'', doc_type ''string''),
           (''password'', doc_type ''string'')])]"

definition schema_CreateAccountRequest :: json where
  "schema_CreateAccountRequest =
     JObject [(''type'', JString ''object''),
       (''required'', JArray [JString ''name'']),
       (''properties'', JObject [(''name'', doc_type ''string'')])]"

definition schema_EntryResponse :: json where
  "schema_EntryResponse =
     JObject [(''type'', JString ''object''),
       (''properties'', JObject [(''account_id'', doc_type ''string''),
           (''created_at'', doc_type ''string''),
           (''credit'', doc_type ''string''),
           (''debit'', doc_type ''string''),
           (''description'', doc_type ''string''),
           (''id'', doc_type ''string''),
           (''operation_type'', doc_type ''string''),
           (''transaction_id'', doc_type ''string'')])]"

definition schema_ErrorResponse :: json where
  "schema_ErrorResponse =
     JObject [(''type'', JString ''object''),
       (''properties'', JObject [(''error'', doc_type ''string'')])]"

definition schema_MessageResponse :: json where
  "schema_MessageResponse =
     JObject [(''type'', JString ''object''),
       (''properties'', JObject [(''message'', doc_type ''string'')])]"

definition schema_ReconcileResponse :: json where
  "schema_ReconcileResponse =
     JObject [(''type'', JString ''object''),
       (''properties'', JObject [(''matched'', doc_type ''boolean''),
           (''message'', doc_type ''string'')])]"

definition schema_RegisterResponse :: json where
  "schema_RegisterResponse =
     JObject [(''type'', JString ''object''),
       (''properties'', JObject [(''email'', doc_type ''string''),
           (''token'', doc_type ''string''),
           (''user_id'', doc_type ''string'')])]"

definition schema_TokenResponse :: json where
  "schema_TokenResponse =
     JObject [(''type'', JString ''object''),
       (''properties'', JObject [(''token'', doc_type ''string'')])]"

definition schema_TransferRequest :: json where
  "schema_TransferRequest =
     JObject [(''type'', JString ''object''),
       (''required'', JArray [JString ''amount'']),
       (''properties'', JObject [(''amount'', JObject []),
           (''from_account_id'', doc_type ''string''),
           (''from_id'', doc_type ''string''),
           (''to_account_id'', doc_type ''string''),
           (''to_id'', doc_type ''string'')])]"

definition schemas :: "(string \<times> json) list" where
  "schemas =
     [(''AccountResponse'', schema_AccountResponse),
      (''AmountRequest'', schema_AmountRequest),
      (''AuthRequest'', schema_AuthRequest),
      (''CreateAccountRequest'', schema_CreateAccountRequest),
      (''EntryResponse'', schema_EntryResponse),
      (''ErrorResponse'', schema_ErrorResponse),
      (''MessageResponse'', schema_MessageResponse),
      (''ReconcileResponse'', schema_ReconcileResponse),
      (''RegisterResponse'', schema_RegisterResponse),
      (''TokenResponse'', schema_TokenResponse),
      (''TransferRequest'', schema_TransferRequest)]"

text \<open>The document repeats every schema under the long name of its package.\<close>

definition docDefinitions :: "(string \<times> json) list" where
  "docDefinitions =
     map (\<lambda>(name, schema). (''github_com_paularinzee_bank-ledger_internal_api.'' @ name, schema)) schemas
     @ map (\<lambda>(name, schema). (''internal_api.'' @ name, schema)) schemas"

subsection \<open>The document\<close>

record Spec =
  Version :: string
  Host :: string
  BasePath :: string
  Schemes :: "string list"
  Title :: string
  Description :: string

definition SwaggerInfo :: Spec where
  "SwaggerInfo =
     \<lparr>Version = ''1.0'', Host = [], BasePath = [], Schemes = [], Title = ''Bank Ledger API'',
      Description = ''Production-grade double-entry accounting ledger''\<rparr>"

definition doc_security :: json where
  "doc_security =
     JObject [(''Bearer'', JObject [(''description'', JString ''Type 'Bearer <your_jwt_token>' to authenticate''),
           (''type'', JString ''apiKey''),
           (''name'', JString ''Authorization''),
           (''in'', JString ''header'')])]"

definition docTemplate :: "Spec \<Rightarrow> json" where
  "docTemplate info =
     JObject
      [(''schemes'', JArray (map JString (Schemes info))),
       (''swagger'', JString ''2.0''),
       (''info'', JObject [(''description'', JString (Description info)), (''title'', JString (Title info)),
                           (''contact'', JObject []), (''version'', JString (Version info))]),
       (''host'', JString (Host info)),
       (''basePath'', JString (BasePath info)),
       (''paths'', docPaths),
       (''definitions'', JObject docDefinitions),
       (''securityDefinitions'', doc_security)]"

end
