(* ===== verification/Api_Conformance.thy ===== *)
theory Api_Conformance
  imports Api_Document Api_Behaviour
begin

section \<open>The handlers against the document\<close>

text \<open>
  The document of \<open>docs.go\<close> read as a contract. A route is looked up by the method and pattern it
  is registered with, a response by its status code, and a body is checked against the schema:
  references followed, types compared, every member documented. The handlers then keep the
  contract on every branch, and a body the document allows is one they can decode.
\<close>

subsection \<open>Reading the document\<close>

fun member :: "string \<Rightarrow> json \<Rightarrow> json option" where
  "member k (JObject ms) = map_of ms k"
| "member k _ = None"

text \<open>The method and the pattern of a registration, as in \<open>r.Post("/register", h.Register)\<close>.\<close>

fun public_pattern :: "route \<Rightarrow> (string \<times> string) option" where
  "public_pattern PostRegister = Some (''POST'', ''/register'')"
| "public_pattern PostLogin = Some (''POST'', ''/login'')"
| "public_pattern GetHealth = Some (''GET'', ''/health'')"
| "public_pattern GetReady = Some (''GET'', ''/ready'')"
| "public_pattern _ = None"

fun protected_pattern :: "route \<Rightarrow> (string \<times> string) option" where
  "protected_pattern PostAccounts = Some (''POST'', ''/accounts'')"
| "protected_pattern GetAccounts = Some (''GET'', ''/accounts'')"
| "protected_pattern GetAccountById = Some (''GET'', ''/accounts/{id}'')"
| "protected_pattern PostDeposit = Some (''POST'', ''/accounts/{id}/deposit'')"
| "protected_pattern PostWithdraw = Some (''POST'', ''/accounts/{id}/withdraw'')"
| "protected_pattern PostTransfers = Some (''POST'', ''/transfers'')"
| "protected_pattern GetAccountEntries = Some (''GET'', ''/accounts/{id}/entries'')"
| "protected_pattern GetReconcile = Some (''GET'', ''/accounts/{id}/reconcile'')"
| "protected_pattern GetTransactionById = Some (''GET'', ''/transactions/{id}'')"
| "protected_pattern _ = None"

definition route_pattern :: "route \<Rightarrow> string \<times> string" where
  "route_pattern rt =
     (case public_pattern rt of Some p \<Rightarrow> p | None \<Rightarrow> the (protected_pattern rt))"

declare route_pattern_def [simp]

text \<open>The handler behind a route of the API, without the middleware.\<close>

definition api_handler :: "'d deps \<Rightarrow> world \<Rightarrow> string option \<Rightarrow> route \<Rightarrow> handler" where
  "api_handler X W ta rt =
     (case rt of
        PostRegister \<Rightarrow> Handler_Register X W ta
      | PostLogin \<Rightarrow> Handler_Login X W ta
      | _ \<Rightarrow> protected_handler X W rt)"

definition probe :: "route \<Rightarrow> bool" where
  "probe rt \<longleftrightarrow> rt = GetHealth \<or> rt = GetReady"

definition doc_operation :: "json \<Rightarrow> route \<Rightarrow> json option" where
  "doc_operation doc rt =
     (case route_pattern rt of (method, pattern) \<Rightarrow>
        Option.bind (member ''paths'' doc) (\<lambda>paths.
        Option.bind (member pattern paths) (member (fold_name method))))"

definition response_schema :: "json \<Rightarrow> route \<Rightarrow> int \<Rightarrow> json option" where
  "response_schema doc rt code =
     Option.bind (doc_operation doc rt) (\<lambda>operation.
     Option.bind (member ''responses'' operation) (\<lambda>responses.
     Option.bind (member (int_text code) responses) (member ''schema'')))"

definition body_schema :: "json \<Rightarrow> route \<Rightarrow> json option" where
  "body_schema doc rt =
     Option.bind (doc_operation doc rt) (\<lambda>operation.
     case member ''parameters'' operation of
       Some (JArray params) \<Rightarrow>
         Option.bind (find (\<lambda>p. member ''in'' p = Some (JString ''body'')) params) (member ''schema'')
     | _ \<Rightarrow> None)"

definition needs_token :: "json \<Rightarrow> route \<Rightarrow> bool" where
  "needs_token doc rt \<longleftrightarrow> Option.bind (doc_operation doc rt) (member ''security'') \<noteq> None"

subsection \<open>Values of a schema\<close>

definition names_of :: "json option \<Rightarrow> string list" where
  "names_of v = (case v of Some (JArray xs) \<Rightarrow> map (\<lambda>x. case x of JString t \<Rightarrow> t | _ \<Rightarrow> []) xs | _ \<Rightarrow> [])"

text \<open>
  The fuel bounds the references and the nesting. The documents use three levels: an array, the
  reference to its element, the members of the element.
\<close>

fun conforms :: "nat \<Rightarrow> json \<Rightarrow> json \<Rightarrow> json \<Rightarrow> bool" where
  "conforms 0 defs schema v = False"
| "conforms (Suc n) defs schema v =
     (case member ''$ref'' schema of
        Some (JString path) \<Rightarrow>
          take 14 path = ''#/definitions/''
          \<and> (case member (drop 14 path) defs of None \<Rightarrow> False | Some target \<Rightarrow> conforms n defs target v)
      | _ \<Rightarrow>
     (case member ''type'' schema of
        None \<Rightarrow> True
      | Some t \<Rightarrow>
     (case v of
        JString s \<Rightarrow> t = JString ''string''
      | JBool b \<Rightarrow> t = JString ''boolean''
      | JArray vs \<Rightarrow> t = JString ''array''
          \<and> (case member ''items'' schema of None \<Rightarrow> False | Some items \<Rightarrow> \<forall>w \<in> set vs. conforms n defs items w)
      | JObject ms \<Rightarrow> t = JString ''object'' \<and> distinct (map fst ms)
          \<and> list_all (\<lambda>k. k \<in> fst ` set ms) (names_of (member ''required'' schema))
          \<and> (\<forall>(k, w) \<in> set ms. case Option.bind (member ''properties'' schema) (member k) of
                                  None \<Rightarrow> False | Some sc \<Rightarrow> conforms n defs sc w)
      | _ \<Rightarrow> False)))"

definition doc_conforms :: "json \<Rightarrow> json \<Rightarrow> json \<Rightarrow> bool" where
  "doc_conforms doc schema v =
     (case member ''definitions'' doc of None \<Rightarrow> False | Some defs \<Rightarrow> conforms 5 defs schema v)"

text \<open>The response is one JSON value, and the route documents it under its status code.\<close>

definition documented_answer :: "json \<Rightarrow> route \<Rightarrow> wr_call list \<Rightarrow> bool" where
  "documented_answer doc rt calls \<longleftrightarrow>
     (\<exists>code data schema. calls = respondJSON code data \<and> response_schema doc rt code = Some schema
        \<and> doc_conforms doc schema data)"

subsection \<open>What the document says\<close>

abbreviation api_doc :: json where
  "api_doc \<equiv> docTemplate SwaggerInfo"

definition all_routes :: "route list" where
  "all_routes =
     [PostRegister, PostLogin, GetHealth, GetReady, PostAccounts, GetAccounts, GetAccountById, PostDeposit,
      PostWithdraw, PostTransfers, GetAccountEntries, GetReconcile, GetTransactionById]"

lemma in_all_routes: "rt \<in> set all_routes"
  by (cases rt) (simp_all add: all_routes_def)

lemma every_route: "list_all P all_routes \<Longrightarrow> P rt"
  using in_all_routes by (simp add: list_all_iff)

text \<open>Every route but the two probes is documented; those behind the token check say so.\<close>

fun operation_of :: "route \<Rightarrow> json option" where
  "operation_of PostRegister = Some doc_PostRegister"
| "operation_of PostLogin = Some doc_PostLogin"
| "operation_of GetHealth = None"
| "operation_of GetReady = None"
| "operation_of PostAccounts = Some doc_PostAccounts"
| "operation_of GetAccounts = Some doc_GetAccounts"
| "operation_of GetAccountById = Some doc_GetAccountById"
| "operation_of PostDeposit = Some doc_PostDeposit"
| "operation_of PostWithdraw = Some doc_PostWithdraw"
| "operation_of PostTransfers = Some doc_PostTransfers"
| "operation_of GetAccountEntries = Some doc_GetAccountEntries"
| "operation_of GetReconcile = Some doc_GetReconcile"
| "operation_of GetTransactionById = Some doc_GetTransactionById"

lemma api_operation: "doc_operation api_doc rt = operation_of rt"
proof -
  have "member ''paths'' api_doc = Some docPaths" by (simp add: docTemplate_def)
  moreover have "fold_name ''GET'' = ''get''" "fold_name ''POST'' = ''post''" by code_simp+
  ultimately show ?thesis by (cases rt) (simp_all add: doc_operation_def docPaths_def)
qed

lemma routes_documented: "doc_operation api_doc rt = None \<longleftrightarrow> probe rt"
  by (cases rt) (simp_all add: api_operation probe_def)

lemma tokens_documented:
  "needs_token api_doc rt \<longleftrightarrow> rt \<notin> {PostRegister, PostLogin, GetHealth, GetReady}"
proof -
  have "list_all (\<lambda>rt. (Option.bind (operation_of rt) (member ''security'') \<noteq> None)
      = (rt \<notin> {PostRegister, PostLogin, GetHealth, GetReady})) all_routes" by code_simp
  from every_route [OF this] show ?thesis unfolding needs_token_def api_operation .
qed

text \<open>The codes under which a route documents an error.\<close>

fun error_codes :: "route \<Rightarrow> int list" where
  "error_codes PostRegister = [400, 409, 500]"
| "error_codes PostLogin = [400, 401, 500]"
| "error_codes PostAccounts = [400, 401, 500]"
| "error_codes GetAccounts = [401, 500]"
| "error_codes GetAccountById = [400, 401, 403, 404]"
| "error_codes PostTransfers = [400, 401, 403, 404]"
| "error_codes GetHealth = []"
| "error_codes GetReady = []"
| "error_codes _ = [400, 401, 403, 404, 500]"

definition response_in :: "json option \<Rightarrow> int \<Rightarrow> json option" where
  "response_in op code = Option.bind op (\<lambda>operation.
     Option.bind (member ''responses'' operation) (\<lambda>responses.
     Option.bind (member (int_text code) responses) (member ''schema'')))"

lemma api_response: "response_schema api_doc rt code = response_in (operation_of rt) code"
  by (simp only: response_schema_def response_in_def api_operation)

lemma code_texts:
  "int_text 200 = ''200''" "int_text 201 = ''201''" "int_text 400 = ''400''" "int_text 401 = ''401''"
  "int_text 403 = ''403''" "int_text 404 = ''404''" "int_text 409 = ''409''" "int_text 500 = ''500''"
  by (simp_all add: int_text_def nat_text.simps digit_def char_of_def bit_iff_odd)

lemmas operation_defs = doc_PostRegister_def doc_PostLogin_def doc_PostAccounts_def doc_GetAccounts_def
  doc_GetAccountById_def doc_PostDeposit_def doc_PostWithdraw_def doc_PostTransfers_def
  doc_GetAccountEntries_def doc_GetReconcile_def doc_GetTransactionById_def doc_response_def

lemma error_response:
  "code \<in> set (error_codes rt) \<Longrightarrow> response_schema api_doc rt code = Some (doc_ref ''ErrorResponse'')"
  unfolding api_response by (cases rt) (auto simp: response_in_def operation_defs code_texts)

lemma success_response:
  "response_schema api_doc PostRegister 201 = Some (doc_ref ''RegisterResponse'')"
  "response_schema api_doc PostLogin 200 = Some (doc_ref ''TokenResponse'')"
  "response_schema api_doc PostAccounts 201 = Some (doc_ref ''AccountResponse'')"
  "response_schema api_doc GetAccounts 200 = Some (doc_array (doc_ref ''AccountResponse''))"
  "response_schema api_doc GetAccountById 200 = Some (doc_ref ''AccountResponse'')"
  "response_schema api_doc PostDeposit 200 = Some (doc_ref ''MessageResponse'')"
  "response_schema api_doc PostWithdraw 200 = Some (doc_ref ''MessageResponse'')"
  "response_schema api_doc PostTransfers 200 = Some (doc_ref ''MessageResponse'')"
  "response_schema api_doc GetAccountEntries 200 = Some (doc_array (doc_ref ''EntryResponse''))"
  "response_schema api_doc GetReconcile 200 = Some (doc_ref ''ReconcileResponse'')"
  "response_schema api_doc GetTransactionById 200 = Some (doc_array (doc_ref ''EntryResponse''))"
  unfolding api_response by (simp_all add: response_in_def operation_defs code_texts)

subsection \<open>The bodies the handlers write\<close>

lemma api_definitions: "member ''definitions'' api_doc = Some (JObject docDefinitions)"
  by (simp add: docTemplate_def)

lemma api_schemas:
  "map_of docDefinitions ''internal_api.AccountResponse'' = Some schema_AccountResponse"
  "map_of docDefinitions ''internal_api.AmountRequest'' = Some schema_AmountRequest"
  "map_of docDefinitions ''internal_api.AuthRequest'' = Some schema_AuthRequest"
  "map_of docDefinitions ''internal_api.CreateAccountRequest'' = Some schema_CreateAccountRequest"
  "map_of docDefinitions ''internal_api.EntryResponse'' = Some schema_EntryResponse"
  "map_of docDefinitions ''internal_api.ErrorResponse'' = Some schema_ErrorResponse"
  "map_of docDefinitions ''internal_api.MessageResponse'' = Some schema_MessageResponse"
  "map_of docDefinitions ''internal_api.ReconcileResponse'' = Some schema_ReconcileResponse"
  "map_of docDefinitions ''internal_api.RegisterResponse'' = Some schema_RegisterResponse"
  "map_of docDefinitions ''internal_api.TokenResponse'' = Some schema_TokenResponse"
  "map_of docDefinitions ''internal_api.TransferRequest'' = Some schema_TransferRequest"
  by (simp_all add: docDefinitions_def schemas_def)

lemma conforms_ref:
  assumes "map_of docDefinitions (''internal_api.'' @ name) = Some target"
  shows "conforms (Suc n) (JObject docDefinitions) (doc_ref name) v \<longleftrightarrow> conforms n (JObject docDefinitions) target v"
  using assms by (simp add: doc_ref_def)

lemma conforms_array:
  "conforms (Suc n) defs (doc_array items) (JArray vs) \<longleftrightarrow> (\<forall>w \<in> set vs. conforms n defs items w)"
  by (simp add: doc_array_def)

lemma conforms_simple:
  "conforms (Suc n) defs (doc_type ''string'') v \<longleftrightarrow> (\<exists>s. v = JString s)"
  "conforms (Suc n) defs (doc_type ''boolean'') v \<longleftrightarrow> (\<exists>b. v = JBool b)"
  by (cases v; simp add: doc_type_def)+

text \<open>Objects with the members of a schema, whatever the strings they hold.\<close>

lemma object_conforms:
  "conforms (Suc (Suc n)) defs schema_ErrorResponse (JObject [(''error'', JString msg)])"
  "conforms (Suc (Suc n)) defs schema_MessageResponse (message_json msg)"
  "conforms (Suc (Suc n)) defs schema_TokenResponse (token_json token)"
  "conforms (Suc (Suc n)) defs schema_RegisterResponse (register_json ident email token)"
  "conforms (Suc (Suc n)) defs schema_ReconcileResponse (reconcile_json msg matched)"
  "conforms (Suc (Suc n)) defs schema_AccountResponse (account_json X acc)"
  "conforms (Suc (Suc n)) defs schema_EntryResponse (entry_json X en)"
  by (auto simp: schema_ErrorResponse_def schema_MessageResponse_def schema_TokenResponse_def
      schema_RegisterResponse_def schema_ReconcileResponse_def schema_AccountResponse_def
      schema_EntryResponse_def message_json_def token_json_def register_json_def reconcile_json_def
      account_json_def entry_json_def doc_type_def names_of_def split: option.splits)

lemma doc_conforms_api:
  "doc_conforms api_doc schema v \<longleftrightarrow> conforms (Suc (Suc (Suc (Suc (Suc 0))))) (JObject docDefinitions) schema v"
  by (simp add: doc_conforms_def api_definitions eval_nat_numeral del: conforms.simps)

lemma body_conforms:
  "doc_conforms api_doc (doc_ref ''ErrorResponse'') (JObject [(''error'', JString msg)])"
  "doc_conforms api_doc (doc_ref ''MessageResponse'') (message_json msg)"
  "doc_conforms api_doc (doc_ref ''TokenResponse'') (token_json token)"
  "doc_conforms api_doc (doc_ref ''RegisterResponse'') (register_json ident email token)"
  "doc_conforms api_doc (doc_ref ''ReconcileResponse'') (reconcile_json msg matched)"
  "doc_conforms api_doc (doc_ref ''AccountResponse'') (account_json X acc)"
  "doc_conforms api_doc (doc_array (doc_ref ''AccountResponse'')) (JArray (map (\<lambda>a. account_json X (f a)) accs))"
  "doc_conforms api_doc (doc_array (doc_ref ''EntryResponse'')) (JArray (map (\<lambda>e. entry_json X (g e)) es))"
  by (auto simp: doc_conforms_api conforms_ref conforms_array api_schemas object_conforms simp del: conforms.simps(2))

subsection \<open>Every answer is a documented one\<close>

lemma documented_respond:
  "documented_answer doc rt (respondJSON code data)"
  if "response_schema doc rt code = Some schema" "doc_conforms doc schema data"
  using that unfolding documented_answer_def by blast

lemma documented_error:
  "code \<in> set (error_codes rt) \<Longrightarrow> documented_answer api_doc rt (respondError code msg)"
  unfolding respondError_def by (rule documented_respond [OF error_response body_conforms(1)])

lemmas documented_success = documented_respond [OF success_response(1) body_conforms(4)]
  documented_respond [OF success_response(2) body_conforms(3)]
  documented_respond [OF success_response(3) body_conforms(6)]
  documented_respond [OF success_response(4) body_conforms(7)]
  documented_respond [OF success_response(5) body_conforms(6)]
  documented_respond [OF success_response(6) body_conforms(2)]
  documented_respond [OF success_response(7) body_conforms(2)]
  documented_respond [OF success_response(8) body_conforms(2)]
  documented_respond [OF success_response(9) body_conforms(8)]
  documented_respond [OF success_response(10) body_conforms(5)]
  documented_respond [OF success_response(11) body_conforms(8)]

lemma auth_user_refusal: "auth_user X r = Inl resp \<Longrightarrow> resp = respondError 401 ''invalid token''"
  by (auto simp: auth_user_def split: sum.splits option.splits json.splits)

lemma load_own_account_refusal:
  "load_own_account W nf u i s = (Inl resp, s') \<Longrightarrow>
    resp = respondError 404 nf \<or> resp = respondError 403 ''access denied''"
  by (auto simp: load_own_account_def split: prod.splits sum.splits if_splits)

lemmas refusals = auth_user_refusal load_own_account_refusal

lemma public_documented:
  "Handler_Register X W ta r s = (x, s') \<Longrightarrow> documented_answer api_doc PostRegister x"
  "Handler_Login X W ta r s = (x, s') \<Longrightarrow> documented_answer api_doc PostLogin x"
  by (auto simp: Handler_Register_def Handler_Login_def documented_error documented_success
      split: prod.splits sum.splits option.splits if_splits)

lemma account_documented:
  "Handler_CreateAccount X W r s = (x, s') \<Longrightarrow> documented_answer api_doc PostAccounts x"
  "Handler_ListAccounts X W r s = (x, s') \<Longrightarrow> documented_answer api_doc GetAccounts x"
  "Handler_GetAccount X W r s = (x, s') \<Longrightarrow> documented_answer api_doc GetAccountById x"
  by (auto simp: Handler_CreateAccount_def Handler_ListAccounts_def Handler_GetAccount_def
      documented_error documented_success dest!: refusals split: prod.splits sum.splits option.splits if_splits)

lemma money_documented:
  "Handler_Deposit X W r s = (x, s') \<Longrightarrow> documented_answer api_doc PostDeposit x"
  "Handler_Withdraw X W r s = (x, s') \<Longrightarrow> documented_answer api_doc PostWithdraw x"
  "Handler_Transfer X W r s = (x, s') \<Longrightarrow> documented_answer api_doc PostTransfers x"
  by (auto simp: Handler_Deposit_def Handler_Withdraw_def Handler_Transfer_def Let_def
      deposit_code_def withdraw_code_def documented_error documented_success
      dest!: refusals split: prod.splits sum.splits option.splits if_splits)

lemma entries_documented:
  "Handler_GetEntries X W r s = (x, s') \<Longrightarrow> documented_answer api_doc GetAccountEntries x"
  "Handler_GetTransactions X W r s = (x, s') \<Longrightarrow> documented_answer api_doc GetTransactionById x"
  "Handler_ReconcileAccount X W r s = (x, s') \<Longrightarrow> documented_answer api_doc GetReconcile x"
  by (auto simp: Handler_GetEntries_def Handler_GetTransactions_def Handler_ReconcileAccount_def
      documented_error documented_success dest!: refusals split: prod.splits sum.splits option.splits if_splits)

lemma api_handler_documented:
  "api_handler X W ta rt r s = (x, s') \<Longrightarrow> \<not> probe rt \<Longrightarrow> documented_answer api_doc rt x"
  by (cases rt) (auto simp: api_handler_def probe_def protected_handler_def
      dest: public_documented account_documented money_documented entries_documented)

subsection \<open>A documented body can be decoded\<close>

definition body_in :: "json option \<Rightarrow> json option" where
  "body_in op = Option.bind op (\<lambda>operation.
     case member ''parameters'' operation of
       Some (JArray params) \<Rightarrow>
         Option.bind (find (\<lambda>p. member ''in'' p = Some (JString ''body'')) params) (member ''schema'')
     | _ \<Rightarrow> None)"

lemma api_body: "body_schema api_doc rt = body_in (operation_of rt)"
  by (simp only: body_schema_def body_in_def api_operation)

lemma body_documented:
  "body_schema api_doc rt =
     (if rt \<in> {PostRegister, PostLogin} then Some (doc_ref ''AuthRequest'')
      else if rt = PostAccounts then Some (doc_ref ''CreateAccountRequest'')
      else if rt \<in> {PostDeposit, PostWithdraw} then Some (doc_ref ''AmountRequest'')
      else if rt = PostTransfers then Some (doc_ref ''TransferRequest'')
      else None)"
proof -
  have "list_all (\<lambda>rt. body_in (operation_of rt) =
     (if rt \<in> {PostRegister, PostLogin} then Some (doc_ref ''AuthRequest'')
      else if rt = PostAccounts then Some (doc_ref ''CreateAccountRequest'')
      else if rt \<in> {PostDeposit, PostWithdraw} then Some (doc_ref ''AmountRequest'')
      else if rt = PostTransfers then Some (doc_ref ''TransferRequest'')
      else None)) all_routes" by code_simp
  from every_route [OF this] show ?thesis unfolding api_body .
qed

text \<open>The members a documented object can have, and the schemas of their values.\<close>

lemma object_members:
  assumes "doc_conforms api_doc (doc_ref name) v"
    and "map_of docDefinitions (''internal_api.'' @ name) = Some schema"
    and schema: "member ''$ref'' schema = None" "member ''type'' schema = Some (JString ''object'')"
      "member ''properties'' schema = Some (JObject props)"
    and "\<And>k sc w. map_of props k = Some sc \<Longrightarrow> conforms (Suc (Suc (Suc 0))) (JObject docDefinitions) sc w \<Longrightarrow> P k w"
  obtains ms where "v = JObject ms" and "\<And>k w. (k, w) \<in> set ms \<Longrightarrow> P k w"
proof -
  have v: "conforms (Suc (Suc (Suc (Suc 0)))) (JObject docDefinitions) schema v"
    using assms(1) by (simp only: doc_conforms_api conforms_ref [OF assms(2)])
  then obtain ms where ms: "v = JObject ms" using schema by (subst (asm) conforms.simps) (auto split: json.splits)
  have "\<forall>(k, w) \<in> set ms. case Option.bind (member ''properties'' schema) (member k) of
          None \<Rightarrow> False | Some sc \<Rightarrow> conforms (Suc (Suc (Suc 0))) (JObject docDefinitions) sc w"
    using v unfolding ms conforms.simps(2) [of "Suc (Suc (Suc 0))"] schema option.case json.case by (elim conjE)
  then have "P k w" if "(k, w) \<in> set ms" for k w
    using that assms(6) schema(3) by (fastforce split: option.splits simp del: conforms.simps)
  with ms that show ?thesis by blast
qed

lemma decode_members:
  assumes "\<And>k w x. (k, w) \<in> set ms \<Longrightarrow> fst (set_field (fold_name k) w x)"
  shows "fst (decode_struct set_field init (Some (JObject ms)))"
proof -
  have "fst (foldl (\<lambda>(ok, x) (k, w). case set_field (fold_name k) w x of (ok', x') \<Rightarrow> (ok \<and> ok', x')) (True, y) ms)" for y
    using assms
  proof (induction ms arbitrary: y)
    case (Cons m ms)
    have "fst (set_field (fold_name (fst m)) (snd m) y)" using Cons.prems [of "fst m" "snd m"] by simp
    then obtain y' where "set_field (fold_name (fst m)) (snd m) y = (True, y')" by (cases "set_field (fold_name (fst m)) (snd m) y") auto
    with Cons show ?case by (auto split: prod.splits)
  qed simp
  then show ?thesis by (simp add: decode_struct_def)
qed

text \<open>Whether the handler's \<open>Decode\<close> accepts the body.\<close>

definition body_decodes :: "route \<Rightarrow> request \<Rightarrow> bool" where
  "body_decodes rt r =
     (if rt \<in> {PostRegister, PostLogin} then fst (decode_auth r)
      else if rt = PostAccounts then fst (decode_create_account r)
      else if rt = PostTransfers then fst (decode_transfer r)
      else fst (decode_struct set_amount INil (json_parse (Body r))))"

lemma request_schemas:
  "member ''$ref'' schema_AuthRequest = None" "member ''type'' schema_AuthRequest = Some (JString ''object'')"
  "member ''$ref'' schema_CreateAccountRequest = None" "member ''type'' schema_CreateAccountRequest = Some (JString ''object'')"
  "member ''$ref'' schema_AmountRequest = None" "member ''type'' schema_AmountRequest = Some (JString ''object'')"
  "member ''$ref'' schema_TransferRequest = None" "member ''type'' schema_TransferRequest = Some (JString ''object'')"
  "member ''properties'' schema_AuthRequest
     = Some (JObject [(''email'', doc_type ''string''), (''password'', doc_type ''string'')])"
  "member ''properties'' schema_CreateAccountRequest = Some (JObject [(''name'', doc_type ''string'')])"
  "member ''properties'' schema_AmountRequest = Some (JObject [(''amount'', doc_type ''string'')])"
  "member ''properties'' schema_TransferRequest
     = Some (JObject [(''amount'', JObject []), (''from_account_id'', doc_type ''string''),
         (''from_id'', doc_type ''string''), (''to_account_id'', doc_type ''string''), (''to_id'', doc_type ''string'')])"
  by (simp_all add: schema_AuthRequest_def schema_CreateAccountRequest_def schema_AmountRequest_def schema_TransferRequest_def)

lemma folded_names:
  "fold_name ''email'' = ''email''" "fold_name ''password'' = ''password''" "fold_name ''name'' = ''name''"
  "fold_name ''amount'' = ''amount''" "fold_name ''from_id'' = ''from_id''" "fold_name ''to_id'' = ''to_id''"
  "fold_name ''from_account_id'' = ''from_account_id''" "fold_name ''to_account_id'' = ''to_account_id''"
  by code_simp+

lemma decode_documented:
  assumes "doc_conforms api_doc (doc_ref name) v"
    and "map_of docDefinitions (''internal_api.'' @ name) = Some schema"
    and "member ''$ref'' schema = None" "member ''type'' schema = Some (JString ''object'')"
      "member ''properties'' schema = Some (JObject props)"
    and "\<And>k sc w x. map_of props k = Some sc \<Longrightarrow> conforms (Suc (Suc (Suc 0))) (JObject docDefinitions) sc w
           \<Longrightarrow> fst (set_field (fold_name k) w x)"
  shows "fst (decode_struct set_field init (Some v))"
proof -
  obtain ms where "v = JObject ms" and "\<And>k w. (k, w) \<in> set ms \<Longrightarrow> \<forall>x. fst (set_field (fold_name k) w x)"
    using assms by (elim object_members [where P = "\<lambda>k w. \<forall>x. fst (set_field (fold_name k) w x)"]) auto
  then show ?thesis by (simp add: decode_members)
qed

lemma documented_bodies:
  "doc_conforms api_doc (doc_ref ''AuthRequest'') v \<Longrightarrow> fst (decode_struct set_auth a (Some v))"
  "doc_conforms api_doc (doc_ref ''CreateAccountRequest'') v \<Longrightarrow> fst (decode_struct set_create_account nm (Some v))"
  "doc_conforms api_doc (doc_ref ''AmountRequest'') v \<Longrightarrow> fst (decode_struct set_amount am (Some v))"
  "doc_conforms api_doc (doc_ref ''TransferRequest'') v \<Longrightarrow> fst (decode_struct set_transfer tr (Some v))"
  by (erule decode_documented [OF _ _ request_schemas(1,2,9)]
      decode_documented [OF _ _ request_schemas(3,4,10)]
      decode_documented [OF _ _ request_schemas(5,6,11)]
      decode_documented [OF _ _ request_schemas(7,8,12)];
      auto simp: api_schemas conforms_simple folded_names set_auth_def set_create_account_def set_amount_def
        set_transfer_def decode_string_def split: if_splits simp del: conforms.simps)+

lemma documented_decodes:
  assumes "body_schema api_doc rt = Some schema" and "json_parse (Body r) = Some v"
    and "doc_conforms api_doc schema v"
  shows "body_decodes rt r"
  using assms by (auto simp: body_documented body_decodes_def decode_auth_def decode_create_account_def
      decode_transfer_def documented_bodies split: if_splits)

end
