(* ===== verification/Cors.thy ===== *)
theory Cors
  imports Api_Behaviour
begin

section \<open>What a browser may do with the answers\<close>

text \<open>
  The CORS package decides, from the options of \<open>main\<close>, whether a page of another origin may
  read an answer (\<open>Access-Control-Allow-Origin\<close>) and, asked before the request itself, whether
  it may send it. The package is a parameter; the locale \<open>cors_library\<close> states what it documents
  of the options the program sets: an origin must be listed (any is, when the list is empty or
  by a wildcard), and so must each header a preflight asks for.
\<close>

subsection \<open>The package\<close>

abbreviation allow_origin :: string where
  "allow_origin \<equiv> ''Access-Control-Allow-Origin''"

definition is_preflight :: "request \<Rightarrow> bool" where
  "is_preflight r \<longleftrightarrow> Method r = ''OPTIONS'' \<and> Header r ''Access-Control-Request-Method'' \<noteq> []"

definition origin_listed :: "string list \<Rightarrow> string \<Rightarrow> bool" where
  "origin_listed allowed origin \<longleftrightarrow>
     allowed = [] \<or> (\<exists>p \<in> set allowed. CHR ''*'' \<in> set p \<or> ToLower p = ToLower origin)"

text \<open>The headers a preflight asks for, when they are names of letters, digits and hyphens.\<close>

definition header_name :: "string \<Rightarrow> bool" where
  "header_name h \<longleftrightarrow> h \<noteq> []
     \<and> list_all (\<lambda>c. is_digit c \<or> c = CHR ''-'' \<or> (97 \<le> (of_char c :: nat) \<and> (of_char c :: nat) \<le> 122)) h"

definition requested_headers :: "request \<Rightarrow> string list" where
  "requested_headers r = split_on (CHR '','') (Header r ''Access-Control-Request-Headers'')"

definition header_listed :: "string list \<Rightarrow> string \<Rightarrow> bool" where
  "header_listed allowed h \<longleftrightarrow>
     allowed = [] \<or> ''*'' \<in> set allowed \<or> h = ''origin'' \<or> h \<in> ToLower ` set allowed"

locale cors_library =
  fixes C :: cors_lib
  assumes origin: "(allow_origin, v) \<in> set (fst (C opts r)) \<Longrightarrow> origin_listed (AllowedOrigins opts) (Header r ''Origin'')"
    and preflight: "snd (C opts r) = (if is_preflight r then Some 200 else None)"
    and headers: "is_preflight r \<Longrightarrow> list_all header_name (requested_headers r) \<Longrightarrow>
      (allow_origin, v) \<in> set (fst (C opts r)) \<Longrightarrow> list_all (header_listed (AllowedHeaders opts)) (requested_headers r)"

text \<open>One instance: it grants exactly what the laws permit, for methods that are listed.\<close>

definition ref_cors :: cors_lib where
  "ref_cors opts r =
     (let origin = Header r ''Origin'';
          grant = [(allow_origin, origin), (''Access-Control-Allow-Credentials'', ''true'')];
          ok = (origin \<noteq> [] \<and> origin_listed (AllowedOrigins opts) origin)
      in if is_preflight r
         then (if ok \<and> Header r ''Access-Control-Request-Method'' \<in> set (AllowedMethods opts)
                  \<and> (Header r ''Access-Control-Request-Headers'' = []
                     \<or> list_all (header_listed (AllowedHeaders opts)) (requested_headers r))
               then grant else [], Some 200)
         else (if ok \<and> Method r \<in> set (AllowedMethods opts) then grant else [], None))"

interpretation ref_cors: cors_library ref_cors
proof
  fix opts r v
  assume "is_preflight r" "list_all header_name (requested_headers r)" "(allow_origin, v) \<in> set (fst (ref_cors opts r))"
  then show "list_all (header_listed (AllowedHeaders opts)) (requested_headers r)"
    by (auto simp: ref_cors_def Let_def requested_headers_def header_name_def split: if_splits)
qed (auto simp: ref_cors_def Let_def split: if_splits)

subsection \<open>Only the package sets the header\<close>

definition plain :: "wr_call list \<Rightarrow> bool" where
  "plain calls \<longleftrightarrow> (\<forall>v. SetHeader allow_origin v \<notin> set calls)"

lemma plain_simps [simp]:
  "plain []" "plain (WriteHeader code # cs) \<longleftrightarrow> plain cs" "plain (WriteBody b # cs) \<longleftrightarrow> plain cs"
  "plain (SetHeader k v # cs) \<longleftrightarrow> k \<noteq> allow_origin \<and> plain cs" "plain (cs @ ds) \<longleftrightarrow> plain cs \<and> plain ds"
  by (auto simp: plain_def)

lemma plain_respond [simp]: "plain (respondJSON code data)" "plain (respondError code msg)"
  by (simp_all add: respondError_def respondJSON_def)

lemma answers_plain: "answers codes calls \<Longrightarrow> plain calls"
  by (auto simp: answers_def)

lemma users_plain:
  "Handler_Register X W ta r s = (calls, s') \<Longrightarrow> plain calls"
  "Handler_Login X W ta r s = (calls, s') \<Longrightarrow> plain calls"
  by (auto simp: Handler_Register_def Handler_Login_def split: prod.splits sum.splits option.splits if_splits)

lemma probes_plain:
  "health W uptime r s = (calls, s') \<Longrightarrow> plain calls" "ready W r s = (calls, s') \<Longrightarrow> plain calls"
  by (auto simp: health_def ready_def split: prod.splits sum.splits)

lemma IdempotencyMiddleware_plain:
  assumes "\<And>s calls s'. next_handler r s = (calls, s') \<Longrightarrow> plain calls"
    and "IdempotencyMiddleware X W next_handler r s = (calls, s')"
  shows "plain calls"
  using assms(2)
  by (auto simp: IdempotencyMiddleware_def Let_def replay_def split: prod.splits sum.splits option.splits if_splits
      dest: assms(1))

lemma http_Error_plain [simp]: "plain (http_Error msg code)"
  by (simp add: http_Error_def)

lemma PerEndpointLimiter_Middleware_plain:
  assumes "\<And>s calls s'. h r s = (Some calls, s') \<Longrightarrow> plain calls"
    and "PerEndpointLimiter_Middleware L order h t r pel s = ((Some calls, pel'), s')"
  shows "plain calls"
  using assms(2)
  by (auto simp: PerEndpointLimiter_Middleware_def Let_def split: option.splits prod.splits if_splits dest: assms(1))

text \<open>The responses of \<open>jwtauth\<close> are error texts.\<close>

definition rejects_plain :: "('d, 'l) server \<Rightarrow> bool" where
  "rejects_plain S \<longleftrightarrow> (\<forall>r resp. srv_rejects S r = Some resp \<longrightarrow> plain resp)"

lemma serve_route_plain:
  assumes rejects: "rejects_plain S" and run: "serve_route S W rt r (pel, s) = (Some calls, st')"
  shows "plain calls"
proof -
  have chain: "plain calls" if pc: "protected_chain S W rt r (pel, s) = (Some calls, st')" for rt
  proof (cases "srv_rejects S r")
    case None
    let ?h = "\<lambda>r s. case IdempotencyMiddleware (srv_deps S) W (protected_handler (srv_deps S) W rt) r s of
                      (calls, s1) \<Rightarrow> (Some calls, s1)"
    have inner: "plain cs" if h: "?h r t = (Some cs, t')" for t cs t'
    proof -
      from h have "IdempotencyMiddleware (srv_deps S) W (protected_handler (srv_deps S) W rt) r t = (cs, t')"
        by (auto split: prod.splits)
      then show ?thesis by (rule IdempotencyMiddleware_plain [rotated]) (blast dest: protected_answers answers_plain)
    qed
    obtain pel' s' where "PerEndpointLimiter_Middleware (srv_limiter S) (srv_order S (tick s)) ?h
        (now W (tick s)) r pel s = ((Some calls, pel'), s')"
      using pc None by (auto simp: protected_chain_def split: prod.splits)
    with inner show ?thesis by (rule PerEndpointLimiter_Middleware_plain)
  qed (use pc rejects in \<open>simp add: protected_chain_def rejects_plain_def\<close>)
  show ?thesis
    using run by (cases rt) (auto simp: serve_route_def public_route_def split: prod.splits
        dest: chain users_plain probes_plain)
qed

lemma limited_route_plain:
  assumes "rejects_plain S" and "limited_route S W rt r (prc, s) = (Some calls, st')"
  shows "plain calls"
  using assms(2)
  by (auto simp: limited_route_def RateLimiter_Middleware_def split: option.splits prod.splits if_splits
      dest: serve_route_plain [OF assms(1)])

lemma client_headers_calls: "(k, v) \<in> set (client_headers calls) \<Longrightarrow> SetHeader k v \<in> set calls"
proof -
  have "set (pending w') \<subseteq> A \<and> (\<forall>code hs. sent w' = Some (code, hs) \<longrightarrow> set hs \<subseteq> A)"
    if "w' = foldl wr_step w calls" and "set (pending w) \<subseteq> A" "\<forall>code hs. sent w = Some (code, hs) \<longrightarrow> set hs \<subseteq> A"
      "{(k, v). SetHeader k v \<in> set calls} \<subseteq> A" for w w' A
    using that
  proof (induction calls arbitrary: w)
    case (Cons c cs)
    show ?case
      by (rule Cons.IH [of "wr_step w c"])
        (use Cons.prems in \<open>cases c; auto simp: Let_def split: option.splits\<close>)+
  qed simp
  from this [OF refl, of new_writer "{(k, v). SetHeader k v \<in> set calls}"]
  show "(k, v) \<in> set (client_headers calls) \<Longrightarrow> SetHeader k v \<in> set calls"
    by (auto simp: client_headers_def wr_run_def Let_def new_writer_def split: option.splits)
qed

subsection \<open>Answers of the whole server\<close>

definition set_headers :: "(string \<times> string) list \<Rightarrow> wr_call list" where
  "set_headers hs = map (\<lambda>(k, v). SetHeader k v) hs"

lemma set_headers_in [simp]: "SetHeader k v \<in> set (set_headers hs) \<longleftrightarrow> (k, v) \<in> set hs"
  by (auto simp: set_headers_def)

text \<open>
  A preflight is answered by the package and goes no further; any other answer is the security
  headers, the headers of the package and what the limited route wrote.
\<close>

lemma serve_cases:
  assumes "serve S W rt r (prc, s) = (Some calls, (prc', s'))"
    and "srv_cors S (corsOptions (srv_env S)) (r\<lparr>Body := take 1048576 (Body r)\<rparr>) = (hs, code)"
  obtains c where "code = Some c" "calls = security_headers @ set_headers hs @ [WriteHeader c]" "s' = s"
    "prc_global prc' = prc_global prc" "prc_endpoint prc' = prc_endpoint prc"
  | prc1 cs prc2 where "code = None" "calls = security_headers @ set_headers hs @ cs"
    "prc_global prc1 = prc_global prc" "prc_endpoint prc1 = prc_endpoint prc"
    "limited_route S W rt (r\<lparr>Body := take 1048576 (Body r)\<rparr>) (prc1, s) = (Some cs, (prc2, s'))"
proof (cases code)
  case None
  let ?r = "r\<lparr>Body := take 1048576 (Body r)\<rparr>"
  let ?prc = "prc\<lparr>prc_log := prc_log prc @ [Received (srv_request_id S ?r (tick s)) (Method r) (Path r)
                                             (RemoteAddr r) (Header r ''User-Agent'')]\<rparr>"
  obtain resp prc2 s2 where lim: "limited_route S W rt ?r (?prc, s) = (resp, (prc2, s2))"
    by (metis prod.collapse)
  with assms None obtain cs where "resp = Some cs" "calls = security_headers @ set_headers hs @ cs" "s2 = s'"
    by (auto simp: serve_def middleware_defs set_headers_def split: prod.splits option.splits)
  with lim None show ?thesis by (intro that(2) [of cs ?prc prc2]) simp_all
next
  case (Some c)
  with assms show ?thesis
    by (intro that(1) [of c]) (auto simp: serve_def middleware_defs set_headers_def split: prod.splits)
qed

lemma serve_allow_origin:
  assumes cors: "cors_library (srv_cors S)" and rejects: "rejects_plain S"
    and run: "serve S W rt r (prc, s) = (Some calls, (prc', s'))"
    and granted: "(allow_origin, v) \<in> set (client_headers calls)"
  shows "origin_listed (parseAllowedOrigins (srv_env S)) (Header r ''Origin'')"
proof -
  let ?r = "r\<lparr>Body := take 1048576 (Body r)\<rparr>"
  obtain hs code where lib: "srv_cors S (corsOptions (srv_env S)) ?r = (hs, code)" by force
  have "SetHeader allow_origin v \<in> set calls" using granted by (rule client_headers_calls)
  moreover have "plain calls \<or> SetHeader allow_origin v \<notin> set calls \<or> (allow_origin, v) \<in> set hs"
    using run lib
  proof (cases rule: serve_cases)
    case (2 prc1 cs prc2)
    with limited_route_plain [OF rejects] have "plain cs" by blast
    with 2 show ?thesis by (auto simp: plain_def security_headers_def)
  qed (auto simp: security_headers_def)
  ultimately have "(allow_origin, v) \<in> set (fst (srv_cors S (corsOptions (srv_env S)) ?r))"
    by (auto simp: plain_def lib)
  from cors_library.origin [OF cors this] show ?thesis by (simp add: corsOptions_def)
qed

text \<open>Neither name of the idempotency header is one a preflight may ask for.\<close>

lemma key_header_not_listed:
  "h \<in> {''idempotency-key'', ''x-idempotency-key''} \<Longrightarrow> \<not> header_listed (AllowedHeaders (corsOptions getenv)) h"
proof -
  have "ToLower ` set (AllowedHeaders (corsOptions getenv)) = {''accept'', ''authorization'', ''content-type''}"
  proof -
    have "map ToLower [''Accept'', ''Authorization'', ''Content-Type''] = [''accept'', ''authorization'', ''content-type'']"
      by code_simp
    then show ?thesis by (simp add: corsOptions_def)
  qed
  then show "h \<in> {''idempotency-key'', ''x-idempotency-key''} \<Longrightarrow> ?thesis"
    by (auto simp: header_listed_def corsOptions_def)
qed

lemma preflight_for_key:
  assumes cors: "cors_library (srv_cors S)" and pre: "is_preflight r"
    and names: "list_all header_name (requested_headers r)"
    and key: "''idempotency-key'' \<in> set (requested_headers r) \<or> ''x-idempotency-key'' \<in> set (requested_headers r)"
    and run: "serve S W rt r (prc, s) = (resp, (prc', s'))"
  shows "\<exists>calls. resp = Some calls \<and> client_status calls = 200
           \<and> (\<forall>v. (allow_origin, v) \<notin> set (client_headers calls)) \<and> s' = s"
proof -
  let ?r = "r\<lparr>Body := take 1048576 (Body r)\<rparr>"
  have same: "is_preflight ?r" "requested_headers ?r = requested_headers r"
    using pre by (simp_all add: is_preflight_def requested_headers_def)
  obtain hs where lib: "srv_cors S (corsOptions (srv_env S)) ?r = (hs, Some 200)"
    using cors_library.preflight [OF cors, of "corsOptions (srv_env S)" ?r] same by (metis prod.collapse)
  have none: "(allow_origin, v) \<notin> set hs" for v
    using cors_library.headers [OF cors same(1), of v "corsOptions (srv_env S)"] names key key_header_not_listed lib same(2)
    by (auto simp: list_all_iff)
  from run lib obtain calls where "resp = Some calls" and s': "s' = s"
    and calls: "calls = security_headers @ set_headers hs @ [WriteHeader 200]"
    by (auto simp: serve_def middleware_defs set_headers_def split: prod.splits option.splits)
  moreover have "first_status (set_headers hs @ cs) = first_status cs" for cs
    by (induction hs) (auto simp: set_headers_def)
  then have "client_status calls = 200" by (simp add: client_status_first calls security_headers_def)
  moreover have "(allow_origin, v) \<notin> set (client_headers calls)" for v
    using client_headers_calls [of allow_origin v calls] none [of v] by (auto simp: calls security_headers_def)
  ultimately show ?thesis by blast
qed

end
