(* ===== verification/Served_Rates.thy ===== *)
theory Served_Rates
  imports Server
begin

section \<open>The rate limit and the log of a running server\<close>

text \<open>
  \<open>Rate_Bounds\<close> bounds what one limiter lets through. Here the bound is carried to the process:
  the events that reach its global limiter are read off a run of \<open>serve_all\<close>, their times grow
  because the clock does, and a request it refused was answered with status 429.
\<close>

subsection \<open>What reaches the global limiter\<close>

definition size_limited :: "request \<Rightarrow> request" where
  "size_limited r = r\<lparr>Body := take 1048576 (Body r)\<rparr>"

text \<open>The CORS package answers a preflight itself, before the limiter.\<close>

definition preflight_answered :: "('d, 'l) server \<Rightarrow> request \<Rightarrow> bool" where
  "preflight_answered S r \<longleftrightarrow> snd (srv_cors S (corsOptions (srv_env S)) (size_limited r)) \<noteq> None"

text \<open>The client name the limiter counts a request for, if it sees the request.\<close>

definition limited_client :: "('d, 'l) server \<Rightarrow> request \<Rightarrow> string option" where
  "limited_client S r = (if preflight_answered S r then None else middleware_client r)"

text \<open>A client chooses its name, and as many names as it likes.\<close>

lemma client_name_chosen:
  "ContextUserID r = INil \<Longrightarrow> key \<noteq> [] \<Longrightarrow>
    middleware_client (r\<lparr>Header := (Header r)(''X-API-Key'' := key)\<rparr>) = Some (''api:'' @ key)"
  by (simp add: middleware_client_def)

fun global_events ::
  "('d, 'l) server \<Rightarrow> world \<Rightarrow> server_event list \<Rightarrow> 'l process \<times> session \<Rightarrow> limiter_event list" where
  "global_events S W [] st = []"
| "global_events S W (Incoming rt r # evs) (prc, s) =
     (let rest = global_events S W evs (snd (serve S W rt r (prc, s)))
      in case limited_client S r of None \<Rightarrow> rest | Some c \<Rightarrow> Request c (now W (tick s)) # rest)"
| "global_events S W (CleanupTick name # evs) (prc, s) =
     (let rest = global_events S W evs (cleanup_process (now W (tick s)) name prc, s)
      in if name = GlobalLimiter then Cleanup (now W (tick s)) # rest else rest)"

text \<open>Any answer but the one with status 429; a panic counts as an answer.\<close>

definition let_through :: "wr_call list option \<Rightarrow> bool" where
  "let_through resp \<longleftrightarrow> (case resp of None \<Rightarrow> True | Some calls \<Rightarrow> client_status calls \<noteq> 429)"

text \<open>The requests under the name \<open>c\<close> that are no preflights and are answered, but not with 429.\<close>

fun answered_to :: "('d, 'l) server \<Rightarrow> string \<Rightarrow> server_event list \<Rightarrow> wr_call list option list \<Rightarrow> nat" where
  "answered_to S c (Incoming rt r # evs) (resp # resps) =
     (if middleware_client r = Some c \<and> \<not> preflight_answered S r \<and> let_through resp then 1 else 0) + answered_to S c evs resps"
| "answered_to S c (CleanupTick name # evs) resps = answered_to S c evs resps"
| "answered_to S c _ _ = 0"

subsection \<open>One request\<close>

lemma first_status_headers [simp]: "first_status (map (\<lambda>(k, v). SetHeader k v) hs @ cs) = first_status cs"
  by (induction hs) auto

lemma RateLimiter_Middleware_decision:
  assumes "RateLimiter_Middleware L h t r rl s = ((resp, rl'), s')"
  shows "middleware_client r = None \<Longrightarrow> rl' = rl"
    and "middleware_client r = Some c \<Longrightarrow>
           \<exists>ok. allow_client L rl c t = (ok, rl') \<and> (\<not> ok \<longrightarrow> (\<exists>cs. resp = Some cs \<and> first_status cs = 429))"
  using assms by (auto simp: RateLimiter_Middleware_def http_Error_def split: prod.splits if_splits)

lemma serve_decision:
  assumes run: "serve S W rt r (prc, s) = (resp, (prc', s'))"
  shows "limited_client S r = None \<Longrightarrow> prc_global prc' = prc_global prc"
    and "limited_client S r = Some c \<Longrightarrow>
           \<exists>ok. allow_client (srv_limiter S) (prc_global prc) c (now W (tick s)) = (ok, prc_global prc')
              \<and> (\<not> ok \<longrightarrow> \<not> let_through resp)"
proof -
  let ?r = "size_limited r"
  let ?prc = "prc\<lparr>prc_log := prc_log prc @ [Received (srv_request_id S ?r (tick s)) (Method r) (Path r)
                                             (RemoteAddr r) (Header r ''User-Agent'')]\<rparr>"
  obtain hs code where lib: "srv_cors S (corsOptions (srv_env S)) ?r = (hs, code)" by force
  obtain cs rl pel s2 where lim: "RateLimiter_Middleware (srv_limiter S) (serve_route S W rt) (now W (tick s)) ?r
      (prc_global prc) (prc_endpoint prc, s) = ((cs, rl), (pel, s2))"
    by (metis prod.collapse)
  have same: "middleware_client ?r = middleware_client r" by (simp add: middleware_client_def size_limited_def split: iface.split)
  have out: "code = None \<Longrightarrow> prc_global prc' = rl
      \<and> (\<forall>calls. cs = Some calls \<longrightarrow> (\<exists>all. resp = Some all \<and> first_status all = first_status calls))"
    using run lib lim
    by (auto simp: serve_def middleware_defs limited_route_def security_headers_def size_limited_def
        split: prod.splits option.splits)
  have pre: "code \<noteq> None \<Longrightarrow> prc_global prc' = prc_global prc"
    using run lib by (auto simp: serve_def middleware_defs size_limited_def split: prod.splits)
  show "limited_client S r = None \<Longrightarrow> prc_global prc' = prc_global prc"
    using out pre RateLimiter_Middleware_decision(1) [OF lim] same
    by (auto simp: limited_client_def preflight_answered_def lib split: if_splits)
  assume "limited_client S r = Some c"
  then have "code = None" "middleware_client ?r = Some c"
    by (auto simp: limited_client_def preflight_answered_def lib same split: if_splits)
  with out RateLimiter_Middleware_decision(2) [OF lim] obtain ok
    where "allow_client (srv_limiter S) (prc_global prc) c (now W (tick s)) = (ok, prc_global prc')"
      and "\<not> ok \<longrightarrow> (\<exists>all. resp = Some all \<and> first_status all = 429)"
    by metis
  then show "\<exists>ok. allow_client (srv_limiter S) (prc_global prc) c (now W (tick s)) = (ok, prc_global prc')
              \<and> (\<not> ok \<longrightarrow> \<not> let_through resp)"
    by (auto simp: let_through_def client_status_first)
qed

lemma serve_preflight:
  assumes "preflight_answered S r" and "serve S W rt r (prc, s) = (resp, (prc', s'))"
  shows "s' = s \<and> prc_global prc' = prc_global prc \<and> prc_endpoint prc' = prc_endpoint prc"
  using assms by (auto simp: preflight_answered_def serve_def middleware_defs size_limited_def split: prod.splits)

lemma cleanup_process_global:
  "prc_global (cleanup_process t name prc)
     = (if name = GlobalLimiter then cleanup t (prc_global prc) else prc_global prc)"
  by (cases name) (simp_all add: cleanup_process_def Let_def)

subsection \<open>The whole run\<close>

lemma answered_decisions:
  assumes "serve_all S W evs (prc, s) = (resps, st')"
  shows "answered_to S c evs resps
           \<le> count_true (request_decisions (srv_limiter S) (prc_global prc) c (global_events S W evs (prc, s)))"
  using assms
proof (induction evs arbitrary: prc s resps)
  case Nil
  then show ?case by simp
next
  case (Cons ev evs)
  show ?case
  proof (cases ev)
    case (Incoming rt r)
    with Cons.prems obtain resp prc1 s1 rest where run: "serve S W rt r (prc, s) = (resp, (prc1, s1))"
      and later: "serve_all S W evs (prc1, s1) = (rest, st')" and resps: "resps = resp # rest"
      by (auto split: prod.splits)
    note IH = Cons.IH [OF later]
    show ?thesis
    proof (cases "limited_client S r")
      case None
      with IH serve_decision(1) [OF run] show ?thesis by (auto simp: Incoming resps run limited_client_def split: if_splits)
    next
      case (Some d)
      from serve_decision(2) [OF run Some] obtain ok
        where "allow_client (srv_limiter S) (prc_global prc) d (now W (tick s)) = (ok, prc_global prc1)"
          and "\<not> ok \<longrightarrow> \<not> let_through resp" by blast
      with IH Some show ?thesis by (auto simp: Incoming resps run limited_client_def split: if_splits)
    qed
  next
    case (CleanupTick name)
    with Cons.prems have "serve_all S W evs (cleanup_process (now W (tick s)) name prc, s) = (resps, st')" by simp
    from Cons.IH [OF this] show ?thesis by (auto simp: CleanupTick cleanup_process_global Let_def)
  qed
qed

lemma global_events_times:
  assumes clock: "mono (now W)"
  shows "sorted (map event_time (global_events S W evs (prc, s)))
    \<and> (\<forall>e \<in> set (global_events S W evs (prc, s)). now W (tick s) \<le> event_time e)"
proof (induction evs arbitrary: prc s)
  case Nil
  then show ?case by simp
next
  case (Cons ev evs)
  show ?case
  proof (cases ev)
    case (Incoming rt r)
    obtain resp prc1 s1 where run: "serve S W rt r (prc, s) = (resp, (prc1, s1))" by (metis prod.collapse)
    have "now W (tick s) \<le> now W (tick s1)"
      using passing.every.serve_rel [OF refl TrueI run] clock by (simp add: later_def monoD)
    with Cons.IH [of prc1 s1] have later: "sorted (map event_time (global_events S W evs (prc1, s1)))"
      "\<forall>e \<in> set (global_events S W evs (prc1, s1)). now W (tick s) \<le> event_time e" by auto
    show ?thesis
      by (cases "limited_client S r") (use later in \<open>auto simp: Incoming run\<close>)
  next
    case (CleanupTick name)
    with Cons.IH [of "cleanup_process (now W (tick s)) name prc" s] show ?thesis by (auto simp: Let_def)
  qed
qed

lemma served_bound:
  assumes "token_bucket (srv_limiter S)" and "mono (now W)"
    and run: "serve_all S W evs (main_process base, s) = (resps, st')"
    and times: "request_times c (global_events S W evs (main_process base, s)) = u # us"
  shows "of_nat (answered_to S c evs resps) \<le> 50 + 100 * seconds u (last (u # us))"
proof -
  let ?evs = "global_events S W evs (main_process base, s)"
  let ?rl = "prc_global (main_process base)"
  have rl: "clients ?rl c = None" "0 \<le> rl_rate ?rl" "0 \<le> rl_burst ?rl"
    "of_int (rl_burst ?rl) \<le> rl_rate ?rl * (of_int (rl_ttl ?rl) / 1000000000)"
    unfolding main_process_def process.simps by (rule globalLimiter_refills)+
  have "sorted (map event_time ?evs)" using global_events_times [OF assms(2)] by blast
  from token_bucket.new_client_bound [OF assms(1) rl(1) times this rl(2-4)] answered_decisions [OF run, of c]
  have "of_nat (answered_to S c evs resps) \<le> of_int (rl_burst ?rl) + rl_rate ?rl * seconds u (last (u # us))"
    by (meson of_nat_mono order.trans)
  then show ?thesis by (simp add: main_process_def globalLimiter_def NewRateLimiter_def)
qed

subsection \<open>The log\<close>

text \<open>
  The log only grows, and holds one line for each request in the order they came, whatever was
  answered; a panic leaves out the second line only.
\<close>

definition received_line :: "('d, 'l) server \<Rightarrow> session \<Rightarrow> request \<Rightarrow> log_line" where
  "received_line S s r =
     Received (srv_request_id S (size_limited r) (tick s)) (Method r) (Path r) (RemoteAddr r) (Header r ''User-Agent'')"

fun is_Received :: "log_line \<Rightarrow> bool" where
  "is_Received (Received i m p a g) \<longleftrightarrow> True"
| "is_Received (Completed st n d i) \<longleftrightarrow> False"

lemma limited_route_log: "limited_route S W rt r (prc, s) = (resp, (prc', s')) \<Longrightarrow> prc_log prc' = prc_log prc"
  by (auto simp: limited_route_def split: prod.splits)

lemma serve_log:
  assumes "serve S W rt r (prc, s) = (resp, (prc', s'))"
  shows "\<exists>rest. prc_log prc' = prc_log prc @ received_line S s r # rest
    \<and> (if resp = None then rest = []
       else \<exists>status bytes. rest = [Completed status bytes (now W (tick s') - now W (tick s))
                                     (srv_request_id S (size_limited r) (tick s))])"
proof -
  let ?r = "size_limited r" and ?prc = "prc\<lparr>prc_log := prc_log prc @ [received_line S s r]\<rparr>"
  obtain cs prc1 s1 where mid: "cors_Handler (srv_cors S) (corsOptions (srv_env S)) (limited_route S W rt) ?r (?prc, s)
      = (cs, (prc1, s1))" by (metis prod.collapse)
  then have "prc_log prc1 = prc_log prc @ [received_line S s r]"
    by (auto simp: cors_Handler_def split: prod.splits option.splits dest: limited_route_log)
  with assms mid show ?thesis
    by (auto simp: serve_def securityHeaders_def requestSizeLimiter_def loggingMiddleware_def Let_def
        received_line_def size_limited_def split: prod.splits option.splits)
qed

text \<open>Over a whole run: the arrival lines are the requests, in their order.\<close>

fun incoming :: "server_event list \<Rightarrow> request list" where
  "incoming [] = []"
| "incoming (Incoming rt r # evs) = r # incoming evs"
| "incoming (CleanupTick name # evs) = incoming evs"

definition arrivals :: "log_line list \<Rightarrow> (string \<times> string \<times> string \<times> string) list" where
  "arrivals lg = map (\<lambda>l. (log_method l, log_path l, log_remote l, log_agent l)) (filter is_Received lg)"

lemma serve_all_log:
  assumes "serve_all S W evs (prc, s) = (resps, (prc', s'))"
  shows "arrivals (prc_log prc')
     = arrivals (prc_log prc) @ map (\<lambda>r. (Method r, Path r, RemoteAddr r, Header r ''User-Agent'')) (incoming evs)"
  using assms
proof (induction evs arbitrary: prc s resps)
  case Nil
  then show ?case by simp
next
  case (Cons ev evs)
  show ?case
  proof (cases ev)
    case (Incoming rt r)
    with Cons.prems obtain resp prc1 s1 rest where run: "serve S W rt r (prc, s) = (resp, (prc1, s1))"
      and more: "serve_all S W evs (prc1, s1) = (rest, (prc', s'))"
      by (auto split: prod.splits)
    have "arrivals (prc_log prc1) = arrivals (prc_log prc) @ [(Method r, Path r, RemoteAddr r, Header r ''User-Agent'')]"
      using serve_log [OF run] by (auto simp: arrivals_def received_line_def split: if_splits)
    with Cons.IH [OF more] show ?thesis by (simp add: Incoming)
  next
    case (CleanupTick name)
    have "prc_log (cleanup_process t n prc) = prc_log prc" for t n
      by (cases n) (simp_all add: cleanup_process_def Let_def)
    with Cons CleanupTick show ?thesis by simp
  qed
qed

end
