(* ===== verification/Metrics.thy ===== *)
theory Metrics
  imports Server
begin

section \<open>internal/api/metrics.go: what the handlers report to Prometheus\<close>

text \<open>
  The two collectors with their options, and the observations the handlers make. \<open>Deposit\<close> and
  \<open>Transfer\<close> begin with a \<open>defer\<close> that observes the time since their first line, whichever way
  they return; no other handler touches a collector, and nothing increments the counter. What
  Prometheus computes from the observations is its own business.
\<close>

subsection \<open>The collectors\<close>

record HistogramOpts =
  hist_Name :: string
  hist_Help :: string
  hist_Buckets :: "rat list"
  hist_Labels :: "string list"

record CounterOpts =
  count_Name :: string
  count_Help :: string
  count_Labels :: "string list"

definition TransactionLatency :: HistogramOpts where
  "TransactionLatency =
     \<lparr>hist_Name = ''ledger_transaction_duration_seconds'',
      hist_Help = ''Latency of ledger transaction executions in seconds.'',
      hist_Buckets = [5 / 1000, 1 / 100, 25 / 1000, 5 / 100, 1 / 10, 25 / 100, 5 / 10, 1, 25 / 10, 5],
      hist_Labels = [''operation'']\<rparr>"

definition TransactionCount :: CounterOpts where
  "TransactionCount =
     \<lparr>count_Name = ''ledger_transactions_total'',
      count_Help = ''Total count of ledger transaction execution attempts.'',
      count_Labels = [''operation'', ''status'']\<rparr>"

text \<open>Prometheus refuses a histogram whose bounds do not increase, and two metrics of one name.\<close>

lemma collectors_registered:
  "sorted (hist_Buckets TransactionLatency)" "distinct (hist_Buckets TransactionLatency)"
  "hist_Name TransactionLatency \<noteq> count_Name TransactionCount"
  by (simp_all add: TransactionLatency_def TransactionCount_def)

text \<open>The observations so far: label and nanoseconds; the increments: their labels.\<close>

record collected =
  observed :: "(string \<times> time) list"
  counted :: "string list list"

subsection \<open>Handlers that time themselves\<close>

fun timed_operation :: "route \<Rightarrow> string option" where
  "timed_operation PostDeposit = Some ''deposit''"
| "timed_operation PostTransfers = Some ''transfer''"
| "timed_operation _ = None"

definition metered :: "'d deps \<Rightarrow> world \<Rightarrow> route \<Rightarrow> request \<Rightarrow> session \<times> collected \<Rightarrow> wr_call list \<times> session \<times> collected" where
  "metered X W rt r st =
     (case st of (s, m) \<Rightarrow>
      let startTime = now W (tick s)
      in case protected_handler X W rt r s of
           (calls, s1) \<Rightarrow>
             (calls, s1,
              case timed_operation rt of
                None \<Rightarrow> m
              | Some operation \<Rightarrow> m\<lparr>observed := observed m @ [(operation, now W (tick s1) - startTime)]\<rparr>))"

fun metered_all :: "'d deps \<Rightarrow> world \<Rightarrow> (route \<times> request) list \<Rightarrow> session \<times> collected \<Rightarrow> session \<times> collected" where
  "metered_all X W [] st = st"
| "metered_all X W ((rt, r) # calls) st = metered_all X W calls (snd (metered X W rt r st))"

text \<open>Measuring changes neither the answer nor the session.\<close>

lemma metered_transparent:
  "metered X W rt r (s, m) = (calls, s1, m1) \<Longrightarrow> protected_handler X W rt r s = (calls, s1)"
  by (auto simp: metered_def Let_def split: prod.splits)

lemma metered_observed:
  "metered X W rt r (s, m) = (calls, s1, m1) \<Longrightarrow>
    observed m1 = observed m @ (case timed_operation rt of None \<Rightarrow> []
      | Some operation \<Rightarrow> [(operation, now W (tick s1) - now W (tick s))]) \<and> counted m1 = counted m"
  by (auto simp: metered_def Let_def split: prod.splits option.splits)

text \<open>
  After any sequence of handler runs, whatever they answered, there are as many observations of
  an operation as runs of its handler, none of a withdrawal, and no increment at all; no
  observation is negative as long as the clock does not go back.
\<close>

lemma observations_counted:
  assumes "metered_all X W calls (s, m) = (s', m')"
  shows "length (filter (\<lambda>ob. fst ob = operation) (observed m'))
       = length (filter (\<lambda>ob. fst ob = operation) (observed m))
         + length (filter (\<lambda>c. timed_operation (fst c) = Some operation) calls)"
    and "counted m' = counted m"
proof -
  let ?obs = "\<lambda>m. length (filter (\<lambda>ob. fst ob = operation) (observed m))"
  have "?obs m' = ?obs m + length (filter (\<lambda>c. timed_operation (fst c) = Some operation) calls) \<and> counted m' = counted m"
    using assms
  proof (induction calls arbitrary: s m)
    case (Cons c calls)
    obtain rt r where c: "c = (rt, r)" by force
    obtain x s1 m1 where one: "metered X W rt r (s, m) = (x, s1, m1)" by (metis prod.collapse)
    with Cons.prems c have "metered_all X W calls (s1, m1) = (s', m')" by simp
    from Cons.IH [OF this] metered_observed [OF one] c show ?case by (simp split: option.splits)
  qed simp
  then show "?obs m' = ?obs m + length (filter (\<lambda>c. timed_operation (fst c) = Some operation) calls)"
    and "counted m' = counted m" by simp_all
qed

lemma withdrawals_not_observed: "timed_operation rt \<noteq> Some ''withdraw''"
  by (cases rt) simp_all

lemma observations_nonneg:
  assumes "mono (now W)" and "metered_all X W calls (s, m) = (s', m')" and "\<forall>ob \<in> set (observed m). 0 \<le> snd ob"
  shows "\<forall>ob \<in> set (observed m'). 0 \<le> snd ob"
  using assms(2,3)
proof (induction calls arbitrary: s m)
  case (Cons c calls)
  obtain rt r where c: "c = (rt, r)" by force
  obtain x s1 m1 where one: "metered X W rt r (s, m) = (x, s1, m1)" by (metis prod.collapse)
  with Cons.prems(1) c have rest: "metered_all X W calls (s1, m1) = (s', m')" by simp
  have "now W (tick s) \<le> now W (tick s1)"
    using passing.protected_handler_rel [OF metered_transparent [OF one]] assms(1) by (simp add: later_def monoD)
  with Cons.prems(2) metered_observed [OF one] have "\<forall>ob \<in> set (observed m1). 0 \<le> snd ob"
    by (auto split: option.splits)
  from Cons.IH [OF rest this] show ?case .
qed simp

end
