(* ===== verification/Scenario.thy ===== *)
theory Scenario
  imports Json_Roundtrip Ownership Lock_Victims Api_Conformance Cors Served_Rates Metrics
begin

section \<open>A concrete ledger to evaluate on\<close>

text \<open>
  Two users, an account for each and the settlement account, after one deposit of 100.0000 to
  the first; a world without faults whose random identifiers count up; requests of the first
  user. The contracts of the other theories are interpreted on it, and the witnesses of the
  properties evaluate here.
\<close>

definition demo_world :: world where
  "demo_world =
     \<lparr>fault = \<lambda>t. NoFault, fresh = \<lambda>t. of_nat (t + 100), now = \<lambda>t. int t, interfere = \<lambda>t d. d,
      cancelled = \<lambda>t. None\<rparr>"

definition demo_account :: "uuid \<Rightarrow> uuid option \<Rightarrow> string \<Rightarrow> int \<Rightarrow> int Account" where
  "demo_account i owner name bal =
     \<lparr>acc_ID = i, acc_OwnerID = owner, acc_Name = name, acc_Balance = bal, acc_Currency = ''USD'',
      acc_IsSystem = (owner = None), acc_CreatedAt = Some 0\<rparr>"

definition demo_entry :: "uuid \<Rightarrow> uuid \<Rightarrow> int \<Rightarrow> int \<Rightarrow> int Entry" where
  "demo_entry i acc dr cr =
     \<lparr>ent_ID = i, ent_AccountID = acc, ent_Debit = dr, ent_Credit = cr, ent_TransactionID = 30,
      ent_OperationType = ''deposit'', ent_Description = None, ent_CreatedAt = Some 0\<rparr>"

definition demo_user :: "uuid \<Rightarrow> string \<Rightarrow> User" where
  "demo_user i email =
     \<lparr>usr_ID = i, usr_Email = email, usr_HashedPassword = ''$2a$pw'', usr_CreatedAt = Some 0\<rparr>"

definition demo_db :: database where
  "demo_db =
     \<lparr>users = [demo_user 1 ''a@x'', demo_user 2 ''b@x''],
      accounts = [demo_account 10 None ''Settlement Account'' (- 1000000),
                  demo_account 11 (Some 1) ''A'' 1000000, demo_account 12 (Some 2) ''B'' 0],
      entries = [demo_entry 20 11 0 1000000, demo_entry 21 10 1000000 0],
      idempotency_keys = []\<rparr>"

definition demo_session :: session where
  "demo_session = fresh_session demo_db"

definition demo_request :: "string \<Rightarrow> string \<Rightarrow> string \<Rightarrow> request" where
  "demo_request method ident body =
     \<lparr>Method = method, Path = ''/'', Header = (\<lambda>h. if h = ''X-Idempotency-Key'' then ''key'' else []),
      Query = (\<lambda>q. []), URLParam = (\<lambda>p. ident), Body = body,
      Claims = Inr (\<lambda>c. if c = ''user_id'' then Some (JString ''1'') else None),
      RemoteAddr = ''10.0.0.1:4711'', ContextUserID = INil\<rparr>"

definition demo_env :: env where
  "demo_env v = (if v = ''JWT_SECRET'' then ''0123456789abcdef0123456789abcdef''
                 else if v = ''ENVIRONMENT'' then ''production''
                 else if v = ''PROD_FRONTEND_URL'' then ''https://bank.example'' else [])"

definition demo_server :: "(ref_decimal, ref_limiter) server" where
  "demo_server =
     \<lparr>srv_env = demo_env, srv_deps = ref_deps, srv_token = Some ''secret'', srv_rejects = (\<lambda>r. None), srv_uptime = (\<lambda>t. ''1s''),
      srv_limiter = ref_limiter_lib, srv_order = (\<lambda>t. [''/accounts/*'', ''/login'', ''/register'']),
      srv_request_id = (\<lambda>r t. ''request''), srv_wrapped = (\<lambda>calls. (client_status calls, length (client_body calls))),
      srv_cors = ref_cors\<rparr>"

definition demo_process :: "ref_limiter process" where
  "demo_process = main_process (NewPerEndpointLimiter 10 5)"

lemma demo_quiet: "quiet demo_world"
  by (simp add: quiet_def demo_world_def)

lemma demo_inv: "ledger_inv demo_db"
proof -
  have "settlement_ok demo_db"
    by (simp add: settlement_ok_def demo_db_def demo_account_def is_settlement_def exI [of _ "10::uuid"])
  moreover have "transactions_ok demo_db"
    by (simp add: transactions_ok_def demo_db_def demo_entry_def)
  ultimately show ?thesis
    by (auto simp: ledger_inv_def keys_ok_def refs_ok_def entries_ok_def cache_ok_def total_balance_def
        solvent_def currency_ok_def in_range_def demo_db_def demo_account_def demo_entry_def demo_user_def
        single_sided_def numeric_limit_def is_settlement_def)
qed

lemma demo_session_simps [simp]:
  "sdb demo_session = demo_db" "tick demo_session = 0" "tx_time demo_session = None" "slept demo_session = 0"
  by (simp_all add: demo_session_def fresh_session_def)

text \<open>Another server's world: the same database, identifiers of its own.\<close>

definition demo_peer :: world where
  "demo_peer = demo_world\<lparr>fresh := \<lambda>t. of_nat (t + 1000)\<rparr>"

lemma demo_peer_quiet: "quiet demo_peer"
  by (simp add: quiet_def demo_peer_def demo_world_def)

lemma small_ids: "m < 10000 \<Longrightarrow> n < 10000 \<Longrightarrow> (of_nat m :: uuid) = of_nat n \<longleftrightarrow> m = n"
  by (simp add: word_of_nat_eq_iff take_bit_nat_eq_self)

lemma demo_fresh_window:
  assumes "n + k < 1000"
  shows "fresh_entries demo_world n k demo_db" and "fresh_entries demo_peer n k demo_db"
proof -
  have "ent_ID ` set (entries demo_db) = of_nat ` {20, 21}" by (simp add: demo_db_def demo_entry_def)
  then have "(of_nat m :: uuid) \<notin> ent_ID ` set (entries demo_db)" if "100 \<le> m" "m < 10000" for m
    using that small_ids [of m 20] small_ids [of m 21] by simp
  moreover have "inj_on (\<lambda>t. of_nat (t + c) :: uuid) {n..<n + k}" if "c \<le> 1000" for c
    using assms that small_ids by (auto simp: inj_on_def simp del: of_nat_add)
  ultimately show "fresh_entries demo_world n k demo_db" and "fresh_entries demo_peer n k demo_db"
    using assms by (auto simp: fresh_entries_def demo_world_def demo_peer_def simp del: of_nat_add)
qed

lemma demo_disjoint: "fresh demo_world ` {0..<10} \<inter> fresh demo_peer ` {0..<10} = {}"
proof -
  have "fresh demo_world m \<noteq> fresh demo_peer n" if "m < 10" "n < 10" for m n
    using that small_ids [of "m + 100" "n + 1000"] by (simp add: demo_world_def demo_peer_def del: of_nat_add)
  then show ?thesis by auto
qed

lemma demo_fresh: "fresh_entries demo_world 0 8 demo_db"
  by (rule demo_fresh_window(1)) simp

interpretation demo: quiet_api demo_world ref_deps ref_num
  by unfold_locales (rule demo_quiet)

subsection \<open>Amounts and operations on the concrete ledger\<close>

lemma demo_parse: "NewFromString ref_deps ''1.5'' = Some (15, 1)"
proof -
  have "numeric_parse ''1.5'' = Some (15, 1)" by code_simp
  then show ?thesis by (simp add: ref_deps_def)
qed

lemma demo_num: "ref_num (15, Suc 0) = 3 / 2" "ref_num (15, 1) = 3 / 2" "round4 (3 / 2) = 15000"
  by (simp_all add: ref_num_def round4_def floor_eq_iff)

lemma demo_accounts:
  "account_of demo_db 10 = Some (demo_account 10 None ''Settlement Account'' (- 1000000))"
  "account_of demo_db 11 = Some (demo_account 11 (Some 1) ''A'' 1000000)"
  "account_of demo_db 12 = Some (demo_account 12 (Some 2) ''B'' 0)"
  "settlement_id demo_db = Some 10"
  by (simp_all add: account_of_def demo_db_def demo_account_def settlement_id_def is_settlement_def)

lemma demo_balances:
  "balance_of demo_db 10 = Some (- 1000000)" "balance_of demo_db 11 = Some 1000000" "balance_of demo_db 12 = Some 0"
  by (simp_all add: balance_of_def demo_accounts) (simp_all add: demo_account_def)

lemma demo_account_simps [simp]:
  "acc_Balance (demo_account i ow nm b) = b" "acc_OwnerID (demo_account i ow nm b) = ow"
  "acc_ID (demo_account i ow nm b) = i" "acc_Currency (demo_account i ow nm b) = ''USD''"
  by (simp_all add: demo_account_def)

lemma demo_deposit:
  "\<exists>s'. Deposit ref_deps demo_world 11 ''1.5'' demo_session = (Inr (), s')
      \<and> moved 10 11 15000 demo_db (sdb s')"
  using ref_dec.Deposit_effect [of demo_world demo_session 11 _ 10 "''1.5''" "(15, 1)" 15000 "- 1000000"]
  by (simp add: demo_quiet demo_inv demo_fresh demo_accounts demo_balances demo_parse demo_num numeric_limit_def)

lemma demo_withdraw:
  "\<exists>s'. Withdraw ref_deps demo_world 11 ''1.5'' demo_session = (Inr (), s')
      \<and> moved 11 10 15000 demo_db (sdb s')"
  using ref_dec.Withdraw_effect [of demo_world demo_session 11 _ 10 "''1.5''" "(15, 1)" 15000]
  by (simp add: demo_quiet demo_inv demo_fresh demo_accounts demo_parse demo_num)

lemma demo_transfer:
  "\<exists>s'. Transfer ref_deps demo_world 11 12 ''1.5'' demo_session = (Inr (), s')
      \<and> moved 11 12 15000 demo_db (sdb s')"
  using ref_dec.Transfer_effect [of demo_world demo_session 11
      "demo_account 11 (Some 1) ''A'' 1000000" 12 "demo_account 12 (Some 2) ''B'' 0" "''1.5''" "(15, 1)" 15000]
  by (simp add: demo_quiet demo_inv demo_fresh demo_accounts demo_parse demo_num numeric_limit_def)

subsection \<open>A tracked request on the concrete ledger\<close>

lemma demo_auth: "auth_user ref_deps (demo_request m i b) = Inr 1"
proof -
  have "digits_val ''1'' = 1" "is_digit (CHR ''1'')" by code_simp+
  then show ?thesis by (simp add: auth_user_def demo_request_def ref_deps_def)
qed

lemma demo_url [simp]:
  "URLParam (demo_request m i b) p = i"
  "uuid_Parse ref_deps ''10'' = Some 10" "uuid_Parse ref_deps ''11'' = Some 11"
  "uuid_Parse ref_deps ''12'' = Some 12" "uuid_Parse ref_deps ''30'' = Some 30"
proof -
  have "digits_val ''10'' = 10 \<and> digits_val ''11'' = 11 \<and> digits_val ''12'' = 12 \<and> digits_val ''30'' = 30"
    "list_all is_digit ''0123''" by code_simp+
  then show "uuid_Parse ref_deps ''10'' = Some 10" "uuid_Parse ref_deps ''11'' = Some 11"
    "uuid_Parse ref_deps ''12'' = Some 12" "uuid_Parse ref_deps ''30'' = Some 30"
    by (simp_all add: ref_deps_def)
qed (simp add: demo_request_def)

lemma demo_no_offset: "Query (demo_request m i b) q = []" "entries_offset [] = 0"
  by (simp_all add: demo_request_def entries_offset_def Atoi_def split_sign_def Let_def)

lemma demo_transactions:
  "client_status (fst (Handler_GetTransactions ref_deps demo_world (demo_request m ''30'' b) demo_session)) = 200"
proof -
  have rows: "filter (\<lambda>e. ent_TransactionID e = 30) (entries demo_db) = entries demo_db"
    by (simp add: demo_db_def demo_entry_def)
  have list: "ListEntriesByTransaction demo_world Pool 30 demo_session
      = (Inr (map scan_entry (entries demo_db)), demo_session\<lparr>tick := Suc 0\<rparr>)"
    by (simp add: ListEntriesByTransaction_def run_stmt_quiet [OF demo_quiet] listEntriesByTransaction_def rows)
      (simp add: order_by_asc_def demo_db_def demo_entry_def)
  have "GetAccount demo_world Pool 11 (demo_session\<lparr>tick := Suc 0\<rparr>)
      = (Inr (scan_account (demo_account 11 (Some 1) ''A'' 1000000)), demo_session\<lparr>tick := Suc (Suc 0)\<rparr>)"
    using demo_accounts(2)
    by (simp add: GetAccount_def run_stmt_quiet [OF demo_quiet] getAccount_def account_of_def)
  then have "fst (authorize_entries demo_world 1 (map scan_entry (entries demo_db)) (demo_session\<lparr>tick := Suc 0\<rparr>))
      = Inr True"
    by (simp add: demo_db_def demo_entry_def)
  then obtain s2 where auth: "authorize_entries demo_world 1 (map scan_entry (entries demo_db))
      (demo_session\<lparr>tick := Suc 0\<rparr>) = (Inr True, s2)"
    by (metis prod.collapse)
  have "entries demo_db \<noteq> []" by (simp add: demo_db_def)
  then show ?thesis by (simp add: Handler_GetTransactions_def demo_auth list auth)
qed

lemma demo_key:
  "tracking_key ref_deps (demo_request ''POST'' i b) = Some (compound_hash ref_deps ''key'' 1 b, 1)"
proof -
  have "digits_val ''1'' = 1" "is_digit (CHR ''1'')" by code_simp+
  then have user: "uuid_Parse ref_deps ''1'' = Some 1" by (simp add: ref_deps_def)
  show ?thesis
    by (simp add: tracking_key_def idempotency_raw_key_def idempotency_user_def demo_request_def user)
qed

lemma demo_keys [simp]: "idempotency_keys demo_db = []"
  by (simp add: demo_db_def)

lemma demo_lookup:
  "GetIdempotencyKey demo_world Pool \<lparr>gik_ID = h, gik_UserID = u\<rparr> demo_session = (Inl ErrNoRows, demo_session\<lparr>tick := Suc 0\<rparr>)"
  by (simp add: GetIdempotencyKey_def run_stmt_quiet [OF demo_quiet] getIdempotencyKey_def)

lemma demo_handler:
  "protected_handler ref_deps demo_world PostTransfers (demo_request ''POST'' ''11'' []) (demo_session\<lparr>tick := Suc 0\<rparr>)
     = (respondError 400 ''invalid input'', demo_session\<lparr>tick := Suc 0\<rparr>)"
proof -
  have "json_parse [] = None" by (simp add: json_parse_def json_read_def skip_space_def)
  then show ?thesis
    by (simp add: protected_handler_def Handler_Transfer_def demo_auth decode_transfer_def decode_struct_def)
      (simp add: demo_request_def)
qed

lemma demo_first_request:
  obtains s1 where "IdempotencyMiddleware ref_deps demo_world (protected_handler ref_deps demo_world PostTransfers)
      (demo_request ''POST'' ''11'' []) demo_session = (respondError 400 ''invalid input'', s1)"
proof -
  have once: "sends_once False (respondError 400 ''invalid input'')"
    by (simp add: respondError_def respondJSON_def)
  show ?thesis
    by (rule that) (simp add: middleware_tracked [OF demo_key] demo_lookup demo_handler Let_def
        icpt_status [OF once] split: prod.split)
qed

subsection \<open>Another client between two reads\<close>

text \<open>The ledger after a transfer of 0.5 by another client, and a world where it happens at tick 1.\<close>

definition demo_leg :: "uuid \<Rightarrow> uuid \<Rightarrow> int \<Rightarrow> int \<Rightarrow> int Entry" where
  "demo_leg i acc dr cr =
     \<lparr>ent_ID = i, ent_AccountID = acc, ent_Debit = dr, ent_Credit = cr, ent_TransactionID = 41,
      ent_OperationType = ''transfer'', ent_Description = None, ent_CreatedAt = Some 1\<rparr>"

definition demo_db_after :: database where
  "demo_db_after =
     (add_balance 11 (- 5000) (add_balance 12 5000 demo_db))
       \<lparr>entries := entries demo_db @ [demo_leg 40 11 5000 0, demo_leg 42 12 0 5000]\<rparr>"

definition demo_race_world :: world where
  "demo_race_world = demo_world\<lparr>interfere := \<lambda>t d. if t = 1 \<and> d = demo_db then demo_db_after else d\<rparr>"

lemma demo_race_posting: "posting ''transfer'' 11 12 5000 demo_db demo_db_after"
  unfolding demo_db_after_def
  by (rule postingI [where tx = 41])
    (simp_all add: demo_db_def demo_entry_def demo_account_def demo_leg_def posting_legs_def
      debit_leg_def credit_leg_def)

lemma demo_race_step: "db_step demo_db demo_db_after"
proof (rule step_posting [OF demo_race_posting])
  show "account_of demo_db 11 = Some (demo_account 11 (Some 1) ''A'' 1000000)" by (rule demo_accounts)
  show "is_settlement (demo_account 11 (Some 1) ''A'' 1000000)
      \<or> 5000 \<le> acc_Balance (demo_account 11 (Some 1) ''A'' 1000000)" by simp
  show "in_range demo_db_after"
    by (simp add: in_range_def demo_db_after_def add_balance_def demo_db_def demo_account_def numeric_limit_def)
qed

subsection \<open>A database that keeps reporting conflicts\<close>

definition conflict :: go_error where
  "conflict = PqError ''40001'' ''pq: could not serialize access''"

definition busy_world :: "nat \<Rightarrow> world" where
  "busy_world n = demo_world\<lparr>fault := \<lambda>t. if t < n then Fail conflict else NoFault\<rparr>"

lemma conflict_serialization [simp]: "isSerializationError conflict"
  by (simp add: isSerializationError_def conflict_def)

text \<open>An attempt whose \<open>BEGIN\<close> fails takes two calls with its wait.\<close>

lemma busy_conflicts:
  "2 * k \<le> n + 1 \<Longrightarrow> \<exists>s. conflicts (busy_world n) fn k demo_session s \<and> tick s = 2 * k \<and> sdb s = demo_db"
proof (induction k)
  case 0
  then show ?case by (auto intro!: conflicts_0 exI [of _ demo_session])
next
  case (Suc k)
  then obtain s where s: "conflicts (busy_world n) fn k demo_session s" "tick s = 2 * k" "sdb s = demo_db"
    by auto
  have once: "execTxOnce (busy_world n) fn s = (Inl conflict, s\<lparr>tick := Suc (tick s), tx_time := None\<rparr>)"
    using s(2) Suc.prems by (simp add: execTxOnce_def busy_world_def demo_world_def Let_def)
  have wait: "sleepWithContext (busy_world n) (retryWait k) (s\<lparr>tick := Suc (tick s), tx_time := None\<rparr>)
      = (Inr (), s\<lparr>tick := Suc (Suc (tick s)), tx_time := None, slept := slept s + retryWait k\<rparr>)"
    by (simp add: sleepWithContext_def busy_world_def demo_world_def)
  show ?case
    using conflicts_Suc [OF s(1) once conflict_serialization wait] s(2,3) by auto
qed

subsection \<open>Bodies on the concrete ledger\<close>

text \<open>A body that the handlers of accounts, amounts and transfers all read, and one for a login.\<close>

definition demo_members :: "(string \<times> json) list" where
  "demo_members = [(''amount'', JString ''1.5''), (''name'', JString ''Savings''),
     (''from_id'', JString ''11''), (''to_id'', JString ''12'')]"

definition demo_body :: string where
  "demo_body = json_encode (JObject demo_members)"

definition login_members :: "string \<Rightarrow> (string \<times> json) list" where
  "login_members email = [(''email'', JString email), (''password'', JString ''pw'')]"

definition credentials :: "string \<Rightarrow> string" where
  "credentials email = json_encode (JObject (login_members email))"

lemma demo_body: "json_parse demo_body = Some (JObject demo_members)"
  using json_parse_encoded [of "JObject demo_members" "[]"]
  by (simp add: demo_body_def demo_members_def utf8_ascii maxNestingDepth_def stops_def)

lemma demo_login_body:
  assumes "email \<in> {''a@x'', ''c@x''}"
  shows "json_parse (credentials email) = Some (JObject (login_members email))"
  using assms json_parse_encoded [of "JObject (login_members email)" "[]"]
  by (auto simp: credentials_def login_members_def utf8_ascii maxNestingDepth_def stops_def)

lemma demo_body_request [simp]: "Body (demo_request m i b) = b"
  by (simp add: demo_request_def)

lemma demo_decode_name: "decode_create_account (demo_request m i demo_body) = (True, ''Savings'')"
  by (simp add: decode_create_account_def demo_body demo_members_def decode_struct_def set_create_account_def
      decode_string_def folded_names)

lemma credentials_decode:
  "email \<in> {''a@x'', ''c@x''} \<Longrightarrow>
    decode_auth (demo_request m i (credentials email)) = (True, \<lparr>aur_Email = email, aur_Password = ''pw''\<rparr>)"
  by (simp only: decode_auth_def demo_body_request demo_login_body)
    (simp add: login_members_def decode_struct_def set_auth_def decode_string_def folded_names)

lemma demo_bcrypt:
  "bcrypt_Generate ref_deps k ''pw'' = Some ''$2a$pw''" "bcrypt_Compare ref_deps ''$2a$pw'' ''pw''"
  by (simp_all add: ref_deps_def)

subsection \<open>A deposit on the concrete ledger\<close>

lemma demo_amount: "decodeAmountFromBody ref_deps (demo_request m i demo_body) = Inr ''1.5''"
proof -
  have "TrimSpace ''1.5'' = ''1.5''" by code_simp
  then show ?thesis
    by (simp add: decodeAmountFromBody_def demo_body demo_members_def folded_names decode_struct_def set_amount_def decode_iface_def
        normalizeAmountInput_def)
qed

lemma demo_deposit_request:
  "deposit_request ref_deps ref_num (demo_request ''POST'' ''11'' demo_body) (compound_hash ref_deps ''key'' 1 demo_body) 1 11 15000"
  by (simp add: deposit_request_def demo_key demo_auth demo_amount demo_parse demo_num)

lemma demo_can_deposit: "can_deposit demo_db 10 11 1 30000"
  by (simp add: can_deposit_def demo_inv demo_accounts demo_balances numeric_limit_def)

subsection \<open>A transfer on the concrete ledger\<close>

lemma demo_transfer_request:
  "transfer_request ref_deps (demo_request ''POST'' i demo_body) (compound_hash ref_deps ''key'' 1 demo_body) 1 11 12"
proof -
  let ?input = "\<lparr>trr_Amount = IString ''1.5'', trr_FromID = ''11'', trr_ToID = ''12'', trr_FromAccountID = [],
    trr_ToAccountID = []\<rparr>"
  have "decode_transfer (demo_request ''POST'' i demo_body) = (True, ?input)"
    by (simp add: decode_transfer_def demo_body demo_members_def decode_struct_def set_transfer_def decode_iface_def decode_string_def
        folded_names)
  moreover have "TrimSpace ''1.5'' = ''1.5''" "TrimSpace ''11'' = ''11''" "TrimSpace ''12'' = ''12''" by code_simp+
  moreover have "validatePositiveAmount ref_deps ''1.5'' = Inr (15, 1)"
    by (simp add: validatePositiveAmount_def demo_parse) (simp add: ref_deps_def)
  ultimately show ?thesis
    by (simp add: transfer_request_def demo_key demo_auth from_text_def to_text_def normalizeAmountInput_def)
qed

text \<open>What the document allows as a body of a login.\<close>

lemma login_documented: "doc_conforms api_doc (doc_ref ''AuthRequest'') (JObject (login_members email))"
  by (simp add: login_members_def doc_conforms_api doc_ref_def api_schemas schema_AuthRequest_def doc_type_def
      names_of_def)

subsection \<open>Row locks on the concrete ledger\<close>

lemma demo_settlement_row: "settlement_row demo_session = Some 10"
  by (simp add: settlement_row_def demo_db_def demo_account_def is_settlement_def)

lemma demo_plans:
  "lock_plan ref_deps demo_world (DepositCall 11 amount) demo_session = [10, 11]"
  "lock_plan ref_deps demo_world (WithdrawCall 12 amount) demo_session = [10, 12]"
proof -
  have "\<exists>a s1. GetSettlementAccountForUpdate demo_world InTx demo_session = (Inr a, s1)"
    by (simp add: GetSettlementAccountForUpdate_quiet [OF demo_quiet] demo_db_def demo_account_def is_settlement_def)
  moreover have "stored_row 11 demo_session = Some 11" "stored_row 12 demo_session = Some 12"
    by (simp_all add: stored_row_def demo_db_def demo_account_def)
  ultimately show "lock_plan ref_deps demo_world (DepositCall 11 amount) demo_session = [10, 11]"
    and "lock_plan ref_deps demo_world (WithdrawCall 12 amount) demo_session = [10, 12]"
    by (simp_all add: settlement_plan [OF demo_settlement_row])
qed

text \<open>A deposit that has locked the settlement account, and a withdrawal that waits for it.\<close>

lemma demo_two_locked:
  "lock_reachable ref_deps no_transfer 10 [0 \<mapsto> \<lparr>held = [10], todo = [11]\<rparr>, 1 \<mapsto> \<lparr>held = [], todo = [10, 12]\<rparr>]"
proof -
  let ?s1 = "[0 \<mapsto> \<lparr>held = [], todo = [10, 11]\<rparr>] :: lock_state"
  let ?s2 = "?s1(1 \<mapsto> \<lparr>held = [], todo = [10, 12]\<rparr>)"
  let ?s3 = "?s2(0 \<mapsto> \<lparr>held = [10], todo = [11]\<rparr>)"
  have "lock_step ref_deps no_transfer 10 Map.empty ?s1"
    using lock_begin [where X = ref_deps and C = no_transfer and c = "DepositCall 11 (15, 1)" and s = Map.empty and t = 0
        and u = demo_session and W = demo_world]
    by (simp add: no_transfer_def demo_settlement_row demo_plans)
  moreover have "lock_step ref_deps no_transfer 10 ?s1 ?s2"
    using lock_begin [where X = ref_deps and C = no_transfer and c = "WithdrawCall 12 (15, 1)" and s = ?s1 and t = 1
        and u = demo_session and W = demo_world]
    by (simp add: no_transfer_def demo_settlement_row demo_plans)
  moreover have "lock_step ref_deps no_transfer 10 ?s2 ?s3"
    using lock_take [of ?s2 0 "\<lparr>held = [], todo = [10, 11]\<rparr>" 10 "[11]" ref_deps no_transfer 10]
    by (auto simp: waits_for_def split: if_splits)
  ultimately have "lock_reachable ref_deps no_transfer 10 ?s3"
    by (rule lock_more [OF lock_more [OF lock_more [OF lock_empty]]])
  then show ?thesis by (simp add: fun_upd_twist)
qed

subsection \<open>A browser\<close>

lemma demo_startup: "startup (srv_env demo_server) (\<lambda>c. None) = Inr (default_db_url, ''0123456789abcdef0123456789abcdef'', '':8080'')"
proof -
  have "startup demo_env (\<lambda>c. None) = Inr (default_db_url, ''0123456789abcdef0123456789abcdef'', '':8080'')"
    by code_simp
  then show ?thesis by (simp add: demo_server_def)
qed

definition demo_headers :: "(string \<times> string) list \<Rightarrow> string \<Rightarrow> string" where
  "demo_headers hs h = (case map_of hs h of None \<Rightarrow> [] | Some v \<Rightarrow> v)"

text \<open>A page of the configured origin, and its question whether it may send an idempotency key.\<close>

definition demo_browser :: request where
  "demo_browser = (demo_request ''GET'' [] [])\<lparr>Header := demo_headers [(''Origin'', ''https://Bank.example'')]\<rparr>"

definition demo_preflight :: request where
  "demo_preflight = (demo_request ''OPTIONS'' [] [])\<lparr>Header := demo_headers
     [(''Origin'', ''https://bank.example''), (''Access-Control-Request-Method'', ''POST''),
      (''Access-Control-Request-Headers'', ''authorization,content-type,x-idempotency-key'')]\<rparr>"

lemma demo_preflight_asks:
  "is_preflight demo_preflight" "list_all header_name (requested_headers demo_preflight)"
  "''idempotency-key'' \<in> set (requested_headers demo_preflight)
   \<or> ''x-idempotency-key'' \<in> set (requested_headers demo_preflight)"
  by code_simp+

text \<open>The first request of a client to \<open>/ready\<close> passes the limiter and makes one call.\<close>

lemma demo_ready:
  assumes cors: "srv_cors demo_server (corsOptions (srv_env demo_server)) (size_limited r) = (hs, None)"
    and client: "middleware_client (size_limited r) = Some c"
  obtains cs prc1 s1 where "serve demo_server demo_world GetReady r (demo_process, demo_session)
      = (Some (security_headers @ set_headers hs @ cs), (prc1, s1))"
    and "tick s1 = 1" and "cs = [SetHeader ''X-RateLimit-Limit'' (rune_string 50), WriteHeader 200, WriteBody ''ready'']"
proof -
  have "fst (allow_client ref_limiter_lib globalLimiter c 0)"
    by (simp add: allow_client_def getLimiter_def globalLimiter_def NewRateLimiter_def ref_limiter_lib_def
        ref_Allow_def Let_def)
  then obtain rl where allowed: "allow_client ref_limiter_lib globalLimiter c 0 = (True, rl)"
    by (metis prod.collapse)
  have "rl_burst rl = 50" using allow_client_eq(3) [OF allowed] by (simp add: globalLimiter_def NewRateLimiter_def)
  moreover have "now demo_world 0 = 0" "fault demo_world 0 = NoFault" by (simp_all add: demo_world_def)
  moreover have "prc_global demo_process = globalLimiter" "srv_limiter demo_server = ref_limiter_lib"
    by (simp_all add: demo_process_def main_process_def demo_server_def)
  moreover obtain resp prc1 s1
    where run: "serve demo_server demo_world GetReady r (demo_process, demo_session) = (resp, (prc1, s1))"
    by (metis prod.collapse)
  ultimately have "resp = Some (security_headers @ set_headers hs
        @ [SetHeader ''X-RateLimit-Limit'' (rune_string 50), WriteHeader 200, WriteBody ''ready''])"
    and "tick s1 = 1"
    using cors client allowed
    by (auto simp: serve_def middleware_defs limited_route_def RateLimiter_Middleware_def serve_route_def
        public_route_def ready_def Ping_def demo_session_def fresh_session_def size_limited_def set_headers_def
        split: prod.splits)
  with run that show ?thesis by blast
qed

lemma demo_browser_granted:
  obtains calls prc' s' where "serve demo_server demo_world GetReady demo_browser (demo_process, demo_session)
      = (Some calls, (prc', s'))"
    and "(''Access-Control-Allow-Origin'', ''https://Bank.example'') \<in> set (client_headers calls)"
proof -
  have listed: "origin_listed (AllowedOrigins (corsOptions demo_env)) ''https://Bank.example''" by code_simp
  let ?hs = "[(''Access-Control-Allow-Origin'', ''https://Bank.example''), (''Access-Control-Allow-Credentials'', ''true'')]"
  have "srv_cors demo_server (corsOptions (srv_env demo_server)) (size_limited demo_browser) = (?hs, None)"
    using listed by (simp add: demo_server_def ref_cors_def size_limited_def demo_browser_def demo_request_def
        demo_headers_def is_preflight_def corsOptions_def Let_def)
  moreover have "middleware_client (size_limited demo_browser) = Some ''10.0.0.1:4711''"
    by (simp add: middleware_client_def size_limited_def demo_browser_def demo_request_def demo_headers_def)
  ultimately obtain cs prc1 s1 where "serve demo_server demo_world GetReady demo_browser (demo_process, demo_session)
      = (Some (security_headers @ set_headers ?hs @ cs), (prc1, s1))"
    and "cs = [SetHeader ''X-RateLimit-Limit'' (rune_string 50), WriteHeader 200, WriteBody ''ready'']"
    by (rule demo_ready)
  then show ?thesis
    by (intro that) (auto simp: client_headers_def wr_run_def new_writer_def security_headers_def set_headers_def Let_def)
qed

subsection \<open>Two requests with a cleanup between them\<close>

lemma demo_clock: "mono (now demo_world)"
  by (simp add: demo_world_def mono_def)

lemma demo_two_requests:
  "request_times ''10.0.0.1:4711'' (global_events demo_server demo_world
     [Incoming GetReady (demo_request ''GET'' [] []), CleanupTick GlobalLimiter,
      Incoming GetReady (demo_request ''GET'' [] [])] (demo_process, demo_session)) = [0, 1]"
proof -
  let ?r = "demo_request ''GET'' [] []"
  have cors: "srv_cors demo_server (corsOptions (srv_env demo_server)) (size_limited ?r) = ([], None)"
    by (simp add: demo_server_def ref_cors_def size_limited_def demo_request_def is_preflight_def Let_def)
  moreover have "middleware_client (size_limited ?r) = Some ''10.0.0.1:4711''"
    by (simp add: middleware_client_def size_limited_def demo_request_def)
  ultimately obtain resp prc1 s1
    where run: "serve demo_server demo_world GetReady ?r (demo_process, demo_session) = (resp, (prc1, s1))"
      and "tick s1 = 1" by (rule demo_ready) blast
  moreover have "limited_client demo_server ?r = Some ''10.0.0.1:4711''"
    by (simp add: limited_client_def preflight_answered_def cors) (simp add: middleware_client_def demo_request_def)
  moreover have "tick demo_session = 0" by (simp add: demo_session_def fresh_session_def)
  ultimately show ?thesis by simp (simp add: demo_world_def)
qed

end
