(* ===== verification/Spec2Isabelle.thy ===== *)
theory Spec2Isabelle
  imports Scenario
begin

text \<open>
  A model of the Go program Bank Ledger, a double-entry bookkeeping service: HTTP handlers over
  a ledger service, which writes to PostgreSQL through serializable transactions. This root
  theory imports the others and states the properties of the program, C1 to C40, each with a
  witness that applies it to a concrete ledger where it has hypotheses.

  \<^bold>\<open>The program.\<close> A request passes the middleware of \<open>cmd/main.go\<close> (security headers, size limit,
  logging, CORS, global rate limiter), and on the protected routes the token check, the endpoint rate limiter
  and the idempotency middleware. A handler of \<open>internal/api/handler.go\<close> then reads the token's
  user, the path and the body, reads the account and tests who owns it, and calls the ledger
  service. \<open>Deposit\<close>, \<open>Withdraw\<close> and \<open>Transfer\<close> (\<open>internal/service/ledger.go\<close>) validate the amount
  and hand a callback to \<open>Store.ExecTx\<close> (\<open>internal/db/store.go\<close>), which runs it in a transaction
  and retries on serialization failures. The callback calls the generated queries of \<open>db/sqlc\<close>:
  it writes two entries under one transaction identifier and adds the amount to two cached
  balances. The schema is in \<open>db/migrations\<close>, the SQL in \<open>db/queries\<close>.

  \<^bold>\<open>The theories, and what they model.\<close>
  \<^item> \<open>Ledger_Base\<close>: Go's errors (\<open>go_error\<close>, with \<open>errors.Is\<close>, \<open>errors.As\<close> and the text) and list lemmas.
  \<^item> \<open>Numeric_Text\<close>: PostgreSQL's NUMERIC(19,4) as an \<open>int\<close> of ten-thousandths, its text form, and
    the round trip between them.
  \<^item> \<open>Json\<close>: the writer and the reader of \<open>encoding/json\<close>, on bytes, with UTF-8. \<open>Json_Roundtrip\<close>: the
    reader inverts the writer, and its fuel is enough for every text.
  \<^item> \<open>Externals\<close>: the packages the program calls, as fields of \<open>deps\<close>, and their laws as the
    locales \<open>decimal_library\<close> and \<open>uuid_library\<close>; \<open>ref_deps\<close> interprets both. \<open>Sha256\<close>: the hash function.
  \<^item> \<open>Database\<close>: rows, tables and one function per SQL statement of \<open>db/sqlc/*.sql.go\<close>, with the
    constraints of the schema as error branches.
  \<^item> \<open>Queries\<close>: the generated methods, run on a connection. Everything the program does not
    control is the record \<open>world\<close> (faults, fresh identifiers, the clock, what other clients
    commit, cancelled contexts), indexed by a counter that every call advances; a \<open>session\<close> is
    the tables as the run sees them, that counter, the open transaction and the time waited.
    An operation is a function from sessions to a result and a session. The locale
    \<open>session_rel\<close> carries reflexive and transitive relations through sequences of calls.
  \<^item> \<open>Store\<close>: \<open>ExecTx\<close>, \<open>execTxOnce\<close>, \<open>retryWait\<close>, \<open>sleepWithContext\<close>, and its runs as an inductive
    relation.
  \<^item> \<open>Ledger_Service\<close>: the three operations with their callbacks, which get the queries of their
    transaction as an argument (\<open>tx_queries\<close>), and \<open>ReconcileAccount\<close>.
  \<^item> \<open>Http\<close>: requests, response writers, \<open>amount.go\<close>, \<open>dto.go\<close>, \<open>mapper.go\<close>, \<open>response.go\<close>.
  \<^item> \<open>Handlers\<close>: the eleven handlers of \<open>handler.go\<close> and the tokens of \<open>middleware.go\<close>.
  \<^item> \<open>Idempotency\<close>: \<open>middleware_idempotency.go\<close>, with the recording writer.
  \<^item> \<open>Rate_Limit\<close>: \<open>internal/ratelimit/ratelimit.go\<close>.
  \<^item> \<open>Process\<close>: \<open>cmd/main.go\<close> around the requests: configuration, start-up checks, options of the
    HTTP server and of CORS, shutdown.
  \<^item> \<open>Server\<close>: \<open>cmd/main.go\<close>: probes, routes, the chain of middleware with logging and CORS, and a
    process that serves a list of requests between ticks of its cleanup goroutines.
  \<^item> \<open>Metrics\<close>: the collectors of \<open>metrics.go\<close>, and the handlers that time themselves.
  \<^item> \<open>Api_Document\<close>: the document \<open>docs/docs.go\<close> publishes, as a JSON value, one definition per operation
    and schema.

  \<^bold>\<open>The abstract specification\<close> is in \<open>Ledger_Spec\<close>: a \<open>posting\<close> moves an amount from one account to
  another with two opposed entries; the reachable databases are those that \<open>db_step\<close>s (a
  posting that leaves nobody but the settlement account overdrawn, a new user, a new account, a
  new idempotency key) make of the migrated one; \<open>ledger_inv\<close> is their invariant, preserved by
  every step.

  \<^bold>\<open>What the groups of lemmas show.\<close>
  \<^item> \<open>Ledger_Refinement\<close>: a complete run of a callback is one posting: the code simulates the specification.
  \<^item> \<open>Ledger_Operations\<close>: whole operations, with retries, lost answers and other clients, are
    sequences of steps with at most one posting (locale \<open>ledger_callback\<close>, C4 to C9).
  \<^item> \<open>Ledger_Quiet\<close>, \<open>Ledger_Effects\<close>: without faults and other clients, when each operation succeeds
    and with which balances, and when it is refused (C10 to C16); reconciliation (C22, C23).
  \<^item> \<open>Handler_Relations\<close>: a reflexive and transitive relation that every call of a request keeps is
    kept by the handlers and by the server (locales \<open>handler_rel\<close>, \<open>protected_rel\<close>, \<open>public_rel\<close> and
    \<open>api_rel\<close>, and \<open>request_rel\<close> in \<open>Server\<close> for relations that depend on the request). They serve for
    ledger steps, the idempotency table, the passing of time and the steps of one user.
  \<^item> \<open>Api_Safety\<close>: every handler only takes ledger steps (locales \<open>environment\<close> and \<open>ledger_api\<close>);
    \<open>Server\<close> carries this to the whole process and shows that such processes are admissible
    other clients of each other (C1, C2).
  \<^item> \<open>Ownership\<close>: a request only spends money of its user or of nobody (C3).
  \<^item> \<open>Replay\<close>: a stored response is replayed (C17, C18). \<open>Frames\<close>, \<open>Duplicates\<close>: two ways in which a
    tracked deposit is nevertheless executed twice (C19, C20).
  \<^item> \<open>Locks\<close>: which rows the callbacks lock, read off their runs on a transaction that records it
    (lemma \<open>recorded_run\<close>: recording does not change the run), and waiting for rows as a step relation.
    Asking in one order excludes deadlocks (locale \<open>lock_order\<close>); the callbacks of deposits and
    withdrawals do, those of transfers do not (C26, C27).
    \<open>Lock_Victims\<close>: what the client of a deadlock's victim gets (C28).
  \<^item> \<open>Api_Conformance\<close>: the handlers answer, and decode, what the published document says (C29, C30).
  \<^item> \<open>Api_Behaviour\<close>: refusals, pages, users and accounts (C31 to C37; locale \<open>quiet_api\<close>).
  \<^item> \<open>Rate_Bounds\<close>, \<open>Served_Rates\<close>: how many requests with one client name a limiter, and then the running
    process, lets through, preflights apart (C38; locale \<open>token_bucket\<close>); every request is in the log.
  \<^item> \<open>Cors\<close>: which answers a browser may show to a page (C39; locale \<open>cors_library\<close>), and that a page
    cannot send an idempotency key (lemma \<open>preflight_for_key\<close>).
  \<^item> \<open>Scenario\<close>: the concrete ledger of the witnesses.

  \<^bold>\<open>Bounds.\<close> \<open>ExecTx\<close> makes at most ten attempts; the loop terminates by the attempts left, and the
  nine waits add up to 5.55 seconds. The schemas of the document are read with fuel five, two more
  than their depth; JSON text is read with two units of fuel for a byte. Loops over lists are structural.
  A window of eight fresh identifiers suffices for an operation, which makes eight calls before
  its commit; a repeated tracked deposit makes at most twelve calls each time. Words keep their
  width where the code has one: 128 bits for identifiers, 32 for limits, offsets and status codes.

  \<^bold>\<open>Assumptions.\<close> The laws of the locales are documented behaviour of the packages.
  \<open>rely\<close> says that other clients take ledger steps; \<open>commit_reports\<close>, that a reported
  serialization failure is one. A row taken with \<open>FOR UPDATE\<close> is held to the end of its
  transaction. Rows of the same time are listed in the order they were inserted, which the queries
  leave open. Serializable isolation is PostgreSQL's: what others commit is seen at the start of a transaction.
  A statement can fail for reasons outside the tables (storage limits, the network), which is a fault of the
  world.

  \<^bold>\<open>Not modelled.\<close> What Prometheus computes from the observations; the log lines of the
  handlers; the recoverer of chi (a panic stays the answer \<open>None\<close>) and its matching of routes; the
  swagger routes, which hand the document to a package; the listener of the HTTP server; token
  signing and checking, bcrypt, decimals, the text of times and floats, the token bucket, CORS, request identifiers and the wrapped
  writer, which are parameters. \<open>main\<close> calls a constructor \<open>NewEndpointRateLimiter\<close>
  that the rate limiter package does not have: its result is a parameter. \<open>getLimiter\<close> and
  \<open>Allow\<close> are one step. Requests that one process serves at the same time are other clients of each
  other; what they do to the shared limiters, each under its mutex, is one of the interleavings of
  \<open>Rate_Bounds\<close>.
\<close>

section \<open>What holds of the ledger\<close>

subsection \<open>The whole service\<close>

text \<open>
  C1. Whatever requests a server process answers behind its limiters, whenever their cleanup
  runs, on a database that the service reached from the migrated one, whatever the database and
  the network do wrong at any call (a reported serialization failure being a real one) and
  whatever other clients commit in between (as long as they take ledger steps too): the
  database is again reachable, all balances add up to zero, no account but the settlement
  account is negative and that one is never positive, every stored balance is the sum of the
  account's entries and every transaction is balanced.
\<close>

theorem served_requests_keep_ledger:
  assumes "decimal_library (srv_deps S) num" and "rely W" and "commit_reports W"
    and "reachable (sdb s)" and "serve_all S W evs (prc, s) = (resps, (prc', s'))"
  shows "reachable (sdb s') \<and> total_balance (sdb s') = 0
    \<and> (\<forall>a \<in> set (accounts (sdb s')).
         (if is_settlement a then acc_Balance a \<le> 0 else 0 \<le> acc_Balance a)
         \<and> acc_Balance a = entry_sum (acc_ID a) (entries (sdb s')))
    \<and> (\<forall>tx. transaction_sum tx (entries (sdb s')) = 0)"
proof -
  have "ledger_api W (srv_deps S) num"
    using assms(1-3) by (intro ledger_api.intro environment.intro)
  from ledger_api.serve_all_guar [OF this refl assms(5)] have "db_steps (sdb s) (sdb s')"
    using reachable_inv [OF assms(4)] by (simp add: guar_def)
  with assms(4) have r: "reachable (sdb s')" unfolding reachable_def by (blast intro: db_steps_trans)
  note inv = reachable_inv [OF r]
  then show ?thesis
    using r inv_accounts(2,4) settlement_not_positive [OF inv]
    by (auto simp: ledger_inv_def transactions_ok_def)
qed

theorem served_requests_keep_ledger_witness:
  "\<exists>resps prc' s'. serve_all demo_server demo_world
       [Incoming PostRegister (demo_request ''POST'' [] ''x''), CleanupTick GlobalLimiter,
        Incoming PostDeposit (demo_request ''POST'' ''10'' ''5'')]
       (demo_process, fresh_session (migrated 10 0)) = (resps, (prc', s'))
     \<and> reachable (sdb s') \<and> total_balance (sdb s') = 0"
proof -
  obtain resps prc' s' where run: "serve_all demo_server demo_world
       [Incoming PostRegister (demo_request ''POST'' [] ''x''), CleanupTick GlobalLimiter,
        Incoming PostDeposit (demo_request ''POST'' ''10'' ''5'')]
       (demo_process, fresh_session (migrated 10 0)) = (resps, (prc', s'))" by (metis prod.collapse)
  have "reachable (migrated 10 0)" unfolding reachable_def by (blast intro: steps_refl)
  then have "reachable (sdb (fresh_session (migrated 10 0)))" by (simp add: fresh_session_def)
  moreover have "decimal_library (srv_deps demo_server) ref_num"
    using ref_dec.decimal_library_axioms by (simp add: demo_server_def)
  ultimately show ?thesis
    using served_requests_keep_ledger [OF _ _ _ _ run] run
      quiet_rely [OF demo_quiet] quiet_commit_reports [OF demo_quiet] by blast
qed

text \<open>
  C2. What the service relies on is what it guarantees: a world in which other instances of
  this server, with requests of their own, act before every call satisfies the assumption of
  C1 again.
\<close>

theorem peers_are_environment:
  assumes "decimal_library (srv_deps S) num" and "rely W" and "commit_reports W"
  shows "rely (peer_world S prc evs W) \<and> commit_reports (peer_world S prc evs W)"
proof -
  have "ledger_api W (srv_deps S) num"
    using assms by (intro ledger_api.intro environment.intro)
  from ledger_api.peer_world_rely [OF this refl] show ?thesis by blast
qed

theorem peers_are_environment_witness:
  "rely (peer_world demo_server (\<lambda>t. demo_process)
     (\<lambda>t. [Incoming PostDeposit (demo_request ''POST'' ''11'' demo_body)]) demo_world)"
  using peers_are_environment [of demo_server ref_num demo_world] ref_dec.decimal_library_axioms
    quiet_rely [OF demo_quiet] quiet_commit_reports [OF demo_quiet]
  by (simp add: demo_server_def)

text \<open>
  C3. Nobody spends another's money. Whatever a request asks for on whatever route, if its token is
  that of user \<open>u\<close> or it has no valid one, then all that serving it contributes to the database,
  among the steps of the other clients and under all faults, is postings out of accounts that
  belong to \<open>u\<close> or to nobody, and changes that move no money. Without other clients, no balance
  of another user's account goes down.
\<close>

theorem only_own_money_spent:
  assumes "decimal_library (srv_deps S) num" and "rely W" and "commit_reports W" and "ledger_inv (sdb s)"
    and "request_of (srv_deps S) u r" and "serve S W rt r (prc, s) = (x, (prc', s'))"
  shows "acts_for W u (sdb s) (sdb s')
    \<and> (quiet W \<longrightarrow> (\<forall>i a ow. account_of (sdb s) i = Some a \<and> acc_OwnerID a = Some ow \<and> ow \<noteq> u \<longrightarrow>
         (\<exists>b. account_of (sdb s') i = Some b \<and> acc_OwnerID b = Some ow \<and> acc_Balance a \<le> acc_Balance b)))"
proof -
  have "ledger_api W (srv_deps S) num"
    using assms(1-3) by (intro ledger_api.intro environment.intro)
  from ledger_api.serve_acting [OF this refl assms(5,6)] have "acts_for W u (sdb s) (sdb s')"
    using assms(4) by (simp add: acting_def)
  with acts_for_spares show ?thesis by blast
qed

theorem only_own_money_spent_witness:
  "\<exists>b. account_of (sdb (snd (snd (serve demo_server demo_world PostTransfers (demo_request ''POST'' ''11'' demo_body)
        (demo_process, demo_session))))) 12 = Some b \<and> 0 \<le> acc_Balance b"
proof -
  let ?r = "demo_request ''POST'' ''11'' demo_body"
  obtain x prc' s' where run: "serve demo_server demo_world PostTransfers ?r (demo_process, demo_session) = (x, (prc', s'))"
    by (metis prod.collapse)
  have "decimal_library (srv_deps demo_server) ref_num" "request_of (srv_deps demo_server) 1 ?r"
    using ref_dec.decimal_library_axioms by (simp_all add: demo_server_def request_of_def demo_auth)
  from only_own_money_spent [OF this(1) quiet_rely [OF demo_quiet] quiet_commit_reports [OF demo_quiet] _ this(2) run]
  have "\<exists>b. account_of (sdb s') 12 = Some b \<and> acc_OwnerID b = Some 2 \<and> 0 \<le> acc_Balance b"
    using demo_accounts by (simp add: demo_inv demo_quiet) fastforce
  then show ?thesis using run by auto
qed

subsection \<open>Deposits, withdrawals, transfers\<close>

text \<open>
  C4. A deposit that reports success made exactly one double-entry posting of the amount,
  rounded to four places, from the settlement account to the account, after what other clients
  did meanwhile; the ledger's invariant holds afterwards.
\<close>

theorem deposit_posts:
  assumes "decimal_library X num" and "rely W" and "commit_reports W" and "ledger_inv (sdb s)"
    and "Deposit X W accountID amountStr s = (Inr u, s')"
  shows "ledger_inv (sdb s') \<and> (\<exists>amount d0. NewFromString X amountStr = Some amount \<and> 0 < num amount
           \<and> others W (sdb s) d0 \<and> deposited accountID (round4 (num amount)) d0 (sdb s'))"
  using decimal_library.Deposit_success [OF assms] decimal_library.Deposit_steps [OF assms] assms(4)
  by (auto intro: db_steps_inv)

theorem deposit_posts_witness:
  "\<exists>s' d0. Deposit ref_deps demo_world 11 ''1.5'' demo_session = (Inr (), s')
     \<and> others demo_world demo_db d0 \<and> deposited 11 15000 d0 (sdb s')"
proof -
  obtain s' where run: "Deposit ref_deps demo_world 11 ''1.5'' demo_session = (Inr (), s')"
    using demo_deposit by blast
  show ?thesis
    using deposit_posts [OF ref_dec.decimal_library_axioms quiet_rely [OF demo_quiet]
        quiet_commit_reports [OF demo_quiet] _ run] run
    by (auto simp: demo_inv demo_parse demo_num)
qed

text \<open>
  C5. A withdrawal that reports success made exactly one posting of the rounded amount from the
  account to the settlement account, and the balance it was taken from covered it.
\<close>

theorem withdraw_posts:
  assumes "decimal_library X num" and "rely W" and "commit_reports W" and "ledger_inv (sdb s)"
    and "Withdraw X W accountID amountStr s = (Inr u, s')"
  shows "ledger_inv (sdb s') \<and> (\<exists>amount d0. NewFromString X amountStr = Some amount \<and> 0 < num amount
           \<and> others W (sdb s) d0 \<and> withdrawn accountID (round4 (num amount)) d0 (sdb s'))"
  using decimal_library.Withdraw_success [OF assms] decimal_library.Withdraw_steps [OF assms] assms(4)
  by (auto intro: db_steps_inv)

theorem withdraw_posts_witness:
  "\<exists>s' d0. Withdraw ref_deps demo_world 11 ''1.5'' demo_session = (Inr (), s')
     \<and> others demo_world demo_db d0 \<and> withdrawn 11 15000 d0 (sdb s')"
proof -
  obtain s' where run: "Withdraw ref_deps demo_world 11 ''1.5'' demo_session = (Inr (), s')"
    using demo_withdraw by blast
  show ?thesis
    using withdraw_posts [OF ref_dec.decimal_library_axioms quiet_rely [OF demo_quiet]
        quiet_commit_reports [OF demo_quiet] _ run] run
    by (auto simp: demo_inv demo_parse demo_num)
qed

text \<open>
  C6. A transfer that reports success was between two different accounts and made exactly one
  posting of the rounded amount, which the source's balance covered.
\<close>

theorem transfer_posts:
  assumes "decimal_library X num" and "rely W" and "commit_reports W" and "ledger_inv (sdb s)"
    and "Transfer X W fromID toID amountStr s = (Inr u, s')"
  shows "ledger_inv (sdb s') \<and> fromID \<noteq> toID
    \<and> (\<exists>amount d0. NewFromString X amountStr = Some amount \<and> 0 < num amount
         \<and> others W (sdb s) d0 \<and> transferred fromID toID (round4 (num amount)) d0 (sdb s'))"
  using decimal_library.Transfer_success [OF assms] decimal_library.Transfer_steps [OF assms] assms(4)
  by (auto intro: db_steps_inv)

theorem transfer_posts_witness:
  "\<exists>s' d0. Transfer ref_deps demo_world 11 12 ''1.5'' demo_session = (Inr (), s')
     \<and> others demo_world demo_db d0 \<and> transferred 11 12 15000 d0 (sdb s')"
proof -
  obtain s' where run: "Transfer ref_deps demo_world 11 12 ''1.5'' demo_session = (Inr (), s')"
    using demo_transfer by blast
  show ?thesis
    using transfer_posts [OF ref_dec.decimal_library_axioms quiet_rely [OF demo_quiet]
        quiet_commit_reports [OF demo_quiet] _ run] run
    by (auto simp: demo_inv demo_parse demo_num)
qed

text \<open>
  C7. Whatever a deposit, withdrawal or transfer reports, also after retries, a cancelled
  context or a lost answer: the database is as the other clients left it, or with exactly one
  posting of the operation added. No operation is ever executed twice or by half.
\<close>

theorem at_most_one_posting:
  assumes "decimal_library X num" and "rely W" and "commit_reports W" and "ledger_inv (sdb s)"
  shows "(Deposit X W accountID amountStr s = (r, s') \<longrightarrow>
           (\<exists>d0. others W (sdb s) d0 \<and> (sdb s' = d0 \<or> (\<exists>n. deposited accountID n d0 (sdb s')))))
    \<and> (Withdraw X W accountID amountStr s = (r, s') \<longrightarrow>
           (\<exists>d0. others W (sdb s) d0 \<and> (sdb s' = d0 \<or> (\<exists>n. withdrawn accountID n d0 (sdb s')))))
    \<and> (Transfer X W fromID toID amountStr s = (r, s') \<longrightarrow>
           (\<exists>d0. others W (sdb s) d0 \<and> (sdb s' = d0 \<or> (\<exists>n. transferred fromID toID n d0 (sdb s')))))"
  by (intro conjI impI decimal_library.Deposit_cases [OF assms] decimal_library.Withdraw_cases [OF assms]
      decimal_library.Transfer_cases [OF assms])

theorem at_most_one_posting_witness:
  "\<exists>d0. others demo_world demo_db d0
     \<and> (sdb (snd (Transfer ref_deps demo_world 11 12 ''1.5'' demo_session)) = d0
        \<or> (\<exists>n. transferred 11 12 n d0 (sdb (snd (Transfer ref_deps demo_world 11 12 ''1.5'' demo_session)))))"
  using at_most_one_posting [OF ref_dec.decimal_library_axioms quiet_rely [OF demo_quiet]
      quiet_commit_reports [OF demo_quiet], of demo_session] demo_inv
  by (metis demo_session_simps(1) prod.collapse)

text \<open>
  C8. \<open>ExecTx\<close>, for any callback: with success the callback ran exactly once to its end on
  tables the other clients left; with an error the tables are as the others left them, or the
  error is that of a commit whose answer was lost. No failed attempt leaves a trace.
\<close>

theorem exectx_all_or_nothing:
  assumes "commit_reports W" and "ExecTx W fn s = (r, s')"
  shows "\<exists>d0. others W (sdb s) d0 \<and> (case r of
            Inr _ \<Rightarrow> ran_once fn d0 (sdb s')
          | Inl e \<Rightarrow> sdb s' = d0 \<or> (ran_once fn d0 (sdb s')
               \<and> (\<exists>t e'. fault W t = LostReply e' \<and> e = Errorf ''commit failed: '' e' [])))"
  using ExecTx_outcome [OF assms] by (simp add: exec_outcome_def)

theorem exectx_all_or_nothing_witness:
  "\<exists>d0. others demo_world demo_db d0
     \<and> ran_once (return_ok ()) d0 (sdb (snd (ExecTx demo_world (return_ok ()) demo_session)))"
proof -
  have run: "ExecTx demo_world (return_ok ()) demo_session
      = (Inr (), end_tx demo_db (begin_tx demo_world demo_session))"
    using ExecTx_quiet_Inr [OF demo_quiet, of "return_ok ()" demo_session] by (simp add: return_ok_def)
  from exectx_all_or_nothing [OF quiet_commit_reports [OF demo_quiet] run] show ?thesis
    by (simp add: run)
qed

text \<open>
  C9. When no answer of the database is lost, a deposit, withdrawal or transfer that reports an
  error has changed nothing: the tables are what the other clients made of them.
\<close>

theorem failure_leaves_no_trace:
  assumes "decimal_library X num" and "rely W" and "ledger_inv (sdb s)"
    and "\<And>t e. fault W t \<noteq> LostReply e"
  shows "(Deposit X W accountID amountStr s = (Inl e, s') \<longrightarrow> others W (sdb s) (sdb s'))
    \<and> (Withdraw X W accountID amountStr s = (Inl e, s') \<longrightarrow> others W (sdb s) (sdb s'))
    \<and> (Transfer X W fromID toID amountStr s = (Inl e, s') \<longrightarrow> others W (sdb s) (sdb s'))"
  by (intro conjI impI decimal_library.money_error [OF assms])

theorem failure_leaves_no_trace_witness:
  "\<exists>s'. Transfer ref_deps demo_world 11 11 ''1.5'' demo_session = (Inl ErrSameAccountTransfer, s')
     \<and> others demo_world demo_db (sdb s')"
proof -
  have run: "Transfer ref_deps demo_world 11 11 ''1.5'' demo_session = (Inl ErrSameAccountTransfer, demo_session)"
    by (simp add: Transfer_def validatePositiveAmount_def demo_parse ref_dec.less_eq demo_num ref_dec.zero
        return_err_def)
  then show ?thesis
    using failure_leaves_no_trace [where s = demo_session and fromID = 11 and toID = 11
        and amountStr = "''1.5''" and e = ErrSameAccountTransfer and s' = demo_session,
        OF ref_dec.decimal_library_axioms quiet_rely [OF demo_quiet]]
    by (auto simp: demo_inv quiet_fault [OF demo_quiet])
qed

text \<open>
  C10. Without faults and other clients, a deposit of a valid amount into an existing account
  succeeds and moves exactly the rounded amount: the account gains it, the settlement account
  loses it, every other balance stays, two entries are added and none changed, as long as both
  balances fit the column.
\<close>

theorem deposit_moves:
  assumes "decimal_library X num" and "quiet W" and "ledger_inv (sdb s)"
    and "fresh_entries W (tick s) 8 (sdb s)"
    and "account_of (sdb s) accountID = Some a" and "settlement_id (sdb s) = Some sid"
    and "NewFromString X amountStr = Some amount" and "0 < num amount"
    and "round4 (num amount) = n" and "0 < n" and "n < numeric_limit"
    and "acc_Balance a + n < numeric_limit"
    and "balance_of (sdb s) sid = Some sb" and "- numeric_limit < sb - n"
  shows "\<exists>s'. Deposit X W accountID amountStr s = (Inr (), s') \<and> moved sid accountID n (sdb s) (sdb s')"
  by (rule decimal_library.Deposit_effect [OF assms])

theorem deposit_moves_witness:
  "\<exists>s'. Deposit ref_deps demo_world 12 ''1.5'' demo_session = (Inr (), s')
     \<and> moved 10 12 15000 demo_db (sdb s')"
  using deposit_moves [OF ref_dec.decimal_library_axioms demo_quiet, of demo_session 12 _ 10 "''1.5''" "(15, 1)"
      15000 "- 1000000"]
  by (simp add: demo_inv demo_fresh demo_accounts demo_balances demo_parse demo_num numeric_limit_def)

text \<open>
  C11. Without faults and other clients, a withdrawal that the balance covers succeeds and moves
  exactly the rounded amount to the settlement account; that it fits the columns follows from
  the invariant.
\<close>

theorem withdraw_moves:
  assumes "decimal_library X num" and "quiet W" and "ledger_inv (sdb s)"
    and "fresh_entries W (tick s) 8 (sdb s)"
    and "account_of (sdb s) accountID = Some a" and "settlement_id (sdb s) = Some sid"
    and "NewFromString X amountStr = Some amount" and "0 < num amount"
    and "num amount \<le> of_int (acc_Balance a) / 10000"
    and "round4 (num amount) = n" and "0 < n"
  shows "\<exists>s'. Withdraw X W accountID amountStr s = (Inr (), s') \<and> moved accountID sid n (sdb s) (sdb s')"
  by (rule decimal_library.Withdraw_effect [OF assms])

theorem withdraw_moves_witness:
  "\<exists>s'. Withdraw ref_deps demo_world 11 ''1.5'' demo_session = (Inr (), s')
     \<and> moved 11 10 15000 demo_db (sdb s')"
  using withdraw_moves [OF ref_dec.decimal_library_axioms demo_quiet, of demo_session 11 _ 10 "''1.5''" "(15, 1)" 15000]
  by (simp add: demo_inv demo_fresh demo_accounts demo_parse demo_num)

text \<open>
  C12. Without faults and other clients, a transfer between two existing accounts that the
  source's balance covers succeeds and moves exactly the rounded amount.
\<close>

theorem transfer_moves:
  assumes "decimal_library X num" and "quiet W" and "ledger_inv (sdb s)"
    and "fresh_entries W (tick s) 8 (sdb s)"
    and "account_of (sdb s) fromID = Some a" and "account_of (sdb s) toID = Some b" and "fromID \<noteq> toID"
    and "NewFromString X amountStr = Some amount" and "0 < num amount"
    and "num amount \<le> of_int (acc_Balance a) / 10000"
    and "round4 (num amount) = n" and "0 < n" and "acc_Balance b + n < numeric_limit"
  shows "\<exists>s'. Transfer X W fromID toID amountStr s = (Inr (), s') \<and> moved fromID toID n (sdb s) (sdb s')"
  by (rule decimal_library.Transfer_effect [OF assms])

theorem transfer_moves_witness:
  "\<exists>s'. Transfer ref_deps demo_world 11 12 ''1.5'' demo_session = (Inr (), s')
     \<and> moved 11 12 15000 demo_db (sdb s')"
  using transfer_moves [OF ref_dec.decimal_library_axioms demo_quiet, of demo_session 11
      "demo_account 11 (Some 1) ''A'' 1000000" 12 "demo_account 12 (Some 2) ''B'' 0" "''1.5''" "(15, 1)" 15000]
  by (simp add: demo_inv demo_fresh demo_accounts demo_parse demo_num numeric_limit_def)

text \<open>
  C13. Without faults and other clients, a withdrawal or a transfer of more than the account's
  balance is refused with \<open>ErrInsufficientFunds\<close> and changes nothing.
\<close>

theorem overdraft_refused:
  assumes "decimal_library X num" and "quiet W" and "ledger_inv (sdb s)"
    and "account_of (sdb s) i = Some a" and "account_of (sdb s) toID = Some b" and "i \<noteq> toID"
    and "NewFromString X amountStr = Some amount" and "0 < num amount"
    and "of_int (acc_Balance a) / 10000 < num amount"
  shows "(\<exists>s'. Withdraw X W i amountStr s = (Inl ErrInsufficientFunds, s') \<and> sdb s' = sdb s)
    \<and> (\<exists>s'. Transfer X W i toID amountStr s = (Inl ErrInsufficientFunds, s') \<and> sdb s' = sdb s)"
proof -
  obtain st where st: "find is_settlement (accounts (sdb s)) = Some st"
    using inv_settlement [OF assms(3)] by blast
  have cur: "acc_Currency a = acc_Currency st" "acc_Currency a = acc_Currency b"
    using inv_accounts(1) [OF assms(3)] find_SomeD [OF st] account_of_SomeD [OF assms(4)]
      account_of_SomeD [OF assms(5)] by simp_all
  show ?thesis
    using decimal_library.Withdraw_insufficient [OF assms(1,2) st assms(4) cur(1) assms(7-9)]
      decimal_library.Transfer_insufficient [OF assms(1,2,4-6) cur(2) assms(7-9)] by blast
qed

theorem overdraft_refused_witness:
  "\<exists>s'. Transfer ref_deps demo_world 12 11 ''1.5'' demo_session = (Inl ErrInsufficientFunds, s') \<and> sdb s' = demo_db"
  using overdraft_refused [OF ref_dec.decimal_library_axioms demo_quiet, of demo_session 12
      "demo_account 12 (Some 2) ''B'' 0" 11 "demo_account 11 (Some 1) ''A'' 1000000" "''1.5''" "(15, 1)"]
  by (simp add: demo_inv demo_accounts demo_parse demo_num)

text \<open>
  C14. Although the handlers let any user name the ownerless settlement account, no withdrawal
  or transfer from it ever succeeds, whatever the faults and the other clients.
\<close>

theorem settlement_never_debited:
  assumes "decimal_library X num" and "rely W" and "commit_reports W" and "ledger_inv (sdb s)"
    and "settlement_id (sdb s) = Some sid"
  shows "(\<nexists>u s'. Withdraw X W sid amountStr s = (Inr u, s'))
    \<and> (\<nexists>u s'. Transfer X W sid toID amountStr s = (Inr u, s'))"
  using decimal_library.Withdraw_settlement [OF assms] decimal_library.Transfer_settlement [OF assms] by blast

theorem settlement_never_debited_witness:
  "\<nexists>u s'. Withdraw ref_deps demo_world 10 ''1.5'' demo_session = (Inr u, s')"
  using settlement_never_debited [OF ref_dec.decimal_library_axioms quiet_rely [OF demo_quiet]
      quiet_commit_reports [OF demo_quiet], of demo_session 10] demo_inv demo_accounts(4) by simp

text \<open>
  C15. An amount that is no positive decimal is refused with \<open>ErrInvalidAmount\<close> by all three
  operations before any statement is sent, in every world.
\<close>

theorem invalid_amount_refused:
  assumes "decimal_library X num"
    and "\<And>d. NewFromString X amountStr = Some d \<Longrightarrow> num d \<le> 0"
  shows "Deposit X W accountID amountStr s = (Inl ErrInvalidAmount, s)
    \<and> Withdraw X W accountID amountStr s = (Inl ErrInvalidAmount, s)
    \<and> Transfer X W fromID toID amountStr s = (Inl ErrInvalidAmount, s)"
proof -
  have "validatePositiveAmount X amountStr = Inl ErrInvalidAmount"
    using assms(2) decimal_library.less_eq [OF assms(1)] decimal_library.zero [OF assms(1)]
    by (auto simp: validatePositiveAmount_def split: option.split)
  then show ?thesis by (simp add: Deposit_def Withdraw_def Transfer_def return_err_def)
qed

theorem invalid_amount_refused_witness:
  "Deposit ref_deps demo_world 11 ''-3'' demo_session = (Inl ErrInvalidAmount, demo_session)"
proof -
  have "numeric_parse ''-3'' = Some (-3, 0)" by code_simp
  then have "NewFromString ref_deps ''-3'' = Some (-3, 0)" by (simp add: ref_deps_def)
  then show ?thesis
    using invalid_amount_refused [OF ref_dec.decimal_library_axioms, of "''-3''"] by (simp add: ref_num_def)
qed

text \<open>
  C16. A positive amount below half of a ten-thousandth passes the validation, is rounded to
  zero and is refused only by the table's constraint: the deposit fails with a database error,
  which the handler answers with status 500, and not with \<open>ErrInvalidAmount\<close>.
\<close>

theorem tiny_deposit_hits_constraint:
  assumes "decimal_library X num" and "quiet W" and "ledger_inv (sdb s)"
    and "account_of (sdb s) accountID = Some a"
    and "NewFromString X amountStr = Some amount" and "0 < num amount" and "num amount < 1 / 20000"
  shows "\<exists>s'. Deposit X W accountID amountStr s = (Inl check_violation, s') \<and> sdb s' = sdb s
    \<and> deposit_code check_violation = 500"
proof -
  obtain st where st: "find is_settlement (accounts (sdb s)) = Some st"
    using inv_settlement [OF assms(3)] by blast
  have "acc_Currency a = acc_Currency st"
    using inv_accounts(1) [OF assms(3)] find_SomeD [OF st] account_of_SomeD [OF assms(4)] by simp
  from decimal_library.Deposit_tiny [OF assms(1,2) st assms(4) this assms(5-7)] show ?thesis
    by (auto simp: deposit_code_def check_violation_def)
qed

theorem tiny_deposit_hits_constraint_witness:
  "\<exists>s'. Deposit ref_deps demo_world 11 ''0.00001'' demo_session = (Inl check_violation, s') \<and> sdb s' = demo_db"
proof -
  have "numeric_parse ''0.00001'' = Some (1, 5)" by code_simp
  then have "NewFromString ref_deps ''0.00001'' = Some (1, 5)" by (simp add: ref_deps_def)
  then show ?thesis
    using tiny_deposit_hits_constraint [OF ref_dec.decimal_library_axioms demo_quiet, of demo_session 11 _
        "''0.00001''" "(1, 5)"]
    by (auto simp: demo_inv demo_accounts ref_num_def)
qed

subsection \<open>Idempotency\<close>

text \<open>
  C17. The contract of the idempotency middleware on the protected routes. A first tracked
  request is served without faults and answered below 500. Then every later request with the
  same key, user and body, in any world and after any ledger steps, gets the same status and
  body from the table and the handler does not run, as long as the look-up is answered. The
  later request may name another route: the key does not contain it.
\<close>

theorem idempotent_replay:
  assumes "decimal_library X num" and "quiet W" and "ledger_inv (sdb s)"
    and "tracking_key X r = Some (h, u)" and "h \<notin> idk_ID ` set (idempotency_keys (sdb s))"
    and "IdempotencyMiddleware X W (protected_handler X W rt) r s = (x, s1)"
    and "client_status x < 500"
    and "tracking_key X r' = Some (h, u)" and "rely W'" and "fault W' (tick s2) = NoFault"
    and "db_steps (sdb s1) (sdb s2)"
  shows "\<exists>k. IdempotencyMiddleware X W' (protected_handler X W' rt') r' s2
           = (replay k, s2\<lparr>sdb := interfere W' (tick s2) (sdb s2), tick := Suc (tick s2)\<rparr>)
         \<and> client_status (replay k) = client_status x \<and> client_body (replay k) = client_body x"
  by (rule protected_replayed [OF assms])

theorem idempotent_replay_witness:
  "\<exists>x s1 k. IdempotencyMiddleware ref_deps demo_world (protected_handler ref_deps demo_world PostTransfers)
         (demo_request ''POST'' ''11'' []) demo_session = (x, s1)
     \<and> client_status x = 400
     \<and> IdempotencyMiddleware ref_deps demo_world (protected_handler ref_deps demo_world PostDeposit)
         (demo_request ''POST'' ''11'' []) s1 = (replay k, s1\<lparr>tick := Suc (tick s1)\<rparr>)
     \<and> client_status (replay k) = 400"
proof -
  let ?r = "demo_request ''POST'' ''11'' []"
  obtain h where key: "tracking_key ref_deps ?r = Some (h, 1)"
    by (simp add: demo_key)
  obtain s1 where run: "IdempotencyMiddleware ref_deps demo_world (protected_handler ref_deps demo_world PostTransfers)
         ?r demo_session = (respondError 400 ''invalid input'', s1)"
    by (rule demo_first_request)
  from idempotent_replay [where rt' = PostDeposit and s = demo_session,
      OF ref_dec.decimal_library_axioms demo_quiet _ key _ run _ key
        quiet_rely [OF demo_quiet], of s1] run
  show ?thesis
    by (auto simp: demo_inv quiet_fault [OF demo_quiet] quiet_interfere [OF demo_quiet] steps_refl)
qed

text \<open>
  C18. A tracked request whose look-up finds nothing runs the handler, whatever other request
  with the same key is still in progress; an answer below 500 is then stored with one more
  statement, whose failure is not reported, and after an answer of 500 or more nothing is
  stored, so that a repetition executes again.
\<close>

theorem middleware_miss:
  assumes "tracking_key X r = Some (h, u)"
    and "GetIdempotencyKey W Pool \<lparr>gik_ID = h, gik_UserID = u\<rparr> s = (Inl dbErr, s1)"
    and "protected_handler X W rt r s1 = (calls, s2)"
  shows "IdempotencyMiddleware X W (protected_handler X W rt) r s =
    (calls, if client_status calls < 500
            then snd (CreateIdempotencyKey W Pool
                   \<lparr>cik_ID = h, cik_UserID = u, cik_ResponseCode = word_of_int (client_status calls),
                    cik_ResponseBody = Some (client_body calls)\<rparr> s2)
            else s2)"
proof -
  note ans = answers_client [OF protected_answers [OF assms(3)]]
  have "sends_once False calls" and "client_body calls \<noteq> []" using ans by simp_all
  then show ?thesis
    by (simp add: middleware_tracked [OF assms(1)] assms(2,3) Let_def icpt_status icpt_client_body buffer_bytes_def)
qed

theorem middleware_miss_witness:
  "\<exists>h s2. IdempotencyMiddleware ref_deps demo_world (protected_handler ref_deps demo_world PostTransfers)
         (demo_request ''POST'' ''11'' []) demo_session
       = (respondError 400 ''invalid input'',
          snd (CreateIdempotencyKey demo_world Pool
             \<lparr>cik_ID = h, cik_UserID = 1, cik_ResponseCode = word_of_int 400,
              cik_ResponseBody = Some (client_body (respondError 400 ''invalid input''))\<rparr> s2))"
proof -
  let ?r = "demo_request ''POST'' ''11'' []"
  obtain h where key: "tracking_key ref_deps ?r = Some (h, 1)"
    by (simp add: demo_key)
  have get: "GetIdempotencyKey demo_world Pool \<lparr>gik_ID = h, gik_UserID = 1\<rparr> demo_session
      = (Inl ErrNoRows, demo_session\<lparr>tick := Suc 0\<rparr>)"
    by (rule demo_lookup)
  from middleware_miss [OF key get demo_handler] show ?thesis by auto
qed

text \<open>
  C19. A deposit is executed twice when the answer to its commit is lost: the first request is
  answered 500 although the amount was posted, nothing is stored for its key, and the
  repetition with the same key posts the amount again and is answered 200.
\<close>

theorem lost_reply_executes_twice:
  assumes "decimal_library X num" and "quiet W" and "deposit_request X num r h u i n"
    and "can_deposit (sdb s) sid i u (n + n)" and "h \<notin> idk_ID ` set (idempotency_keys (sdb s))"
    and "fresh_entries W (tick s) 24 (sdb s)" and "V = lose_reply W (tick s + 10) msg"
  shows "\<exists>s1 s2. IdempotencyMiddleware X V (protected_handler X V PostDeposit) r s = (commit_lost msg, s1)
    \<and> IdempotencyMiddleware X W (protected_handler X W PostDeposit) r s1 = (deposit_done, s2)
    \<and> moved_money sid i n (sdb s) (sdb s1) \<and> moved_money sid i n (sdb s1) (sdb s2)"
  by (rule decimal_library.lost_reply_twice [OF assms])

theorem lost_reply_executes_twice_witness:
  "\<exists>s1 s2. moved_money 10 11 15000 demo_db (sdb s1) \<and> moved_money 10 11 15000 (sdb s1) (sdb s2)
     \<and> IdempotencyMiddleware ref_deps demo_world (protected_handler ref_deps demo_world PostDeposit)
         (demo_request ''POST'' ''11'' demo_body) s1 = (deposit_done, s2)"
  using lost_reply_executes_twice [OF ref_dec.decimal_library_axioms demo_quiet demo_deposit_request, of demo_session 10]
    demo_can_deposit demo_fresh_window(1) [of 0 24] by simp blast

text \<open>
  C20. A deposit is executed twice when another server handles the same request between the
  look-up and the first statement of the handler: both requests carry the same key, both are
  answered 200 and both post the amount.
\<close>

theorem overlapping_requests_execute_twice:
  assumes "decimal_library X num" and "quiet W" and "quiet V" and "deposit_request X num r h u i n"
    and "can_deposit (sdb s) sid i u (n + n)" and "h \<notin> idk_ID ` set (idempotency_keys (sdb s))"
    and "fresh_entries W (tick s) 10 (sdb s)" and "fresh_entries V 0 10 (sdb s)"
    and "fresh W ` {tick s..<tick s + 10} \<inter> fresh V ` {0..<10} = {}"
    and "W' = overtaken X W (Suc (tick s)) r V"
  shows "\<exists>t s'. IdempotencyMiddleware X V (protected_handler X V PostDeposit) r (fresh_session (sdb s)) = (deposit_done, t)
    \<and> IdempotencyMiddleware X W' (protected_handler X W' PostDeposit) r s = (deposit_done, s')
    \<and> moved_money sid i n (sdb s) (sdb t) \<and> moved_money sid i n (sdb t) (sdb s')"
  by (rule decimal_library.overtaken_twice [OF assms])

theorem overlapping_requests_execute_twice_witness:
  "\<exists>d s'. IdempotencyMiddleware ref_deps (overtaken ref_deps demo_world 1 (demo_request ''POST'' ''11'' demo_body) demo_peer)
         (protected_handler ref_deps (overtaken ref_deps demo_world 1 (demo_request ''POST'' ''11'' demo_body) demo_peer) PostDeposit)
         (demo_request ''POST'' ''11'' demo_body) demo_session = (deposit_done, s')
     \<and> moved_money 10 11 15000 demo_db d \<and> moved_money 10 11 15000 d (sdb s')"
  using overlapping_requests_execute_twice [OF ref_dec.decimal_library_axioms demo_quiet demo_peer_quiet demo_deposit_request,
      of demo_session 10] demo_can_deposit demo_fresh_window(1) [of 0 10] demo_fresh_window(2) [of 0 10] demo_disjoint
  by simp blast

text \<open>
  C21. The middleware is transparent for the first answer: what the recording writer passes on
  is what the handler sends, for every sequence of calls, and it records the body the client
  gets.
\<close>

theorem interceptor_transparent:
  "ResponseWriter (icpt_run calls) = wr_run new_writer calls
   \<and> bodyBuffer (icpt_run calls) = client_body calls"
  by (simp add: icpt_run_writer icpt_client_body)

subsection \<open>Reconciliation\<close>

text \<open>
  C22. \<open>ReconcileAccount\<close> compares the balance stored in what its first statement sees with the
  sum of the entries in what its second statement sees, exactly: it agrees when they are
  equal, and otherwise reports both. On a ledger that satisfies the invariant and that nobody
  changes in between, it agrees for every account.
\<close>

theorem reconcile_compares:
  assumes "decimal_library X num"
    and "fault W (tick s) = NoFault" and "fault W (Suc (tick s)) = NoFault"
    and "interfere W (tick s) (sdb s) = d1" and "interfere W (Suc (tick s)) d1 = d2"
    and "account_of d1 accountID = Some a"
    and "\<bar>entry_sum accountID (entries d2)\<bar> < numeric_limit"
  shows "ReconcileAccount X W accountID s =
      (if acc_Balance a = entry_sum accountID (entries d2) then Inr True
       else Inl (ErrorsNew (''balance mismatch: stored '' @ numeric_out (acc_Balance a)
              @ '', calculated '' @ numeric_out (entry_sum accountID (entries d2)))),
       s\<lparr>sdb := d2, tick := tick s + 2\<rparr>)
    \<and> (ledger_inv d1 \<and> d2 = d1 \<longrightarrow> fst (ReconcileAccount X W accountID s) = Inr True)"
  using decimal_library.ReconcileAccount_reads [OF assms] inv_accounts(4) account_of_SomeD [OF assms(6)] by auto

theorem reconcile_compares_witness:
  "ReconcileAccount ref_deps demo_world 12 demo_session = (Inr True, demo_session\<lparr>tick := 2\<rparr>)"
  using reconcile_compares [OF ref_dec.decimal_library_axioms, of demo_world demo_session demo_db demo_db 12
      "demo_account 12 (Some 2) ''B'' 0"]
  by (simp add: quiet_fault [OF demo_quiet] quiet_interfere [OF demo_quiet] demo_accounts numeric_limit_def)
    (simp add: demo_db_def demo_entry_def demo_session_def fresh_session_def eval_nat_numeral)

text \<open>
  C23. The two reads of \<open>ReconcileAccount\<close> are not one transaction. On a correct ledger, when
  another client takes one correct step between the two reads, a posting of \<open>n\<close> from \<open>src\<close> to
  \<open>dst\<close>, it reports a mismatch for both accounts: as stored the balance before the posting, as
  calculated the balance after it. No call failed, the ledger satisfies the invariant on both
  states, and on each of them alone the comparison agrees.
\<close>

theorem reconcile_false_alarm:
  assumes "decimal_library X num" and "fault W (tick s) = NoFault" and "fault W (Suc (tick s)) = NoFault"
    and "interfere W (tick s) (sdb s) = d1" and "interfere W (Suc (tick s)) d1 = d2"
    and "ledger_inv d1" and "db_step d1 d2" and "posting opt src dst n d1 d2"
    and "src \<noteq> dst" and "accountID \<in> {src, dst}" and "account_of d1 accountID = Some a"
  shows "ReconcileAccount X W accountID s =
      (Inl (ErrorsNew (''balance mismatch: stored '' @ numeric_out (acc_Balance a) @ '', calculated ''
              @ numeric_out (acc_Balance a + (if accountID = src then - n else n)))),
       s\<lparr>sdb := d2, tick := tick s + 2\<rparr>)
    \<and> ledger_inv d2
    \<and> (quiet V \<longrightarrow> fst (ReconcileAccount X V accountID (s\<lparr>sdb := d1\<rparr>)) = Inr True
         \<and> fst (ReconcileAccount X V accountID (s\<lparr>sdb := d2\<rparr>)) = Inr True)"
  using decimal_library.ReconcileAccount_race [OF assms] by blast

theorem reconcile_false_alarm_witness:
  "ReconcileAccount ref_deps demo_race_world 12 demo_session =
     (Inl (ErrorsNew (''balance mismatch: stored '' @ numeric_out 0 @ '', calculated '' @ numeric_out 5000)),
      demo_session\<lparr>sdb := demo_db_after, tick := 2\<rparr>)
   \<and> fst (ReconcileAccount ref_deps demo_world 12 (demo_session\<lparr>sdb := demo_db_after\<rparr>)) = Inr True"
proof -
  have "(11 :: uuid) \<noteq> 12" "(12 :: uuid) \<in> {11, 12}" by simp_all
  moreover have "fault demo_race_world t = NoFault" for t by (simp add: demo_race_world_def demo_world_def)
  moreover have "interfere demo_race_world 0 demo_db = demo_db" "interfere demo_race_world (Suc 0) demo_db = demo_db_after"
    by (simp_all add: demo_race_world_def demo_world_def)
  ultimately show ?thesis
    using reconcile_false_alarm [where W = demo_race_world and s = demo_session and V = demo_world,
        OF ref_dec.decimal_library_axioms _ _ _ _ demo_inv demo_race_step demo_race_posting _ _ demo_accounts(3)]
    by (simp add: demo_quiet)
qed

subsection \<open>Retries\<close>

text \<open>
  C24. Whatever happens, a deposit, withdrawal or transfer waits at most 5.55 seconds between
  its attempts, together: the waits 50 ms, 100 ms, ... capped at one second, nine times. That
  is well inside the time the HTTP server of \<open>main\<close> gives a request to be answered.
\<close>

theorem operations_wait_bounded:
  assumes "op \<in> {Deposit X W accountID amountStr, Withdraw X W accountID amountStr,
                  Transfer X W fromID toID amountStr}"
    and "op s = (r, s')"
  shows "slept s' \<le> slept s + 5550 * millisecond
    \<and> 2 * (5550 * millisecond) < WriteTimeout (http_server getenv)"
  using assms operations_slept [of X W] by (auto simp: http_server_def seconds_ns_def millisecond_def)

theorem operations_wait_bounded_witness:
  "slept (snd (Deposit ref_deps demo_world 11 ''1.5'' demo_session)) \<le> 5550 * millisecond
   \<and> 2 * (5550 * millisecond) < WriteTimeout (http_server demo_env)"
  using operations_wait_bounded [of "Deposit ref_deps demo_world 11 ''1.5''" ref_deps demo_world 11 "''1.5''" 11 12
      demo_session "fst (Deposit ref_deps demo_world 11 ''1.5'' demo_session)"
      "snd (Deposit ref_deps demo_world 11 ''1.5'' demo_session)" demo_env] by simp

text \<open>
  C25. What \<open>ExecTx\<close> makes of the attempt after \<open>n\<close> serialization conflicts, each followed by its
  wait: if it commits, that is the result; an error that is no serialization error is returned
  as it is, without another attempt; and a serialization error in the tenth and last attempt is
  wrapped, so that it is still recognized as one.
\<close>

theorem retries_end:
  assumes "conflicts W fn n s s0" and "n < maxAttempts" and "execTxOnce W fn s0 = (r, s1)"
    and "n = maxAttempts - 1 \<or> (case r of Inr u \<Rightarrow> True | Inl e \<Rightarrow> \<not> isSerializationError e)"
  shows "ExecTx W fn s =
      (case r of
         Inr u \<Rightarrow> Inr ()
       | Inl e \<Rightarrow> Inl (if isSerializationError e then attempts_exhausted (Some e) else e), s1)
    \<and> (\<forall>e. isSerializationError e \<longrightarrow> isSerializationError (attempts_exhausted (Some e)))"
proof (cases r)
  case (Inr u)
  then show ?thesis using ExecTx_live [OF assms(1,2)] assms(3) by (simp add: attempts_exhausted_def Let_def)
next
  case (Inl e)
  then show ?thesis
    using ExecTx_failed [OF assms(1,2), of e s1] ExecTx_exhausted [of W fn s s0 e s1] assms
    by (auto simp: attempts_exhausted_def Let_def)
qed

theorem retries_end_witness:
  "(\<exists>s1. ExecTx (busy_world 17) (return_ok ()) demo_session = (Inr (), s1))
   \<and> (\<exists>s1. ExecTx (busy_world 19) (return_ok ()) demo_session = (Inl (attempts_exhausted (Some conflict)), s1))"
proof
  obtain s0 where s0: "conflicts (busy_world 17) (return_ok ()) 9 demo_session s0" "tick s0 = 18"
    using busy_conflicts [of 9 17 "return_ok ()"] by auto
  obtain s1 where "execTxOnce (busy_world 17) (return_ok ()) s0 = (Inr (), s1)"
    by (simp add: execTxOnce_def busy_world_def demo_world_def return_ok_def Let_def s0(2))
  from retries_end [OF s0(1) _ this] show "\<exists>s1. ExecTx (busy_world 17) (return_ok ()) demo_session = (Inr (), s1)"
    by (auto simp: maxAttempts_def)
next
  obtain s0 where s0: "conflicts (busy_world 19) (return_ok ()) 9 demo_session s0" "tick s0 = 18"
    using busy_conflicts [of 9 19 "return_ok ()"] by (auto simp: maxAttempts_def)
  obtain s1 where "execTxOnce (busy_world 19) (return_ok ()) s0 = (Inl conflict, s1)"
    by (simp add: execTxOnce_def busy_world_def demo_world_def Let_def s0(2))
  from retries_end [OF s0(1) _ this]
  show "\<exists>s1. ExecTx (busy_world 19) (return_ok ()) demo_session = (Inl (attempts_exhausted (Some conflict)), s1)"
    by (auto simp: maxAttempts_def)
qed

subsection \<open>Locks\<close>

text \<open>
  C26. Deposits and withdrawals never deadlock. Whatever set of them is open, in whatever order
  they began, took their rows and ended, each asking for the rows that its callback locks when it
  runs, in that order, in any world and on any tables with the same settlement account: no
  transaction waits for itself through others, and as long as one is open, one of them does not
  wait. For the callbacks of \<open>Deposit\<close> and \<open>Withdraw\<close> lock the settlement account first.
\<close>

theorem deposits_never_deadlock:
  assumes "lock_reachable X no_transfer settlement s"
  shows "\<not> deadlocked s \<and> (s = Map.empty \<or> (\<exists>t \<in> dom s. \<forall>u. \<not> waits_for s t u))"
  using settlement_locks.never_deadlocked [OF assms] settlement_locks.some_not_waiting [OF assms] by metis

theorem deposits_never_deadlock_witness:
  "\<not> deadlocked [0 \<mapsto> \<lparr>held = [10], todo = [11]\<rparr>, 1 \<mapsto> \<lparr>held = [], todo = [10, 12]\<rparr>]"
  using deposits_never_deadlock [OF demo_two_locked] by simp

text \<open>
  C27. The callback of \<open>Transfer\<close> locks the source, then the destination, in the order the client
  names them: on tables that have both accounts, two opposite transfers ask for the same two rows
  in opposite orders, and reach a state in which each holds the row the other asks for.
\<close>

theorem opposite_transfers_deadlock:
  assumes "a \<noteq> b" and "{a, b} \<subseteq> acc_ID ` set (accounts (sdb u))" and "settlement_row u = Some settlement"
    and "fault W (tick u) = NoFault"
  shows "lock_plan X W (TransferCall a b amount) u = [a, b] \<and> lock_plan X W (TransferCall b a amount') u = [b, a]
    \<and> (\<exists>s. lock_reachable X (\<lambda>c. c \<in> {TransferCall a b amount, TransferCall b a amount'}) settlement s
         \<and> waits_for s 0 1 \<and> waits_for s 1 0 \<and> deadlocked s)"
proof -
  have rows: "stored_row a u = Some a" "stored_row b u = Some b" using assms(2) by (simp_all add: stored_row_def)
  note plans = transfer_plan [OF assms(4) rows assms(1), of X amount]
    transfer_plan [OF assms(4) rows(2,1) assms(1) [symmetric], of X amount']
  have "lock_reachable X (\<lambda>c. c \<in> {TransferCall a b amount, TransferCall b a amount'}) settlement (crossed a b)"
    by (rule crossed_reachable [OF plans _ _ assms(3,3,1)]) simp_all
  with plans crossed_waits [of a b] crossed_deadlocked [of a b] show ?thesis by blast
qed

theorem opposite_transfers_deadlock_witness:
  "\<exists>s. lock_reachable ref_deps (\<lambda>c. c \<in> {TransferCall 11 12 (15, 1), TransferCall 12 11 (2, 0)}) 10 s
     \<and> deadlocked s"
proof -
  have "(11 :: uuid) \<noteq> 12" "{11, 12} \<subseteq> acc_ID ` set (accounts (sdb demo_session))"
    by (simp_all add: demo_db_def demo_account_def)
  from opposite_transfers_deadlock [where u = demo_session and W = demo_world and X = ref_deps
      and amount = "(15, 1)" and amount' = "(2, 0)", OF this demo_settlement_row quiet_fault [OF demo_quiet]] show ?thesis
    by blast
qed

text \<open>
  C28. The victim of a deadlock is refused for good: a tracked transfer whose second lock fails
  with SQLSTATE 40P01 is not tried again, is answered 400 with the text of the database, and
  moves nothing; this answer is stored, so every later request with the key gets it, in any
  world and after any ledger steps, and no handler runs.
\<close>

theorem deadlock_victim_final:
  assumes "quiet W" and "V = victim_at W (tick s + 4) msg" and "ledger_inv (sdb s)"
    and "transfer_request X r h u fromID toID" and "account_of (sdb s) fromID = Some a" and "acc_OwnerID a = Some u"
    and "h \<notin> idk_ID ` set (idempotency_keys (sdb s))"
    and "IdempotencyMiddleware X V (protected_handler X V PostTransfers) r s = (x, s1)"
    and "rely W'" and "fault W' (tick t) = NoFault" and "db_steps (sdb s1) (sdb t)"
  shows "x = respondError 400 msg \<and> accounts (sdb s1) = accounts (sdb s) \<and> entries (sdb s1) = entries (sdb s)
    \<and> (\<exists>k. IdempotencyMiddleware X W' next_handler r t
           = (replay k, t\<lparr>sdb := interfere W' (tick t) (sdb t), tick := Suc (tick t)\<rparr>)
         \<and> client_status (replay k) = 400 \<and> client_body (replay k) = client_body x)"
  by (rule victim_final [OF assms])

theorem deadlock_victim_final_witness:
  "\<exists>s1 k. IdempotencyMiddleware ref_deps (victim_at demo_world 4 ''deadlock detected'')
        (protected_handler ref_deps (victim_at demo_world 4 ''deadlock detected'') PostTransfers)
        (demo_request ''POST'' [] demo_body) demo_session = (respondError 400 ''deadlock detected'', s1)
     \<and> IdempotencyMiddleware ref_deps demo_world (protected_handler ref_deps demo_world PostTransfers)
        (demo_request ''POST'' [] demo_body) s1 = (replay k, s1\<lparr>tick := Suc (tick s1)\<rparr>)
     \<and> client_status (replay k) = 400"
proof -
  let ?V = "victim_at demo_world 4 ''deadlock detected''" and ?r = "demo_request ''POST'' [] demo_body"
  obtain x s1 where run: "IdempotencyMiddleware ref_deps ?V (protected_handler ref_deps ?V PostTransfers) ?r demo_session = (x, s1)"
    by force
  have account: "account_of (sdb demo_session) 11 = Some (demo_account 11 (Some 1) ''A'' 1000000)"
    by (simp add: demo_accounts)
  from deadlock_victim_final [where msg = "''deadlock detected''"
        and next_handler = "protected_handler ref_deps demo_world PostTransfers", OF demo_quiet _ _ demo_transfer_request account _ _ run
      quiet_rely [OF demo_quiet] quiet_fault [OF demo_quiet] steps_refl] run
  show ?thesis by (auto simp: demo_inv quiet_interfere [OF demo_quiet])
qed

subsection \<open>The handlers\<close>

text \<open>
  C29. Every handler of the API keeps the published document, on every branch and in every world:
  its answer is one JSON response with a status code that \<open>docs.go\<close> lists for the route, and a
  body of the schema given there, with no member the schema does not name. The document asks
  for a token exactly on the routes behind the token check.
\<close>

theorem answers_match_document:
  assumes "\<not> probe rt" and "api_handler X W ta rt r s = (x, s')"
  shows "documented_answer (docTemplate SwaggerInfo) rt x
    \<and> (needs_token (docTemplate SwaggerInfo) rt \<longleftrightarrow> rt \<notin> {PostRegister, PostLogin})"
  using api_handler_documented [OF assms(2,1)] assms(1) tokens_documented [of rt] by (auto simp: probe_def)

theorem answers_match_document_witness:
  "documented_answer (docTemplate SwaggerInfo) PostTransfers
     (fst (protected_handler ref_deps demo_world PostTransfers (demo_request ''POST'' ''11'' demo_body) demo_session))"
  using answers_match_document [of PostTransfers ref_deps demo_world None "demo_request ''POST'' ''11'' demo_body" demo_session,
      OF _ surjective_pairing] by (simp add: api_handler_def probe_def)

text \<open>
  C30. A body that the document allows for a route is decoded by its handler without an error: the
  names and types of the request schemas are those of the structs.
\<close>

theorem documented_bodies_decode:
  assumes "body_schema (docTemplate SwaggerInfo) rt = Some schema" and "json_parse (Body r) = Some v"
    and "doc_conforms (docTemplate SwaggerInfo) schema v"
  shows "body_decodes rt r"
  by (rule documented_decodes [OF assms])

theorem documented_bodies_decode_witness:
  "body_decodes PostLogin (demo_request ''POST'' [] (credentials ''a@x''))"
  by (rule documented_bodies_decode [OF _ _ login_documented]) (simp_all add: body_documented demo_login_body)

text \<open>
  C31. On the routes that name an account, a user gets status 403 for an account of another
  user, whatever the request is, and the handler makes no call but the one that read the
  account.
\<close>

theorem foreign_account_refused:
  assumes "account_route rt" and "auth_user X r = Inr u" and "uuid_Parse X (URLParam r ''id'') = Some i"
    and "fault W (tick s) = NoFault" and "account_of (interfere W (tick s) (sdb s)) i = Some a"
    and "acc_OwnerID a = Some ow" and "ow \<noteq> u"
  shows "protected_handler X W rt r s
    = (respondError 403 ''access denied'', s\<lparr>sdb := interfere W (tick s) (sdb s), tick := Suc (tick s)\<rparr>)"
  by (rule foreign_account [OF assms])

theorem foreign_account_refused_witness:
  "protected_handler ref_deps demo_world PostWithdraw (demo_request ''POST'' ''12'' ''5'') demo_session
   = (respondError 403 ''access denied'', demo_session\<lparr>tick := 1\<rparr>)"
  using foreign_account_refused [OF _ demo_auth, of PostWithdraw "''POST''" "''12''" "''5''" 12 demo_world demo_session
      "demo_account 12 (Some 2) ''B'' 0" 2]
  by (simp add: account_route_def demo_accounts quiet_fault [OF demo_quiet] quiet_interfere [OF demo_quiet])

text \<open>
  C32. Without faults and other clients, the entries page of one's own account is the
  newest-first list of the account's entries from the offset (those of the same time as the model
  orders them, by insertion), as many as the limit, which is
  between 1 and 100 whatever the query says; the offset is what the conversion to 32 bits
  makes of the query's.
\<close>

theorem entries_page:
  assumes "auth_user X r = Inr u" and "uuid_Parse X (URLParam r ''id'') = Some i"
    and "quiet W" and "account_of (sdb s) i = Some a" and "acc_OwnerID a = Some u"
  shows "Handler_GetEntries X W r s =
    (let offset = sint (word_of_int (entries_offset (Query r ''offset'')) :: 32 word)
     in (if offset < 0 then respondError 500 ''failed to fetch entries''
         else respondJSON 200 (JArray (map (\<lambda>e. entry_json X (toEntryResponse X (scan_entry e)))
                (take (nat (entries_limit (Query r ''limit''))) (drop (nat offset)
                  (order_by_desc ent_CreatedAt (filter (\<lambda>e. ent_AccountID e = i) (entries (sdb s))))))))),
     s\<lparr>tick := tick s + 2\<rparr>)
    \<and> 0 < entries_limit (Query r ''limit'') \<and> entries_limit (Query r ''limit'') \<le> 100"
  using GetEntries_page [OF assms] entries_limit_range by blast

theorem entries_page_witness:
  "client_status (fst (Handler_GetEntries ref_deps demo_world (demo_request ''GET'' ''11'' []) demo_session)) = 200"
  using entries_page [OF demo_auth, of "''GET''" "''11''" "[]" 11 demo_world demo_session]
  by (simp add: demo_url demo_accounts demo_quiet demo_no_offset)

text \<open>
  C33. Without faults and other clients, the entries of a transaction are shown only to a user
  who owns an account that the transaction touched.
\<close>

theorem transaction_shown_to_owner:
  assumes "quiet W" and "auth_user X r = Inr u" and "uuid_Parse X (URLParam r ''id'') = Some tx"
    and "Handler_GetTransactions X W r s = (x, s')" and "client_status x = 200"
  shows "\<exists>e a. e \<in> set (entries (sdb s)) \<and> ent_TransactionID e = tx
           \<and> account_of (sdb s) (ent_AccountID e) = Some a \<and> acc_OwnerID a = Some u"
  by (rule GetTransactions_owner [OF assms])

theorem transaction_shown_to_owner_witness:
  "\<exists>e a. e \<in> set (entries demo_db) \<and> ent_TransactionID e = 30
     \<and> account_of demo_db (ent_AccountID e) = Some a \<and> acc_OwnerID a = Some 1"
proof -
  let ?r = "demo_request ''GET'' ''30'' []"
  obtain x s' where run: "Handler_GetTransactions ref_deps demo_world ?r demo_session = (x, s')" by force
  have "uuid_Parse ref_deps (URLParam ?r ''id'') = Some 30" by simp
  from transaction_shown_to_owner [OF demo_quiet demo_auth this run]
    demo_transactions [of "''GET''" "[]"] run
  show ?thesis by simp
qed

subsection \<open>Users, tokens, accounts\<close>

text \<open>
  C34. Without faults and other clients, registering with an address that is taken, or that the
  column cannot hold because of a zero byte, answers 409 and changes nothing; with a new one it
  adds exactly that user with the hash of the password, also when making the token fails
  afterwards.
\<close>

theorem register_adds_user:
  assumes "quiet W" and "decode_auth r = (True, \<lparr>aur_Email = email, aur_Password = pw\<rparr>)"
    and "email \<noteq> []" and "pw \<noteq> []" and "bcrypt_Generate X (tick s) pw = Some h"
    and "fresh W (tick s) \<notin> usr_ID ` set (users (sdb s))"
    and "Handler_Register X W ta r s = (x, s')"
  shows "if zero_byte email \<or> zero_byte h \<or> email \<in> usr_Email ` set (users (sdb s))
         then x = respondError 409 ''user already exists or failed'' \<and> sdb s' = sdb s
         else sdb s' = (sdb s)\<lparr>users := users (sdb s) @ [\<lparr>usr_ID = fresh W (tick s), usr_Email = email,
                usr_HashedPassword = h, usr_CreatedAt = Some (stmt_time W s)\<rparr>]\<rparr> \<and> client_status x \<in> {201, 500}"
  by (rule Register_quiet [OF assms])

theorem register_adds_user_witness:
  "length (users (sdb (snd (Handler_Register ref_deps demo_world None (demo_request ''POST'' [] (credentials ''c@x'')) demo_session)))) = 3
   \<and> client_status (fst (Handler_Register ref_deps demo_world None (demo_request ''POST'' [] (credentials ''a@x'')) demo_session)) = 409"
proof -
  have new: "fresh demo_world (tick demo_session) \<notin> usr_ID ` set (users (sdb demo_session))"
    by (simp add: demo_world_def demo_db_def demo_user_def)
  have pw: "bcrypt_Generate ref_deps (tick demo_session) ''pw'' = Some ''$2a$pw''" by (rule demo_bcrypt)
  have emails: "usr_Email ` set (users demo_db) = {''a@x'', ''b@x''}" "length (users demo_db) = 2"
    by (simp_all add: demo_db_def demo_user_def)
  obtain x s' where c: "Handler_Register ref_deps demo_world None (demo_request ''POST'' [] (credentials ''c@x'')) demo_session = (x, s')"
    by force
  obtain y t where a: "Handler_Register ref_deps demo_world None (demo_request ''POST'' [] (credentials ''a@x'')) demo_session = (y, t)"
    by force
  show ?thesis
    using register_adds_user [OF demo_quiet credentials_decode _ _ pw new c]
      register_adds_user [OF demo_quiet credentials_decode _ _ pw new a]
    by (simp add: c a emails zero_byte_def)
qed

text \<open>
  C35. Without faults and other clients, login changes nothing and succeeds only for a
  registered address whose stored hash accepts the password.
\<close>

theorem login_checks_password:
  assumes "quiet W" and "decode_auth r = (True, \<lparr>aur_Email = email, aur_Password = pw\<rparr>)"
    and "Handler_Login X W ta r s = (x, s')"
  shows "sdb s' = sdb s \<and> (client_status x = 200 \<longrightarrow> (\<exists>u. u \<in> set (users (sdb s)) \<and> usr_Email u = email
           \<and> bcrypt_Compare X (usr_HashedPassword u) pw))"
  by (rule Login_quiet [OF assms])

theorem login_checks_password_witness:
  "sdb (snd (Handler_Login ref_deps demo_world None (demo_request ''POST'' [] (credentials ''a@x'')) demo_session)) = demo_db"
proof -
  obtain x s' where run: "Handler_Login ref_deps demo_world None (demo_request ''POST'' [] (credentials ''a@x'')) demo_session = (x, s')"
    by force
  from login_checks_password [OF demo_quiet credentials_decode run] run show ?thesis by simp
qed

text \<open>
  C36. Without faults and other clients, creating an account with a name without zero byte adds exactly one
  account: a new identifier, owned by the caller, balance zero, in USD, not a system account;
  the answer shows it.
\<close>

theorem account_created:
  assumes "quiet W" and "auth_user X r = Inr u" and "decode_create_account r = (True, nm)" and "nm \<noteq> []"
    and "\<not> zero_byte nm" and "u \<in> usr_ID ` set (users (sdb s))" and "fresh W (tick s) \<notin> acc_ID ` set (accounts (sdb s))"
  shows "\<exists>a s'. Handler_CreateAccount X W r s
             = (respondJSON 201 (account_json X (toAccountResponse X (scan_account a))), s')
           \<and> sdb s' = (sdb s)\<lparr>accounts := accounts (sdb s) @ [a]\<rparr>
           \<and> acc_ID a = fresh W (tick s) \<and> acc_OwnerID a = Some u \<and> acc_Name a = nm \<and> acc_Balance a = 0
           \<and> acc_Currency a = ''USD'' \<and> \<not> acc_IsSystem a"
  by (rule CreateAccount_quiet [OF assms])

theorem account_created_witness:
  "\<exists>a s'. Handler_CreateAccount ref_deps demo_world (demo_request ''POST'' [] demo_body) demo_session
       = (respondJSON 201 (account_json ref_deps (toAccountResponse ref_deps (scan_account a))), s')
     \<and> sdb s' = demo_db\<lparr>accounts := accounts demo_db @ [a]\<rparr> \<and> acc_Name a = ''Savings''"
proof -
  have user: "1 \<in> usr_ID ` set (users (sdb demo_session))" by (simp add: demo_db_def demo_user_def)
  have new: "fresh demo_world (tick demo_session) \<notin> acc_ID ` set (accounts (sdb demo_session))"
    by (simp add: demo_world_def demo_db_def demo_account_def)
  show ?thesis
    using account_created [where r = "demo_request ''POST'' [] demo_body",
        OF demo_quiet demo_auth demo_decode_name _ _ user new] by (simp add: zero_byte_def, blast)
qed

text \<open>
  C37. What the service hands out it takes back: the claims of a token authenticate as the user
  it was made for, the identifier in an account's answer is parsed to the account's, the
  balance in it is read as exactly the stored number, and the JSON text of a response, whatever
  strings in UTF-8 it holds, is read by the request decoder as the value that was written.
\<close>

theorem responses_read_back:
  assumes "uuid_library X" and "decimal_library X num"
    and "Claims r = Inr (map_of (token_claims X u t))" and "json_ok data" and "json_depth data \<le> maxNestingDepth"
  shows "auth_user X r = Inr u \<and> json_parse (client_body (respondJSON code data)) = Some data
    \<and> uuid_Parse X (ar_ID (toAccountResponse X (scan_account a))) = Some (acc_ID a)
    \<and> (\<exists>d. NewFromString X (ar_Balance (toAccountResponse X (scan_account a))) = Some d
           \<and> num d = of_int (acc_Balance a) / 10000)"
  using assms(3) uuid_library.parse_string [OF assms(1)] decimal_library.parse [OF assms(2)]
    json_parse_encoded [OF assms(4,5), of "[CHR 0x0A]"]
  by (simp add: auth_user_def token_claims_def toAccountResponse_def stops_def)

theorem responses_read_back_witness:
  "auth_user ref_deps ((demo_request ''GET'' [] [])\<lparr>Claims := Inr (map_of (token_claims ref_deps 7 0))\<rparr>) = Inr 7
   \<and> json_parse (client_body (respondJSON 200 (JObject demo_members))) = Some (JObject demo_members)"
  using responses_read_back [OF ref_uuid.uuid_library_axioms ref_dec.decimal_library_axioms, of
      "(demo_request ''GET'' [] [])\<lparr>Claims := Inr (map_of (token_claims ref_deps 7 0))\<rparr>" 7 0 "JObject demo_members" 200]
  by (simp add: demo_members_def utf8_ascii maxNestingDepth_def)

subsection \<open>Rate limits and configuration\<close>

text \<open>
  C38. What the global limiter is worth, with a token bucket as its package documents it and a
  clock that does not go back. Take the requests that carry one client name, which is the
  \<open>X-API-Key\<close> header if there is one and else the remote address with its port. A process that
  starts with the limiters of \<open>main\<close> answers at most 50 of them, plus 100 for each second from the
  first to the last, with anything but status 429, not counting the preflights, which the CORS
  package answers before the limiter as often as they come. Such an answer costs no call and
  touches neither limiters nor tables. All this holds whatever the other clients send on any route,
  whatever the handlers do, and however often the cleanup goroutines throw idle buckets away.
\<close>

theorem served_rate_bounded:
  assumes "token_bucket (srv_limiter S)" and "mono (now W)"
    and "serve_all S W evs (main_process base, s) = (resps, st')"
    and "request_times c (global_events S W evs (main_process base, s)) = u # us"
  shows "of_nat (answered_to S c evs resps) \<le> 50 + 100 * seconds u (last (u # us))
    \<and> (\<forall>rt r prc s1 resp prc' s2. preflight_answered S r \<and> serve S W rt r (prc, s1) = (resp, (prc', s2)) \<longrightarrow>
         s2 = s1 \<and> prc_global prc' = prc_global prc \<and> prc_endpoint prc' = prc_endpoint prc)"
  using served_bound [OF assms] serve_preflight by blast

theorem served_rate_bounded_witness:
  "\<exists>resps st'. serve_all demo_server demo_world
       [Incoming GetReady (demo_request ''GET'' [] []), CleanupTick GlobalLimiter,
        Incoming GetReady (demo_request ''GET'' [] [])] (demo_process, demo_session) = (resps, st')
     \<and> answered_to demo_server ''10.0.0.1:4711''
         [Incoming GetReady (demo_request ''GET'' [] []), CleanupTick GlobalLimiter,
          Incoming GetReady (demo_request ''GET'' [] [])] resps \<le> 50"
proof -
  let ?evs = "[Incoming GetReady (demo_request ''GET'' [] []), CleanupTick GlobalLimiter,
               Incoming GetReady (demo_request ''GET'' [] [])]"
  obtain resps st' where run: "serve_all demo_server demo_world ?evs (demo_process, demo_session) = (resps, st')"
    by (metis prod.collapse)
  have "token_bucket (srv_limiter demo_server)"
    using ref_bucket.token_bucket_axioms by (simp add: demo_server_def)
  from served_rate_bounded [OF this demo_clock run [unfolded demo_process_def] demo_two_requests
      [unfolded demo_process_def]]
  have "(of_nat (answered_to demo_server ''10.0.0.1:4711'' ?evs resps) :: rat) < of_nat 51"
    by (simp add: seconds_def)
  then show ?thesis using run unfolding of_nat_less_iff by (intro exI [of _ resps] exI [of _ st']) simp
qed

text \<open>
  C39. In production, once the start-up checks are passed and with the CORS package as it is
  documented, no answer of the server, on any route and with any status, allows a page of
  another origin than the configured one to read it (unless that one is a pattern).
\<close>

theorem only_configured_origin:
  assumes "cors_library (srv_cors S)" and "rejects_plain S"
    and "startup (srv_env S) connect = Inr started" and "srv_env S ''ENVIRONMENT'' = ''production''"
    and "serve S W rt r (prc, s) = (Some calls, (prc', s'))"
    and "(''Access-Control-Allow-Origin'', v) \<in> set (client_headers calls)"
  shows "ToLower (Header r ''Origin'') = ToLower (srv_env S ''PROD_FRONTEND_URL'')
    \<or> CHR ''*'' \<in> set (srv_env S ''PROD_FRONTEND_URL'')"
proof -
  obtain connStr secret addr where "startup (srv_env S) connect = Inr (connStr, secret, addr)"
    using assms(3) by (metis prod.collapse)
  from startup_checks(1) [OF this] have "srv_env S ''PROD_FRONTEND_URL'' \<noteq> []"
    using assms(4) TrimSpace_Nil by (auto simp: validateEnvironment_ok)
  then have "parseAllowedOrigins (srv_env S) = [srv_env S ''PROD_FRONTEND_URL'']"
    using assms(4) by (simp add: parseAllowedOrigins_def)
  with serve_allow_origin [OF assms(1,2,5,6)] show ?thesis by (auto simp: origin_listed_def)
qed

theorem only_configured_origin_witness:
  "\<exists>calls prc' s'. serve demo_server demo_world GetReady demo_browser (demo_process, demo_session)
       = (Some calls, (prc', s'))
     \<and> ToLower (Header demo_browser ''Origin'') = ToLower ''https://bank.example''"
proof -
  obtain calls prc' s' where run: "serve demo_server demo_world GetReady demo_browser (demo_process, demo_session)
       = (Some calls, (prc', s'))"
    and granted: "(''Access-Control-Allow-Origin'', ''https://Bank.example'') \<in> set (client_headers calls)"
    by (rule demo_browser_granted)
  have "cors_library (srv_cors demo_server)" "rejects_plain demo_server"
    using ref_cors.cors_library_axioms by (simp_all add: demo_server_def rejects_plain_def)
  from only_configured_origin [OF this demo_startup _ run granted] run show ?thesis
    by (simp add: demo_server_def demo_env_def)
qed

text \<open>
  C40. A server that gets as far as listening has checked its configuration: the token secret is
  the environment's and has at least 32 bytes, in production the only allowed origin is the
  configured one, the database answered, and on Render its address is not local unless a
  fallback variable names it so.
\<close>

theorem startup_checks_configuration:
  assumes "startup getenv connect = Inr (connStr, secret, addr)"
  shows "secret = getenv ''JWT_SECRET'' \<and> 32 \<le> length secret \<and> connect connStr = None
    \<and> (getenv ''ENVIRONMENT'' = ''production'' \<longrightarrow>
         parseAllowedOrigins getenv = [getenv ''PROD_FRONTEND_URL''] \<and> getenv ''PROD_FRONTEND_URL'' \<noteq> [])
    \<and> (getenv ''RENDER'' = ''true'' \<longrightarrow>
         connStr \<noteq> [] \<and> (is_local_url (ToLower connStr) \<longrightarrow> first_set getenv fallbackVars = Some connStr))"
  using startup_checks [OF assms] resolveDBURL_render [of getenv connStr] TrimSpace_Nil
  by (auto simp: validateEnvironment_ok parseAllowedOrigins_def)

theorem startup_checks_configuration_witness:
  "(let env = (\<lambda>v. if v = ''JWT_SECRET'' then ''0123456789abcdef0123456789abcdef''
                    else if v = ''RENDER'' then ''true'' else if v = ''DB_URL'' then ''db'' else [])
    in startup env (\<lambda>c. None) = Inr (''db'', ''0123456789abcdef0123456789abcdef'', '':8080'')
       \<and> \<not> is_local_url (ToLower ''db''))"
proof -
  let ?env = "\<lambda>v. if v = ''JWT_SECRET'' then ''0123456789abcdef0123456789abcdef''
                 else if v = ''RENDER'' then ''true'' else if v = ''DB_URL'' then ''db'' else []"
  have up: "startup ?env (\<lambda>c. None) = Inr (''db'', ''0123456789abcdef0123456789abcdef'', '':8080'')"
    by code_simp
  moreover have "first_set ?env fallbackVars = None" by code_simp
  ultimately show ?thesis using startup_checks_configuration [OF up] by (simp add: Let_def)
qed

end
